(* ===== verification/Redkey_Prelude.thy ===== *)
theory Redkey_Prelude
  imports Main "HOL-Library.Word" "HOL-Library.Finite_Map" "HOL-Library.Multiset"
begin

section \<open>Shared vocabulary: Go values, fallible computations, decimal text\<close>

text \<open>
  What the components share: Go's \<^verbatim>\<open>map[string]string\<close> with its nil value, Go errors,
  computations that thread a state and may return an error, the decimal conversions of
  \<^verbatim>\<open>strconv\<close>, and the generic lemmas on them.
\<close>

named_theorems run_simps "unfolding one step of a computation"
named_theorems wp_simps "weakest preconditions of computations"

subsection \<open>Machine integers and opaque API values\<close>

type_synonym int32 = "32 word"
type_synonym int64 = "64 word"

text \<open>
  A Go \<^verbatim>\<open>int\<close> is 64 bits wide on the platforms the operator is built for (linux/amd64
  and linux/arm64).
\<close>

type_synonym go_int = "64 word"

text \<open>
  Values of Kubernetes API types that the operator only copies from one object to another
  (affinities, volumes, security contexts, \<dots>) are represented by their JSON text.
\<close>

type_synonym json = string

subsection \<open>Maps that may be nil\<close>

text \<open>
  \<^verbatim>\<open>map[string]string\<close>: \<open>None\<close> is the nil map. A read of a nil map finds nothing, its
  length is 0, and copying from it copies nothing.
\<close>

type_synonym strmap = "(string, string) fmap"
type_synonym gomap = "strmap option"

definition contents :: "gomap \<Rightarrow> strmap" where
  "contents m = (case m of None \<Rightarrow> fmempty | Some f \<Rightarrow> f)"

definition mapGet :: "gomap \<Rightarrow> string \<Rightarrow> string option" where
  "mapGet m k = fmlookup (contents m) k"

definition mapNonEmpty :: "gomap \<Rightarrow> bool" where
  "mapNonEmpty m \<longleftrightarrow> contents m \<noteq> fmempty"

definition mapsCopy :: "strmap \<Rightarrow> gomap \<Rightarrow> strmap" where
  "mapsCopy dst src = dst ++\<^sub>f contents src"

lemma contents_simps [simp]:
  "contents None = fmempty"
  "contents (Some f) = f"
  by (simp_all add: contents_def)

lemma mapGet_simps [simp]:
  "mapGet None k = None"
  "mapGet (Some f) k = fmlookup f k"
  by (simp_all add: mapGet_def)

lemma mapNonEmpty_simps [simp]:
  "\<not> mapNonEmpty None"
  "mapNonEmpty (Some f) \<longleftrightarrow> f \<noteq> fmempty"
  by (simp_all add: mapNonEmpty_def)

lemma mapsCopy_lookup [simp]:
  "fmlookup (mapsCopy dst src) k = (case mapGet src k of None \<Rightarrow> fmlookup dst k | Some v \<Rightarrow> Some v)"
  by (simp add: mapsCopy_def mapGet_def fmlookup_dom_iff split: option.split)

lemma fmupd_not_empty [simp]: "fmupd k v m \<noteq> fmempty" "fmempty \<noteq> fmupd k v m"
proof -
  have "fmlookup (fmupd k v m) k \<noteq> fmlookup fmempty k"
    by simp
  then show "fmupd k v m \<noteq> fmempty" "fmempty \<noteq> fmupd k v m"
    by metis+
qed

lemma fmap_empty_iff: "m = fmempty \<longleftrightarrow> (\<forall>k. fmlookup m k = None)"
  by (auto intro: fmap_ext)

lemma mapNonEmpty_iff: "mapNonEmpty m \<longleftrightarrow> (\<exists>k v. mapGet m k = Some v)"
  by (auto simp: mapNonEmpty_def mapGet_def fmap_empty_iff)

text \<open>Two maps with the same entries; nil and empty are then the same map.\<close>

lemma contents_eq_iff: "contents a = contents b \<longleftrightarrow> (\<forall>k. mapGet a k = mapGet b k)"
  by (auto simp: mapGet_def intro: fmap_ext)

subsection \<open>Errors and computations\<close>

text \<open>
  An error value. The first three constructors are the reasons of an API status error that
  the code asks for (\<^verbatim>\<open>errors.IsNotFound\<close>, \<^verbatim>\<open>errors.IsAlreadyExists\<close> and the conflict on
  which \<^verbatim>\<open>retry.RetryOnConflict\<close> runs again); \<open>Wrapped\<close> is \<^verbatim>\<open>fmt.Errorf("...: %w", err)\<close>.
\<close>

datatype go_error = NotFound | AlreadyExists | Conflict | OtherError string | Wrapped string go_error

text \<open>
  A computation reads and changes a state and returns a value or an error. The state is
  returned in both cases: an early \<^verbatim>\<open>return err\<close> does not undo what was done before it.
\<close>

type_synonym ('s, 'a) io = "'s \<Rightarrow> (go_error + 'a) \<times> 's"

definition returnE :: "'a \<Rightarrow> ('s, 'a) io" where
  "returnE x s = (Inr x, s)"

definition throwE :: "go_error \<Rightarrow> ('s, 'a) io" where
  "throwE e s = (Inl e, s)"

text \<open>\<open>x, err := m; if err != nil { return err }; f x\<close>\<close>

definition bindE :: "('s, 'a) io \<Rightarrow> ('a \<Rightarrow> ('s, 'b) io) \<Rightarrow> ('s, 'b) io" where
  "bindE m f s = (case m s of (Inl e, s') \<Rightarrow> (Inl e, s') | (Inr x, s') \<Rightarrow> f x s')"

text \<open>\<open>x, err := m\<close>, with the error kept as a value the code then looks at.\<close>

definition attemptE :: "('s, 'a) io \<Rightarrow> ('s, go_error + 'a) io" where
  "attemptE m s = (case m s of (r, s') \<Rightarrow> (Inr r, s'))"

definition modifyE :: "('s \<Rightarrow> 's) \<Rightarrow> ('s, unit) io" where
  "modifyE f s = (Inr (), f s)"

definition liftResult :: "go_error + 'a \<Rightarrow> ('s, 'a) io" where
  "liftResult r s = (r, s)"

text \<open>\<open>if err := m; err != nil { h; return err }\<close>\<close>

definition onErrorE :: "('s, 'a) io \<Rightarrow> ('s \<Rightarrow> 's) \<Rightarrow> ('s, 'a) io" where
  "onErrorE m h s = (case m s of (Inl e, s') \<Rightarrow> (Inl e, h s') | (Inr x, s') \<Rightarrow> (Inr x, s'))"

fun forE :: "'a list \<Rightarrow> ('a \<Rightarrow> ('s, unit) io) \<Rightarrow> ('s, unit) io" where
  "forE [] f = returnE ()"
| "forE (x # xs) f = bindE (f x) (\<lambda>_. forE xs f)"

lemma run_basic [run_simps]:
  "returnE x s = (Inr x, s)"
  "throwE e s = (Inl e, s)"
  "modifyE g s = (Inr (), g s)"
  "liftResult r s = (r, s)"
  by (simp_all add: returnE_def throwE_def modifyE_def liftResult_def)

lemma run_bindE [run_simps]:
  "m s = (Inr x, s') \<Longrightarrow> bindE m f s = f x s'"
  "m s = (Inl e, s') \<Longrightarrow> bindE m f s = (Inl e, s')"
  by (simp_all add: bindE_def)

lemma run_attemptE [run_simps]: "m s = (r, s') \<Longrightarrow> attemptE m s = (Inr r, s')"
  by (simp add: attemptE_def)

lemma run_onErrorE [run_simps]:
  "m s = (Inr x, s') \<Longrightarrow> onErrorE m h s = (Inr x, s')"
  "m s = (Inl e, s') \<Longrightarrow> onErrorE m h s = (Inl e, h s')"
  by (simp_all add: onErrorE_def)

text \<open>The monad laws, so that a handler can be read in either nesting.\<close>

lemma bindE_returnE [simp]: "bindE (returnE x) f = f x"
  by (rule ext) (simp add: bindE_def returnE_def)

lemma returnE_bindE [simp]: "bindE m returnE = m"
  by (rule ext) (auto simp: bindE_def returnE_def split: prod.split sum.split)

lemma bindE_assoc: "bindE (bindE m f) g = bindE m (\<lambda>x. bindE (f x) g)"
  by (rule ext) (auto simp: bindE_def split: prod.split sum.split)

lemma bindE_InrE:
  assumes "bindE m f s = (Inr y, s')"
  obtains x t where "m s = (Inr x, t)" and "f x t = (Inr y, s')"
  using assms by (auto simp: bindE_def split: prod.splits sum.splits)

subsection \<open>Weakest preconditions\<close>

text \<open>
  \<open>wp m Q E s\<close>: run from \<open>s\<close>, \<open>m\<close> ends in a value and state that satisfy \<open>Q\<close>, or in an
  error and state that satisfy \<open>E\<close>. The rules compute it along the code.
\<close>

definition wp :: "('s, 'a) io \<Rightarrow> ('a \<Rightarrow> 's \<Rightarrow> bool) \<Rightarrow> (go_error \<Rightarrow> 's \<Rightarrow> bool) \<Rightarrow> 's \<Rightarrow> bool" where
  "wp m Q E s = (case m s of (Inl e, s') \<Rightarrow> E e s' | (Inr x, s') \<Rightarrow> Q x s')"

text \<open>The rules are equations between predicates, so that they also apply to the rest of a handler.\<close>

lemma wp_returnE [wp_simps]: "wp (returnE x) Q E = Q x"
  by (simp add: wp_def returnE_def fun_eq_iff)

lemma wp_throwE [wp_simps]: "wp (throwE e) Q E = E e"
  by (simp add: wp_def throwE_def fun_eq_iff)

lemma wp_modifyE [wp_simps]: "wp (modifyE f) Q E = (\<lambda>s. Q () (f s))"
  by (simp add: wp_def modifyE_def fun_eq_iff)

lemma wp_liftResult [wp_simps]:
  "wp (liftResult r) Q E = (case r of Inl e \<Rightarrow> E e | Inr x \<Rightarrow> Q x)"
  by (simp add: wp_def liftResult_def fun_eq_iff split: sum.split)

lemma wp_bindE [wp_simps]: "wp (bindE m f) Q E = wp m (\<lambda>x. wp (f x) Q E) E"
  by (auto simp: wp_def bindE_def fun_eq_iff split: prod.split sum.split)

lemma wp_attemptE [wp_simps]:
  "wp (attemptE m) Q E = wp m (\<lambda>x. Q (Inr x)) (\<lambda>e. Q (Inl e))"
  by (auto simp: wp_def attemptE_def fun_eq_iff split: prod.split sum.split)

lemma wp_onErrorE [wp_simps]:
  "wp (onErrorE m h) Q E = wp m Q (\<lambda>e s'. E e (h s'))"
  by (auto simp: wp_def onErrorE_def fun_eq_iff split: prod.split sum.split)

lemma wp_if [wp_simps]: "wp (if b then m else n) Q E = (if b then wp m Q E else wp n Q E)"
  by simp

lemma wp_mono:
  assumes "wp m Q E s" and "\<And>x s'. Q x s' \<Longrightarrow> Q' x s'" and "\<And>e s'. E e s' \<Longrightarrow> E' e s'"
  shows "wp m Q' E' s"
  using assms by (auto simp: wp_def split: prod.splits sum.splits)

lemma wpI:
  assumes "\<And>x s'. m s = (Inr x, s') \<Longrightarrow> Q x s'" and "\<And>e s'. m s = (Inl e, s') \<Longrightarrow> E e s'"
  shows "wp m Q E s"
  using assms by (simp add: wp_def split: prod.split sum.split)

lemma wp_InrD: "wp m Q E s \<Longrightarrow> m s = (Inr x, s') \<Longrightarrow> Q x s'"
  by (simp add: wp_def)

lemma wp_InlD: "wp m Q E s \<Longrightarrow> m s = (Inl e, s') \<Longrightarrow> E e s'"
  by (simp add: wp_def)

text \<open>A loop keeps what its body keeps.\<close>

lemma wp_forE_keeps:
  assumes "\<And>x s. x \<in> set xs \<Longrightarrow> I s \<Longrightarrow> wp (f x) (\<lambda>_. I) (\<lambda>_. I) s" and "I s"
  shows "wp (forE xs f) (\<lambda>_. I) (\<lambda>_. I) s"
  using assms
proof (induction xs arbitrary: s)
  case Nil
  then show ?case by (simp add: wp_simps)
next
  case (Cons x xs)
  have "wp (f x) (\<lambda>_. I) (\<lambda>_. I) s"
    by (rule Cons.prems(1)) (simp_all add: Cons.prems(2))
  moreover have "wp (forE xs f) (\<lambda>_. I) (\<lambda>_. I) t" if "I t" for t
    by (rule Cons.IH) (simp_all add: Cons.prems(1) that)
  ultimately show ?case
    by (auto simp: wp_simps elim!: wp_mono)
qed

subsection \<open>What a computation keeps\<close>

named_theorems keeps_rules "how a predicate on states is kept along the code"

definition keeps :: "('s \<Rightarrow> bool) \<Rightarrow> ('s, 'a) io \<Rightarrow> bool" where
  "keeps P m \<longleftrightarrow> (\<forall>s. P s \<longrightarrow> P (snd (m s)))"

lemma keepsI: "(\<And>s res s'. P s \<Longrightarrow> m s = (res, s') \<Longrightarrow> P s') \<Longrightarrow> keeps P m"
  by (metis keeps_def prod.collapse)

lemma keepsD: "keeps P m \<Longrightarrow> P s \<Longrightarrow> m s = (res, s') \<Longrightarrow> P s'"
  by (metis keeps_def snd_conv)

lemma keeps_basic [keeps_rules]: "keeps P (returnE x)" "keeps P (throwE e)" "keeps P (liftResult res)"
  by (simp_all add: keeps_def returnE_def throwE_def liftResult_def)

lemma keeps_modifyE [keeps_rules]: "(\<And>s. P s \<Longrightarrow> P (f s)) \<Longrightarrow> keeps P (modifyE f)"
  by (simp add: keeps_def modifyE_def)

lemma keeps_attemptE [keeps_rules]: "keeps P m \<Longrightarrow> keeps P (attemptE m)"
  by (auto simp: attemptE_def intro!: keepsI dest: keepsD split: prod.splits)

lemma keeps_bindE [keeps_rules]: "keeps P m \<Longrightarrow> (\<And>x. keeps P (f x)) \<Longrightarrow> keeps P (bindE m f)"
  by (rule keepsI) (auto simp: bindE_def split: prod.splits sum.splits; metis keepsD)

lemma keeps_if [keeps_rules]: "(b \<Longrightarrow> keeps P m) \<Longrightarrow> (\<not> b \<Longrightarrow> keeps P n) \<Longrightarrow> keeps P (if b then m else n)"
  by simp

lemma keeps_case_sum [keeps_rules]:
  "(\<And>e. keeps P (f e)) \<Longrightarrow> (\<And>x. keeps P (g x)) \<Longrightarrow> keeps P (case res of Inl e \<Rightarrow> f e | Inr x \<Rightarrow> g x)"
  by (cases res) simp_all

lemma keeps_case_option [keeps_rules]:
  "keeps P m \<Longrightarrow> (\<And>x. keeps P (g x)) \<Longrightarrow> keeps P (case res of None \<Rightarrow> m | Some x \<Rightarrow> g x)"
  by (cases res) simp_all

lemma keeps_forE [keeps_rules]: "(\<And>x. x \<in> set xs \<Longrightarrow> keeps P (f x)) \<Longrightarrow> keeps P (forE xs f)"
  by (induction xs) (auto intro: keeps_rules)

lemma wp_keeps:
  assumes "keeps P m" and "P s" and "\<And>x s'. P s' \<Longrightarrow> Q x s'" and "\<And>e s'. P s' \<Longrightarrow> E e s'"
  shows "wp m Q E s"
  using assms by (blast intro: wpI dest: keepsD)

subsection \<open>Decimal text: \<^verbatim>\<open>strconv.FormatInt\<close> and \<^verbatim>\<open>strconv.ParseInt\<close>\<close>

definition digitChar :: "nat \<Rightarrow> char" where
  "digitChar d = char_of (48 + d)"

definition digitVal :: "char \<Rightarrow> nat option" where
  "digitVal c = (let n = of_char c in if 48 \<le> n \<and> n \<le> 57 then Some (n - 48) else None)"

fun showNat :: "nat \<Rightarrow> string" where
  "showNat n = (if n < 10 then [digitChar n] else showNat (n div 10) @ [digitChar (n mod 10)])"

declare showNat.simps [simp del]

definition FormatInt :: "int64 \<Rightarrow> string" where
  "FormatInt w =
     (if sint w < 0 then CHR ''-'' # showNat (nat (- sint w)) else showNat (nat (sint w)))"

fun parseDigits :: "nat \<Rightarrow> string \<Rightarrow> nat option" where
  "parseDigits acc [] = Some acc"
| "parseDigits acc (c # cs) =
     (case digitVal c of None \<Rightarrow> None | Some d \<Rightarrow> parseDigits (10 * acc + d) cs)"

definition ParseUint :: "string \<Rightarrow> nat option" where
  "ParseUint s = (if s = [] then None else parseDigits 0 s)"

text \<open>\<open>None\<close> is a syntax or range error; the code does not tell them apart.\<close>

definition parseSigned :: "(string \<Rightarrow> nat option) \<Rightarrow> string \<Rightarrow> int64 option" where
  "parseSigned magnitude s =
     (case s of
        [] \<Rightarrow> None
      | c # cs \<Rightarrow>
          if c = CHR ''-'' then
            (case magnitude cs of
               None \<Rightarrow> None
             | Some n \<Rightarrow> if n \<le> 2 ^ 63 then Some (word_of_int (- int n)) else None)
          else
            (case magnitude (if c = CHR ''+'' then cs else s) of
               None \<Rightarrow> None
             | Some n \<Rightarrow> if n < 2 ^ 63 then Some (word_of_int (int n)) else None))"

definition ParseInt :: "string \<Rightarrow> int64 option" where
  "ParseInt = parseSigned ParseUint"

lemma ParseInt_Nil [simp]: "ParseInt [] = None"
  by (simp add: ParseInt_def parseSigned_def)

lemma digitVal_digitChar [simp]: "d < 10 \<Longrightarrow> digitVal (digitChar d) = Some d"
  by (simp add: digitVal_def digitChar_def Let_def of_char_of)

lemma digitChar_not_sign: "d < 10 \<Longrightarrow> digitChar d \<noteq> CHR ''-'' \<and> digitChar d \<noteq> CHR ''+''"
proof -
  have "digitVal (CHR ''-'') = None" "digitVal (CHR ''+'') = None"
    by (simp_all add: digitVal_def)
  then show "d < 10 \<Longrightarrow> ?thesis"
    by (metis digitVal_digitChar option.distinct(1))
qed

lemma parseDigits_append:
  "parseDigits acc (xs @ ys) =
     (case parseDigits acc xs of None \<Rightarrow> None | Some a \<Rightarrow> parseDigits a ys)"
  by (induction acc xs rule: parseDigits.induct) (auto split: option.split)

lemma showNat_not_Nil [simp]: "showNat n \<noteq> []"
  by (subst showNat.simps) simp

lemma parseDigits_showNat: "parseDigits 0 (showNat n) = Some n"
proof (induction n rule: showNat.induct)
  case (1 n)
  show ?case
  proof (cases "n < 10")
    case True
    then show ?thesis by (simp add: showNat.simps [of n])
  next
    case False
    with "1.IH" show ?thesis
      by (simp add: showNat.simps [of n] parseDigits_append)
  qed
qed

lemma hd_showNat: "\<exists>d < 10. hd (showNat n) = digitChar d"
proof (induction n rule: showNat.induct)
  case (1 n)
  show ?case
  proof (cases "n < 10")
    case True
    then show ?thesis by (auto simp: showNat.simps [of n])
  next
    case False
    with "1.IH" show ?thesis by (auto simp: showNat.simps [of n])
  qed
qed

lemma showNat_no_sign:
  assumes "showNat n = c # cs"
  shows "c \<noteq> CHR ''-'' \<and> c \<noteq> CHR ''+''"
  using hd_showNat [of n] digitChar_not_sign assms by auto

lemma ParseUint_showNat [simp]: "ParseUint (showNat n) = Some n"
  by (simp add: ParseUint_def parseDigits_showNat)

lemma FormatInt_not_empty [simp]: "FormatInt w \<noteq> []"
  by (simp add: FormatInt_def)

lemma sint_int64_bounds: "- (2 ^ 63) \<le> sint (w :: int64)" "sint (w :: int64) < 2 ^ 63"
  using sint_range_size [of w] by (simp_all add: word_size)

text \<open>A decimal numeral is its sign and the digits of its magnitude.\<close>

lemma FormatInt_cases:
  obtains (neg) "sint w < 0" "FormatInt w = CHR ''-'' # showNat (nat (- sint w))" "nat (- sint w) \<le> 2 ^ 63"
  | (nonneg) c cs where "0 \<le> sint w" "FormatInt w = showNat (nat (sint w))" "nat (sint w) < 2 ^ 63"
      "showNat (nat (sint w)) = c # cs" "c \<noteq> CHR ''-''" "c \<noteq> CHR ''+''"
proof (cases "sint w < 0")
  case True
  with neg sint_int64_bounds(1) [of w] show ?thesis by (simp add: FormatInt_def)
next
  case False
  obtain c cs where "showNat (nat (sint w)) = c # cs" by (cases "showNat (nat (sint w))") auto
  with False nonneg sint_int64_bounds(2) [of w] showNat_no_sign show ?thesis by (simp add: FormatInt_def)
qed

lemma parseSigned_FormatInt:
  assumes "\<And>n. n \<le> 2 ^ 63 \<Longrightarrow> magnitude (showNat n @ t) = Some n"
  shows "parseSigned magnitude (FormatInt w @ t) = Some w"
proof (cases w rule: FormatInt_cases)
  case neg
  with assms [OF neg(3)] show ?thesis by (simp add: parseSigned_def)
next
  case (nonneg c cs)
  with assms [of "nat (sint w)"] show ?thesis by (simp add: parseSigned_def)
qed

lemma ParseInt_FormatInt [simp]: "ParseInt (FormatInt w) = Some w"
  using parseSigned_FormatInt [of ParseUint "[]"] by (simp add: ParseInt_def)

lemma FormatInt_inj [simp]: "FormatInt a = FormatInt b \<longleftrightarrow> a = b"
  by (metis ParseInt_FormatInt option.inject)

text \<open>\<^verbatim>\<open>fmt.Sprintf("%s-%d", name, n)\<close>\<close>

definition sprintfNameNum :: "string \<Rightarrow> go_int \<Rightarrow> string" where
  "sprintfNameNum name n = name @ ''-'' @ FormatInt n"

lemma sprintfNameNum_inj [simp]: "sprintfNameNum name a = sprintfNameNum name b \<longleftrightarrow> a = b"
  by (simp add: sprintfNameNum_def)

lemma sint_eq_iff: "sint (a :: int64) = sint b \<longleftrightarrow> a = b"
proof
  assume "sint a = sint b"
  then have "(word_of_int (sint a) :: int64) = word_of_int (sint b)" by simp
  then show "a = b" by simp
qed simp

subsection \<open>Sorting by a key\<close>

text \<open>
  \<^verbatim>\<open>sort.Slice\<close> promises a permutation that is sorted, and no order among equal keys. With
  distinct keys that leaves one list only.
\<close>

lemma sorted_key_unique:
  assumes "mset xs = mset ys" and "sorted (map f xs)" and "sorted (map f ys)"
    and "distinct (map f xs)"
  shows "xs = ys"
proof -
  have inj: "inj_on f (set xs)" and "distinct xs"
    using assms(4) by (simp_all add: distinct_map)
  moreover have "set ys = set xs"
    using assms(1) by (metis set_mset_mset)
  moreover have "map f xs = map f ys"
    using assms by (metis properties_for_sort sorted_sort_id mset_map)
  ultimately show ?thesis
    by (metis map_inj_on Un_absorb)
qed

end
