(* ===== verification/Api_Types.thy ===== *)
theory Api_Types
  imports Redkey_Prelude
begin

section \<open>The API types of \<^verbatim>\<open>api/v1beta1\<close> and the Kubernetes types they use\<close>

text \<open>
  One record per Go struct, with the struct's fields in the source's order. A pointer field is
  an \<open>option\<close>, an \<^verbatim>\<open>int32\<close> a 32-bit word and an \<^verbatim>\<open>int\<close> or \<^verbatim>\<open>int64\<close> a 64-bit word, read as
  two's complement by \<open>sint\<close>. Of the Kubernetes types (\<^verbatim>\<open>metav1\<close>, \<^verbatim>\<open>corev1\<close>, \<^verbatim>\<open>appsv1\<close>,
  \<^verbatim>\<open>rbacv1\<close>) only the fields the operator reads or writes appear.
\<close>

subsection \<open>Kubernetes metadata\<close>

type_synonym nsname = "string \<times> string" \<comment> \<open>namespace and name: \<^verbatim>\<open>types.NamespacedName\<close>\<close>

record OwnerReference =
  or_Kind :: string
  or_Name :: string
  or_Controller :: bool

record ObjectMeta =
  Name :: string
  Namespace :: string
  Labels :: gomap
  Annotations :: gomap
  Generation :: int64
  ResourceVersion :: nat
  CreationTimestamp :: int
  OwnerReferences :: "OwnerReference list"

definition metaKey :: "ObjectMeta \<Rightarrow> nsname" where
  "metaKey m = (Namespace m, Name m)"

text \<open>The zero value, from which a composite literal sets the fields it names.\<close>

definition emptyMeta :: ObjectMeta where
  "emptyMeta = \<lparr>Name = [], Namespace = [], Labels = None, Annotations = None, Generation = 0,
     ResourceVersion = 0, CreationTimestamp = 0, OwnerReferences = []\<rparr>"

text \<open>
  \<^verbatim>\<open>metav1.Condition\<close>. Its status is one of the strings True, False and Unknown.
\<close>

datatype ConditionStatus = ConditionTrue | ConditionFalse | ConditionUnknown

record Condition =
  c_Type :: string
  c_Status :: ConditionStatus
  c_ObservedGeneration :: int64
  c_LastTransitionTime :: int
  c_Reason :: string
  c_Message :: string

definition mkCondition :: "string \<Rightarrow> ConditionStatus \<Rightarrow> string \<Rightarrow> string \<Rightarrow> Condition" where
  "mkCondition ty st reason msg = \<lparr>c_Type = ty, c_Status = st, c_ObservedGeneration = 0,
     c_LastTransitionTime = 0, c_Reason = reason, c_Message = msg\<rparr>"

lemma mkCondition_sel [simp]:
  "c_Type (mkCondition ty st r m) = ty"
  "c_Status (mkCondition ty st r m) = st"
  "c_Reason (mkCondition ty st r m) = r"
  "c_Message (mkCondition ty st r m) = m"
  by (simp_all add: mkCondition_def)

lemma metaKey_update [simp]:
  "metaKey (m\<lparr>Labels := a\<rparr>) = metaKey m"
  "metaKey (m\<lparr>Annotations := b\<rparr>) = metaKey m"
  "metaKey (m\<lparr>OwnerReferences := c\<rparr>) = metaKey m"
  "metaKey (m\<lparr>ResourceVersion := v\<rparr>) = metaKey m"
  by (simp_all add: metaKey_def)

subsection \<open>Pods and containers\<close>

record EnvVar =
  ev_Name :: string
  ev_Value :: string
  ev_ValueFrom :: "json option"

record ContainerPort =
  p_Name :: string
  p_ContainerPort :: int32
  p_Protocol :: string

record ResourceRequirements =
  Limits :: gomap
  Requests :: gomap

record Container =
  k_Name :: string
  k_Image :: string
  k_Args :: "string list"
  k_Env :: "EnvVar list"
  k_EnvFrom :: "json list"
  k_Ports :: "ContainerPort list"
  k_Resources :: ResourceRequirements
  k_VolumeMounts :: "json list"
  k_SecurityContext :: "json option"

record PodSpec =
  ps_ServiceAccountName :: string
  ps_Containers :: "Container list"
  ps_NodeSelector :: gomap
  ps_Tolerations :: "json list"
  ps_Affinity :: "json option"
  ps_SecurityContext :: "json option"
  ps_ImagePullSecrets :: "json list"
  ps_PriorityClassName :: string
  ps_TopologySpreadConstraints :: "json list"
  ps_Volumes :: "json list"

subsection \<open>The objects the operator manages for Robin\<close>

record ServiceAccount =
  sa_Meta :: ObjectMeta

record PolicyRule =
  APIGroups :: "string list"
  Resources :: "string list"
  Verbs :: "string list"

record Role =
  role_Meta :: ObjectMeta
  Rules :: "PolicyRule list"

record Subject =
  sub_Kind :: string
  sub_Name :: string
  sub_Namespace :: string

record RoleRef =
  rr_APIGroup :: string
  rr_Kind :: string
  rr_Name :: string

record RoleBinding =
  rb_Meta :: ObjectMeta
  Subjects :: "Subject list"
  RoleRefOf :: RoleRef

record PodTemplateSpec =
  tpl_Labels :: gomap
  tpl_Annotations :: gomap
  tpl_Spec :: PodSpec

record Deployment =
  d_Meta :: ObjectMeta
  d_Replicas :: "int32 option"
  d_Selector :: gomap
  d_Template :: PodTemplateSpec

subsection \<open>Robin's configuration\<close>

record RobinConfigProfiling =
  prof_Enabled :: "bool option"

record RobinConfigReconciler =
  IntervalSeconds :: "go_int option"
  IntervalOnErrorSeconds :: "go_int option"
  IntervalOnWaitSeconds :: "go_int option"

record RobinConfigCluster =
  ConnectionMaxRetries :: "go_int option"
  ConnectionBackOffSeconds :: "go_int option"
  ClusterCommandTimeoutSeconds :: "go_int option"
  ClusterMeetWaitSeconds :: "go_int option"
  RebalanceTimeoutSeconds :: "go_int option"

record RobinConfigMetrics =
  CollectionIntervalSeconds :: "go_int option"
  RedisInfoKeys :: "string list"
  MetricsLabels :: gomap

record RobinConfig =
  ReconcilerCfg :: "RobinConfigReconciler option"
  ClusterCfg :: "RobinConfigCluster option"
  MetricsCfg :: "RobinConfigMetrics option"
  ProfilingCfg :: "RobinConfigProfiling option"

subsection \<open>Overrides of generated objects\<close>

record PartialPodSpec =
  pps_Containers :: "Container list"
  pps_InitContainers :: "json list"
  pps_EphemeralContainers :: "json list"
  pps_RestartPolicy :: string
  pps_TerminationGracePeriodSeconds :: "int64 option"
  pps_DNSPolicy :: string
  pps_NodeSelector :: gomap
  pps_ServiceAccountName :: string
  pps_SecurityContext :: "json option"
  pps_ImagePullSecrets :: "json list"
  pps_Affinity :: "json option"
  pps_Tolerations :: "json list"
  pps_PriorityClassName :: string
  pps_TopologySpreadConstraints :: "json list"
  pps_Volumes :: "json list"

record PartialPodTemplateSpec =
  ppt_Metadata :: ObjectMeta
  ppt_Spec :: PartialPodSpec

record PartialStatefulSetSpec =
  ss_MinReadySeconds :: "int32 option"
  ss_Replicas :: "int32 option"
  ss_Selector :: "json option"
  ss_ServiceName :: string
  ss_Template :: "PartialPodTemplateSpec option"
  ss_UpdateStrategy :: "json option"
  ss_RevisionHistoryLimit :: "int32 option"
  ss_PodManagementPolicy :: string
  ss_VolumeClaimTemplates :: "json list"
  ss_PersistentVolumeClaimRetentionPolicy :: "json option"
  ss_Ordinals :: "json option"

record PartialStatefulSet =
  pss_APIVersion :: string
  pss_Kind :: string
  pss_Metadata :: ObjectMeta
  pss_Spec :: "PartialStatefulSetSpec option"

record PartialServiceSpec =
  svc_Ports :: "json list"
  svc_Selector :: gomap
  svc_ClusterIP :: string
  svc_Type :: string
  svc_PublishNotReadyAddresses :: bool

record PartialService =
  psv_APIVersion :: string
  psv_Kind :: string
  psv_Metadata :: ObjectMeta
  psv_Spec :: "PartialServiceSpec option"

record RedkeyOverrideSpec =
  ov_StatefulSet :: "PartialStatefulSet option"
  ov_Service :: "PartialService option"

subsection \<open>\<^verbatim>\<open>Redkey\<close>: the user's resource (\<^verbatim>\<open>redkey_types.go\<close>)\<close>

record RedisAuth =
  SecretName :: string

datatype IntOrString = IntVal int32 | StrVal string

record Pdb =
  pdb_Enabled :: bool
  pdb_SizeUnavailable :: IntOrString
  pdb_SizeAvailable :: IntOrString

record RobinSpec =
  rob_Image :: string
  rob_Resources :: "ResourceRequirements option"
  rob_Template :: "PartialPodTemplateSpec option"
  rob_Config :: "RobinConfig option"

record RedkeySpec =
  sp_Auth :: RedisAuth
  sp_Version :: string
  sp_Mode :: string
  sp_Primaries :: int32
  sp_ReplicasPerPrimary :: int32
  sp_Image :: string
  sp_DeletePVC :: "bool option"
  sp_Backup :: bool
  sp_Robin :: RobinSpec
  sp_SkipIfSuperseded :: bool
  sp_PurgeKeysOnRebalance :: "bool option"
  sp_Config :: string
  sp_Resources :: "ResourceRequirements option"
  sp_Labels :: "gomap option"
  sp_Annotations :: "gomap option"
  sp_Pdb :: Pdb
  sp_Override :: "RedkeyOverrideSpec option"
  sp_Ephemeral :: bool
  sp_Storage :: string
  sp_StorageClassName :: string
  sp_AccessModes :: "string list"

definition ModeCluster :: string where "ModeCluster = ''cluster''"
definition ModeStandalone :: string where "ModeStandalone = ''standalone''"

definition NodesNeeded :: "RedkeySpec \<Rightarrow> go_int" where
  "NodesNeeded s = scast (sp_Primaries s + sp_Primaries s * sp_ReplicasPerPrimary s)"

definition IsStandalone :: "RedkeySpec \<Rightarrow> bool" where
  "IsStandalone s \<longleftrightarrow> sp_Mode s = ModeStandalone"

definition PhaseReady :: string where "PhaseReady = ''Ready''"
definition PhaseConfiguring :: string where "PhaseConfiguring = ''Configuring''"
definition PhaseError :: string where "PhaseError = ''Error''"

record RedkeySubstatus =
  sub_Status :: string
  sub_UpgradingPartition :: go_int

record RedisNode =
  n_Role :: string
  n_IP :: string
  n_ReplicationStatus :: string

type_synonym nodemap = "(string, RedisNode option) fmap option"

record RedkeyStatus =
  st_Replicas :: int32
  st_Phase :: string
  st_Status :: string
  st_Substatus :: RedkeySubstatus
  st_Nodes :: nodemap
  st_Conditions :: "Condition list"
  st_LastUpdatedAt :: "int option"
  st_ObservedGeneration :: int64
  st_LastAppliedPrimaries :: int32
  st_LastAppliedReplicasPerPrimary :: int32

record Redkey =
  rk_Meta :: ObjectMeta
  rk_Spec :: RedkeySpec
  rk_Status :: RedkeyStatus

definition NamespacedName :: "Redkey \<Rightarrow> nsname" where
  "NamespacedName r = (Namespace (rk_Meta r), Name (rk_Meta r))"

definition GetLabels :: "Redkey \<Rightarrow> gomap" where
  "GetLabels r = (case sp_Labels (rk_Spec r) of Some m \<Rightarrow> m | None \<Rightarrow> Some fmempty)"

subsection \<open>\<^verbatim>\<open>RedkeyConfig\<close>: the sequenced snapshot (\<^verbatim>\<open>redkeyconfig_types.go\<close>)\<close>

definition ConfigPhasePending :: string where "ConfigPhasePending = ''Pending''"
definition ConfigPhaseInProgress :: string where "ConfigPhaseInProgress = ''InProgress''"
definition ConfigPhaseSuperseded :: string where "ConfigPhaseSuperseded = ''Superseded''"
definition ConfigPhaseApplied :: string where "ConfigPhaseApplied = ''Applied''"

definition ClusterStatusInitializing :: string where "ClusterStatusInitializing = ''Initializing''"
definition ClusterStatusConfiguring :: string where "ClusterStatusConfiguring = ''Configuring''"
definition ClusterStatusReady :: string where "ClusterStatusReady = ''Ready''"
definition ClusterStatusScalingUp :: string where "ClusterStatusScalingUp = ''ScalingUp''"
definition ClusterStatusScalingDown :: string where "ClusterStatusScalingDown = ''ScalingDown''"
definition ClusterStatusScalingToZero :: string where "ClusterStatusScalingToZero = ''ScalingToZero''"
definition ClusterStatusUpgrading :: string where "ClusterStatusUpgrading = ''Upgrading''"
definition ClusterStatusMaintenance :: string where "ClusterStatusMaintenance = ''Maintenance''"
definition ClusterPhaseRebalancing :: string where "ClusterPhaseRebalancing = ''Rebalancing''"
definition ClusterPhaseError :: string where "ClusterPhaseError = ''Error''"

definition ConditionHealthy :: string where "ConditionHealthy = ''Healthy''"
definition ConditionMembershipHealthy :: string where "ConditionMembershipHealthy = ''MembershipHealthy''"
definition ConditionSlotsCovered :: string where "ConditionSlotsCovered = ''SlotsCovered''"
definition ConditionSlotsBalanced :: string where "ConditionSlotsBalanced = ''SlotsBalanced''"
definition ConditionReplicasBalanced :: string where "ConditionReplicasBalanced = ''ReplicasBalanced''"
definition ConditionClusterCheckPassing :: string where "ConditionClusterCheckPassing = ''ClusterCheckPassing''"

lemmas phase_names =
  PhaseReady_def PhaseConfiguring_def PhaseError_def
  ConfigPhasePending_def ConfigPhaseInProgress_def ConfigPhaseSuperseded_def ConfigPhaseApplied_def

lemmas status_names =
  ClusterStatusInitializing_def ClusterStatusConfiguring_def ClusterStatusReady_def
  ClusterStatusScalingUp_def ClusterStatusScalingDown_def ClusterStatusScalingToZero_def
  ClusterStatusUpgrading_def ClusterStatusMaintenance_def ClusterPhaseRebalancing_def
  ClusterPhaseError_def

lemmas condition_names =
  ConditionHealthy_def ConditionMembershipHealthy_def ConditionSlotsCovered_def
  ConditionSlotsBalanced_def ConditionReplicasBalanced_def ConditionClusterCheckPassing_def

record RedkeyConfigSpec =
  cs_Sequence :: go_int
  cs_SkipIfSuperseded :: bool
  cs_Mode :: string
  cs_Primaries :: int32
  cs_ReplicasPerPrimary :: int32
  cs_Ephemeral :: bool
  cs_Storage :: string
  cs_StorageClassName :: string
  cs_Image :: string
  cs_Version :: string
  cs_RedisConfig :: string
  cs_Resources :: "ResourceRequirements option"
  cs_Auth :: RedisAuth
  cs_Labels :: "gomap option"
  cs_Annotations :: "gomap option"
  cs_DeletePVC :: "bool option"
  cs_PurgeKeysOnRebalance :: "bool option"
  cs_Override :: "RedkeyOverrideSpec option"
  cs_Pdb :: Pdb
  cs_RobinConfig :: "RobinConfig option"

definition configIsStandalone :: "RedkeyConfigSpec \<Rightarrow> bool" where
  "configIsStandalone s \<longleftrightarrow> cs_Mode s = ModeStandalone"

record RedkeyConfigStatus =
  cst_ConfigPhase :: string
  cst_Status :: string
  cst_Substatus :: RedkeySubstatus
  cst_Nodes :: nodemap
  cst_Conditions :: "Condition list"
  cst_LastUpdatedAt :: "int option"
  cst_ObservedGeneration :: int64

record RedkeyConfig =
  rc_Meta :: ObjectMeta
  rc_Spec :: RedkeyConfigSpec
  rc_Status :: RedkeyConfigStatus

definition zeroSubstatus :: RedkeySubstatus where
  "zeroSubstatus = \<lparr>sub_Status = [], sub_UpgradingPartition = 0\<rparr>"

definition zeroConfigStatus :: RedkeyConfigStatus where
  "zeroConfigStatus = \<lparr>cst_ConfigPhase = [], cst_Status = [], cst_Substatus = zeroSubstatus,
     cst_Nodes = None, cst_Conditions = [], cst_LastUpdatedAt = None, cst_ObservedGeneration = 0\<rparr>"

abbreviation configKey :: "RedkeyConfig \<Rightarrow> nsname" where
  "configKey c \<equiv> metaKey (rc_Meta c)"

abbreviation configPhase :: "RedkeyConfig \<Rightarrow> string" where
  "configPhase c \<equiv> cst_ConfigPhase (rc_Status c)"

abbreviation configSeq :: "RedkeyConfig \<Rightarrow> go_int" where
  "configSeq c \<equiv> cs_Sequence (rc_Spec c)"

end
