(* ===== verification/Kube.thy ===== *)
theory Kube
  imports Api_Types
begin

section \<open>What the operator calls: the API client and the libraries\<close>

text \<open>
  The reconciler is written against code that is not part of the repository: the
  controller-runtime client, \<^verbatim>\<open>controllerutil\<close>, \<^verbatim>\<open>apimachinery\<close>'s condition and equality
  helpers, \<^verbatim>\<open>client-go\<close>'s retry helper, the Prometheus client and the clock. They are the
  fields of the record \<open>RedkeyReconciler\<close>, functions over an unspecified world \<open>'w\<close>; every
  operation of the operator takes that record as an argument. The locales of this theory state
  the documented behaviour of these libraries that some of the properties rely on.
\<close>

subsection \<open>The client\<close>

text \<open>
  The calls on one kind of object. \<open>kPatch base x\<close> is \<^verbatim>\<open>r.Patch(ctx, x, client.MergeFrom(base))\<close>;
  \<^verbatim>\<open>r.Delete\<close> uses the object's namespace and name only.
\<close>

record ('w, 'a) KindClient =
  kGet :: "nsname \<Rightarrow> ('w, 'a) io"
  kCreate :: "'a \<Rightarrow> ('w, unit) io"
  kPatch :: "'a \<Rightarrow> 'a \<Rightarrow> ('w, unit) io"
  kDelete :: "nsname \<Rightarrow> ('w, unit) io"

text \<open>
  A Prometheus vector is named by its metric and its label names; a series of it by the label
  values, in the order of the label names.
\<close>

type_synonym MetricVec = "string \<times> string list"

record 'w Client =
  getRedkey :: "nsname \<Rightarrow> ('w, Redkey) io"
  updateRedkeyStatus :: "Redkey \<Rightarrow> ('w, Redkey) io" \<comment> \<open>\<^verbatim>\<open>r.Status().Update\<close>, with the object it answers\<close>
  listRedkeyConfigs :: "string \<Rightarrow> strmap \<Rightarrow> ('w, RedkeyConfig list) io" \<comment> \<open>namespace and labels to match\<close>
  redkeyConfigs :: "('w, RedkeyConfig) KindClient"
  serviceAccounts :: "('w, ServiceAccount) KindClient"
  roles :: "('w, Role) KindClient"
  roleBindings :: "('w, RoleBinding) KindClient"
  deployments :: "('w, Deployment) KindClient"

record 'w Libs = "'w Client" +
  setControllerReference :: "Redkey \<Rightarrow> ObjectMeta \<Rightarrow> go_error + ObjectMeta"
  findStatusCondition :: "Condition list \<Rightarrow> string \<Rightarrow> Condition option"
  setStatusCondition :: "int \<Rightarrow> Condition list \<Rightarrow> Condition \<Rightarrow> Condition list" \<comment> \<open>the first argument is the time\<close>
  deepEqualMap :: "gomap \<Rightarrow> gomap \<Rightarrow> bool"
  deepEqualRules :: "PolicyRule list \<Rightarrow> PolicyRule list \<Rightarrow> bool"
  deepEqualSubjects :: "Subject list \<Rightarrow> Subject list \<Rightarrow> bool"
  deepDerivative :: "PodSpec \<Rightarrow> PodSpec \<Rightarrow> bool"
  retryOnConflict :: "('w, Redkey) io \<Rightarrow> ('w, Redkey) io"
  timeNow :: "'w \<Rightarrow> int \<times> 'w"
  gaugeSet :: "MetricVec \<Rightarrow> string list \<Rightarrow> int \<Rightarrow> 'w \<Rightarrow> 'w"
  deletePartialMatch :: "MetricVec \<Rightarrow> strmap \<Rightarrow> 'w \<Rightarrow> 'w"
  counterInc :: "MetricVec \<Rightarrow> string list \<Rightarrow> 'w \<Rightarrow> 'w"
  histObserve :: "MetricVec \<Rightarrow> string list \<Rightarrow> int \<Rightarrow> 'w \<Rightarrow> 'w" \<comment> \<open>a duration in nanoseconds\<close>

text \<open>\<^verbatim>\<open>RedkeyReconciler\<close> embeds the client and carries the two settings of the operator.\<close>

record 'w RedkeyReconciler = "'w Libs" +
  ResyncInterval :: int
  MaxConcurrentReconciles :: go_int

subsection \<open>The operator's state\<close>

text \<open>
  The world, and the two package-level trackers of \<^verbatim>\<open>metrics.go\<close>, which the operator keeps
  in memory.
\<close>

record activeOperation =
  operation :: string
  startedAt :: int

record 'w rstate =
  world :: 'w
  opActive :: "(nsname, activeOperation) fmap"
  lastPhase :: "(nsname, string) fmap"

definition inWorld :: "('w, 'a) io \<Rightarrow> ('w rstate, 'a) io" where
  "inWorld m s = (case m (world s) of (r, w') \<Rightarrow> (r, s\<lparr>world := w'\<rparr>))"

lemma run_inWorld [run_simps]: "m (world s) = (r, w') \<Longrightarrow> inWorld m s = (r, s\<lparr>world := w'\<rparr>)"
  by (simp add: inWorld_def)

lemma wp_inWorld [wp_simps]:
  "wp (inWorld m) Q E =
     (\<lambda>s. wp m (\<lambda>x w'. Q x (s\<lparr>world := w'\<rparr>)) (\<lambda>e w'. E e (s\<lparr>world := w'\<rparr>)) (world s))"
  by (auto simp: wp_def inWorld_def fun_eq_iff split: prod.split sum.split)

subsection \<open>Documented behaviour of the condition helpers\<close>

text \<open>
  \<^verbatim>\<open>meta.SetStatusCondition\<close> sets the condition of the new condition's type to it, adding it
  when there is none, and moves the transition time only when the status changes;
  \<^verbatim>\<open>meta.FindStatusCondition\<close> finds the condition of a type.
\<close>

locale condition_lib =
  fixes find :: "Condition list \<Rightarrow> string \<Rightarrow> Condition option"
    and set :: "int \<Rightarrow> Condition list \<Rightarrow> Condition \<Rightarrow> Condition list"
  assumes find_set_same:
      "\<exists>x. find (set now cs c) (c_Type c) = Some x \<and> c_Type x = c_Type c \<and>
         c_Status x = c_Status c \<and> c_Reason x = c_Reason c \<and> c_Message x = c_Message c"
    and find_set_other: "t \<noteq> c_Type c \<Longrightarrow> find (set now cs c) t = find cs t"
    and transition_kept:
      "find cs (c_Type c) = Some old \<Longrightarrow> c_Status old = c_Status c \<Longrightarrow>
         find (set now cs c) (c_Type c) = Some x \<Longrightarrow>
         c_LastTransitionTime x = c_LastTransitionTime old"
begin

text \<open>What the code asks of a condition is its status, reason and message.\<close>

lemma status_set:
  "map_option c_Status (find (set now cs c) t) =
     (if t = c_Type c then Some (c_Status c) else map_option c_Status (find cs t))"
  using find_set_same [of now cs c] by (auto simp: find_set_other)

lemma reason_set:
  "map_option c_Reason (find (set now cs c) t) =
     (if t = c_Type c then Some (c_Reason c) else map_option c_Reason (find cs t))"
  using find_set_same [of now cs c] by (auto simp: find_set_other)

lemma message_set:
  "map_option c_Message (find (set now cs c) t) =
     (if t = c_Type c then Some (c_Message c) else map_option c_Message (find cs t))"
  using find_set_same [of now cs c] by (auto simp: find_set_other)

lemma find_foldl_other:
  "t \<notin> c_Type ` List.set xs \<Longrightarrow> find (foldl (set now) cs xs) t = find cs t"
  by (induction xs arbitrary: cs) (auto simp: find_set_other)

lemma status_foldl_in:
  assumes "x \<in> List.set xs" and "distinct (map c_Type xs)"
  shows "map_option c_Status (find (foldl (set now) cs xs) (c_Type x)) = Some (c_Status x)"
  using assms
proof (induction xs arbitrary: cs)
  case (Cons y ys)
  show ?case
  proof (cases "x = y")
    case True
    with Cons.prems(2) have "c_Type x \<notin> c_Type ` List.set ys" by simp
    with True show ?thesis by (simp add: find_foldl_other status_set del: map_option_eq_Some)
  next
    case False
    with Cons show ?thesis by simp
  qed
qed simp

end

subsection \<open>Documented behaviour of the API server\<close>

text \<open>\<^verbatim>\<open>errors.IsNotFound\<close> and \<^verbatim>\<open>errors.IsAlreadyExists\<close> look through wrapped errors.\<close>

fun IsNotFound :: "go_error \<Rightarrow> bool" where
  "IsNotFound NotFound = True"
| "IsNotFound (Wrapped _ e) = IsNotFound e"
| "IsNotFound _ = False"

fun IsAlreadyExists :: "go_error \<Rightarrow> bool" where
  "IsAlreadyExists AlreadyExists = True"
| "IsAlreadyExists (Wrapped _ e) = IsAlreadyExists e"
| "IsAlreadyExists _ = False"

text \<open>
  The objects the operator reads and writes, as the server stores them. The RedkeyConfigs are
  a list because the operator lists them; the server promises no order.
\<close>

record store =
  s_Redkeys :: "(nsname, Redkey) fmap"
  s_Configs :: "RedkeyConfig list"
  s_ServiceAccounts :: "(nsname, ServiceAccount) fmap"
  s_Roles :: "(nsname, Role) fmap"
  s_RoleBindings :: "(nsname, RoleBinding) fmap"
  s_Deployments :: "(nsname, Deployment) fmap"

text \<open>
  The calls on one kind of object, over the part \<open>proj\<close> of the stored state \<open>api w\<close>. A read
  changes nothing and answers with the stored object; a create needs a free name; a patch against
  the stored object replaces it; a rejected request changes nothing. \<open>stored x y\<close> says that the
  server keeps \<open>y\<close> when \<open>x\<close> is sent: it sets server-side metadata and defaults. \<open>outage\<close> tells
  whether requests may also fail for reasons outside the stored state (the network, quotas,
  authorisation); when it is false, only the stored state can make one fail.
\<close>

locale kind_api =
  fixes K :: "('w, 'a) KindClient"
    and api :: "'w \<Rightarrow> 's"
    and proj :: "'s \<Rightarrow> (nsname, 'a) fmap"
    and upd :: "((nsname, 'a) fmap \<Rightarrow> (nsname, 'a) fmap) \<Rightarrow> 's \<Rightarrow> 's"
    and key :: "'a \<Rightarrow> nsname"
    and stored :: "'a \<Rightarrow> 'a \<Rightarrow> bool"
    and outage :: bool
  assumes get_ok: "kGet K k w = (Inr x, w') \<Longrightarrow> api w' = api w \<and> fmlookup (proj (api w)) k = Some x"
    and get_err: "kGet K k w = (Inl e, w') \<Longrightarrow>
      api w' = api w \<and> (if IsNotFound e then fmlookup (proj (api w)) k = None else outage)"
    and create_ok: "kCreate K x w = (Inr u, w') \<Longrightarrow>
      fmlookup (proj (api w)) (key x) = None \<and>
      (\<exists>y. stored x y \<and> api w' = upd (fmupd (key x) y) (api w))"
    and create_err: "kCreate K x w = (Inl e, w') \<Longrightarrow>
      api w' = api w \<and> (outage \<or> fmlookup (proj (api w)) (key x) \<noteq> None)"
    and patch_ok: "kPatch K b x w = (Inr u, w') \<Longrightarrow> fmlookup (proj (api w)) (key x) = Some b \<Longrightarrow>
      \<exists>y. stored x y \<and> api w' = upd (fmupd (key x) y) (api w)"
    and patch_err: "kPatch K b x w = (Inl e, w') \<Longrightarrow>
      api w' = api w \<and> (outage \<or> fmlookup (proj (api w)) (key x) \<noteq> Some b)"
    and delete_ok: "kDelete K k w = (Inr u, w') \<Longrightarrow> api w' = upd (fmdrop k) (api w)"
    and delete_err: "kDelete K k w = (Inl e, w') \<Longrightarrow>
      api w' = api w \<and> (if IsNotFound e then fmlookup (proj (api w)) k = None else outage)"
    and stored_key: "stored x y \<Longrightarrow> key y = key x"
begin

lemma wp_get:
  assumes "\<And>x w'. api w' = api w \<Longrightarrow> fmlookup (proj (api w)) k = Some x \<Longrightarrow> Q x w'"
    and "\<And>e w'. api w' = api w \<Longrightarrow> IsNotFound e \<Longrightarrow> fmlookup (proj (api w)) k = None \<Longrightarrow> E e w'"
    and "\<And>e w'. outage \<Longrightarrow> api w' = api w \<Longrightarrow> \<not> IsNotFound e \<Longrightarrow> E e w'"
  shows "wp (kGet K k) Q E w"
proof (rule wpI)
  fix v w'
  assume run: "kGet K k w = (Inr v, w')"
  from get_ok [OF run] show "Q v w'" using assms(1) by blast
next
  fix e w'
  assume run: "kGet K k w = (Inl e, w')"
  from get_err [OF run] show "E e w'" using assms(2,3) by (cases "IsNotFound e") simp_all
qed

lemma wp_create:
  assumes "\<And>y w'. fmlookup (proj (api w)) (key x) = None \<Longrightarrow> stored x y \<Longrightarrow> key y = key x \<Longrightarrow>
      api w' = upd (fmupd (key x) y) (api w) \<Longrightarrow> Q () w'"
    and "\<And>e w'. api w' = api w \<Longrightarrow> outage \<or> fmlookup (proj (api w)) (key x) \<noteq> None \<Longrightarrow> E e w'"
  shows "wp (kCreate K x) Q E w"
proof (rule wpI)
  fix v w'
  assume run: "kCreate K x w = (Inr v, w')"
  from create_ok [OF run] show "Q v w'" using assms(1) stored_key by auto
next
  fix e w'
  assume run: "kCreate K x w = (Inl e, w')"
  from create_err [OF run] show "E e w'" using assms(2) by blast
qed

lemma wp_patch:
  assumes "fmlookup (proj (api w)) (key x) = Some b"
    and "\<And>y w'. stored x y \<Longrightarrow> key y = key x \<Longrightarrow> api w' = upd (fmupd (key x) y) (api w) \<Longrightarrow> Q () w'"
    and "\<And>e w'. outage \<Longrightarrow> api w' = api w \<Longrightarrow> E e w'"
  shows "wp (kPatch K b x) Q E w"
proof (rule wpI)
  fix v w'
  assume run: "kPatch K b x w = (Inr v, w')"
  from patch_ok [OF run assms(1)] show "Q v w'" using assms(2) stored_key by auto
next
  fix e w'
  assume run: "kPatch K b x w = (Inl e, w')"
  from patch_err [OF run] show "E e w'" using assms(1,3) by blast
qed

lemma wp_delete:
  assumes "\<And>w'. api w' = upd (fmdrop k) (api w) \<Longrightarrow> Q () w'"
    and "\<And>e w'. api w' = api w \<Longrightarrow> IsNotFound e \<Longrightarrow> fmlookup (proj (api w)) k = None \<Longrightarrow> E e w'"
    and "\<And>e w'. outage \<Longrightarrow> api w' = api w \<Longrightarrow> \<not> IsNotFound e \<Longrightarrow> E e w'"
  shows "wp (kDelete K k) Q E w"
proof (rule wpI)
  fix v w'
  assume run: "kDelete K k w = (Inr v, w')"
  from delete_ok [OF run] show "Q v w'" using assms(1) by simp
next
  fix e w'
  assume run: "kDelete K k w = (Inl e, w')"
  from delete_err [OF run] show "E e w'" using assms(2,3) by (cases "IsNotFound e") simp_all
qed

end

subsection \<open>What the server keeps of an object that is sent\<close>

definition sameMeta :: "ObjectMeta \<Rightarrow> ObjectMeta \<Rightarrow> bool" where
  "sameMeta x y \<longleftrightarrow> Name y = Name x \<and> Namespace y = Namespace x \<and> Labels y = Labels x \<and>
     Annotations y = Annotations x \<and> OwnerReferences y = OwnerReferences x"

lemma sameMeta_key: "sameMeta x y \<Longrightarrow> metaKey y = metaKey x"
  by (simp add: sameMeta_def metaKey_def)

definition storedServiceAccount :: "ServiceAccount \<Rightarrow> ServiceAccount \<Rightarrow> bool" where
  "storedServiceAccount x y \<longleftrightarrow> sameMeta (sa_Meta x) (sa_Meta y)"

definition storedRole :: "Role \<Rightarrow> Role \<Rightarrow> bool" where
  "storedRole x y \<longleftrightarrow> sameMeta (role_Meta x) (role_Meta y) \<and> Rules y = Rules x"

definition storedRoleBinding :: "RoleBinding \<Rightarrow> RoleBinding \<Rightarrow> bool" where
  "storedRoleBinding x y \<longleftrightarrow> sameMeta (rb_Meta x) (rb_Meta y) \<and> Subjects y = Subjects x \<and>
     RoleRefOf y = RoleRefOf x"

text \<open>
  A Deployment may gain defaults in its pod spec, which \<^verbatim>\<open>DeepDerivative\<close> is documented to
  ignore, and the revision annotation of the Deployment controller.
\<close>

definition deploymentRevisionAnnotation :: string where
  "deploymentRevisionAnnotation = ''deployment.kubernetes.io/revision''"

definition storedDeployment :: "(PodSpec \<Rightarrow> PodSpec \<Rightarrow> bool) \<Rightarrow> Deployment \<Rightarrow> Deployment \<Rightarrow> bool" where
  "storedDeployment derivative x y \<longleftrightarrow>
     metaKey (d_Meta y) = metaKey (d_Meta x) \<and> Labels (d_Meta y) = Labels (d_Meta x) \<and>
     OwnerReferences (d_Meta y) = OwnerReferences (d_Meta x) \<and>
     fmdrop deploymentRevisionAnnotation (contents (Annotations (d_Meta y))) =
       fmdrop deploymentRevisionAnnotation (contents (Annotations (d_Meta x))) \<and>
     d_Replicas y = d_Replicas x \<and> d_Selector y = d_Selector x \<and>
     tpl_Labels (d_Template y) = tpl_Labels (d_Template x) \<and>
     tpl_Annotations (d_Template y) = tpl_Annotations (d_Template x) \<and>
     derivative (tpl_Spec (d_Template x)) (tpl_Spec (d_Template y))"

text \<open>The status of a RedkeyConfig is a subresource: a create does not set it.\<close>

definition storedConfig :: "RedkeyConfig \<Rightarrow> RedkeyConfig \<Rightarrow> bool" where
  "storedConfig x y \<longleftrightarrow> sameMeta (rc_Meta x) (rc_Meta y) \<and> rc_Spec y = rc_Spec x \<and>
     rc_Status y = zeroConfigStatus"

definition configMatches :: "string \<Rightarrow> strmap \<Rightarrow> RedkeyConfig \<Rightarrow> bool" where
  "configMatches ns m c \<longleftrightarrow> Namespace (rc_Meta c) = ns \<and>
     fmpred (\<lambda>k v. mapGet (Labels (rc_Meta c)) k = Some v) m"

text \<open>
  A status update writes the status only, and is refused as a conflict when the object was
  changed since it was read (the resource version differs).
\<close>

definition withStatus :: "Redkey \<Rightarrow> RedkeyStatus \<Rightarrow> Redkey \<Rightarrow> bool" where
  "withStatus old status new \<longleftrightarrow> rk_Status new = status \<and> rk_Spec new = rk_Spec old \<and>
     metaKey (rk_Meta new) = metaKey (rk_Meta old) \<and>
     Generation (rk_Meta new) = Generation (rk_Meta old)"

locale kube_api =
  sa: kind_api "serviceAccounts r" api s_ServiceAccounts s_ServiceAccounts_update
    "\<lambda>x. metaKey (sa_Meta x)" storedServiceAccount outage +
  role: kind_api "roles r" api s_Roles s_Roles_update "\<lambda>x. metaKey (role_Meta x)" storedRole outage +
  rb: kind_api "roleBindings r" api s_RoleBindings s_RoleBindings_update
    "\<lambda>x. metaKey (rb_Meta x)" storedRoleBinding outage +
  dep: kind_api "deployments r" api s_Deployments s_Deployments_update
    "\<lambda>x. metaKey (d_Meta x)" "storedDeployment (deepDerivative r)" outage
  for r :: "('w, 'z) RedkeyReconciler_scheme" and api :: "'w \<Rightarrow> store" and outage :: bool +
  assumes redkey_get_ok: "getRedkey r k w = (Inr x, w') \<Longrightarrow>
      api w' = api w \<and> fmlookup (s_Redkeys (api w)) k = Some x"
    and redkey_get_err: "getRedkey r k w = (Inl e, w') \<Longrightarrow>
      api w' = api w \<and> (if IsNotFound e then fmlookup (s_Redkeys (api w)) k = None else outage)"
    and status_ok: "updateRedkeyStatus r x w = (Inr y, w') \<Longrightarrow>
      \<exists>old. fmlookup (s_Redkeys (api w)) (metaKey (rk_Meta x)) = Some old \<and>
        ResourceVersion (rk_Meta old) = ResourceVersion (rk_Meta x) \<and>
        withStatus old (rk_Status x) y \<and>
        api w' = s_Redkeys_update (fmupd (metaKey (rk_Meta x)) y) (api w)"
    and status_err: "updateRedkeyStatus r x w = (Inl e, w') \<Longrightarrow>
      api w' = api w \<and>
      (outage \<or> (\<forall>old. fmlookup (s_Redkeys (api w)) (metaKey (rk_Meta x)) = Some old \<longrightarrow>
         ResourceVersion (rk_Meta old) \<noteq> ResourceVersion (rk_Meta x)))"
    and list_ok: "listRedkeyConfigs r ns m w = (Inr cs, w') \<Longrightarrow>
      api w' = api w \<and> mset cs = mset (filter (configMatches ns m) (s_Configs (api w)))"
    and list_err: "listRedkeyConfigs r ns m w = (Inl e, w') \<Longrightarrow> api w' = api w \<and> outage"
    and config_create_ok: "kCreate (redkeyConfigs r) c w = (Inr u, w') \<Longrightarrow>
      configKey c \<notin> configKey ` set (s_Configs (api w)) \<and>
      (\<exists>y. storedConfig c y \<and> api w' = s_Configs_update (\<lambda>cs. cs @ [y]) (api w))"
    and config_create_err: "kCreate (redkeyConfigs r) c w = (Inl e, w') \<Longrightarrow>
      api w' = api w \<and>
      (if IsAlreadyExists e then configKey c \<in> configKey ` set (s_Configs (api w)) else outage)"
    and config_delete_ok: "kDelete (redkeyConfigs r) k w = (Inr u, w') \<Longrightarrow>
      api w' = s_Configs_update (filter (\<lambda>c. configKey c \<noteq> k)) (api w)"
    and config_delete_err: "kDelete (redkeyConfigs r) k w = (Inl e, w') \<Longrightarrow>
      api w' = api w \<and> (if IsNotFound e then k \<notin> configKey ` set (s_Configs (api w)) else outage)"
    and metrics_api [simp]: "api (counterInc r v ls w) = api w" "api (gaugeSet r v ls g w) = api w"
      "api (deletePartialMatch r v m w) = api w" "api (histObserve r v ls d w) = api w"
      "api (snd (timeNow r w)) = api w"
begin

lemma wp_redkey_get:
  assumes "\<And>x w'. api w' = api w \<Longrightarrow> fmlookup (s_Redkeys (api w)) k = Some x \<Longrightarrow> Q x w'"
    and "\<And>e w'. api w' = api w \<Longrightarrow> IsNotFound e \<Longrightarrow> fmlookup (s_Redkeys (api w)) k = None \<Longrightarrow> E e w'"
    and "\<And>e w'. outage \<Longrightarrow> api w' = api w \<Longrightarrow> \<not> IsNotFound e \<Longrightarrow> E e w'"
  shows "wp (getRedkey r k) Q E w"
proof (rule wpI)
  fix v w'
  assume run: "getRedkey r k w = (Inr v, w')"
  from redkey_get_ok [OF run] show "Q v w'" using assms(1) by blast
next
  fix e w'
  assume run: "getRedkey r k w = (Inl e, w')"
  from redkey_get_err [OF run] show "E e w'" using assms(2,3) by (cases "IsNotFound e") simp_all
qed

lemma wp_status:
  assumes "\<And>old y w'. fmlookup (s_Redkeys (api w)) (metaKey (rk_Meta x)) = Some old \<Longrightarrow>
      ResourceVersion (rk_Meta old) = ResourceVersion (rk_Meta x) \<Longrightarrow>
      withStatus old (rk_Status x) y \<Longrightarrow>
      api w' = s_Redkeys_update (fmupd (metaKey (rk_Meta x)) y) (api w) \<Longrightarrow> Q y w'"
    and "\<And>e w'. api w' = api w \<Longrightarrow>
      outage \<or> (\<forall>old. fmlookup (s_Redkeys (api w)) (metaKey (rk_Meta x)) = Some old \<longrightarrow>
        ResourceVersion (rk_Meta old) \<noteq> ResourceVersion (rk_Meta x)) \<Longrightarrow> E e w'"
  shows "wp (updateRedkeyStatus r x) Q E w"
proof (rule wpI)
  fix v w'
  assume run: "updateRedkeyStatus r x w = (Inr v, w')"
  from status_ok [OF run] show "Q v w'" using assms(1) by blast
next
  fix e w'
  assume run: "updateRedkeyStatus r x w = (Inl e, w')"
  from status_err [OF run] show "E e w'" using assms(2) by blast
qed

lemma wp_list:
  assumes "\<And>cs w'. api w' = api w \<Longrightarrow>
      mset cs = mset (filter (configMatches ns m) (s_Configs (api w))) \<Longrightarrow> Q cs w'"
    and "\<And>e w'. outage \<Longrightarrow> api w' = api w \<Longrightarrow> E e w'"
  shows "wp (listRedkeyConfigs r ns m) Q E w"
proof (rule wpI)
  fix v w'
  assume run: "listRedkeyConfigs r ns m w = (Inr v, w')"
  from list_ok [OF run] show "Q v w'" using assms(1) by blast
next
  fix e w'
  assume run: "listRedkeyConfigs r ns m w = (Inl e, w')"
  from list_err [OF run] show "E e w'" using assms(2) by blast
qed

lemma wp_config_create:
  assumes "\<And>y w'. configKey c \<notin> configKey ` set (s_Configs (api w)) \<Longrightarrow> storedConfig c y \<Longrightarrow>
      api w' = s_Configs_update (\<lambda>cs. cs @ [y]) (api w) \<Longrightarrow> Q () w'"
    and "\<And>e w'. api w' = api w \<Longrightarrow> IsAlreadyExists e \<Longrightarrow>
      configKey c \<in> configKey ` set (s_Configs (api w)) \<Longrightarrow> E e w'"
    and "\<And>e w'. outage \<Longrightarrow> api w' = api w \<Longrightarrow> \<not> IsAlreadyExists e \<Longrightarrow> E e w'"
  shows "wp (kCreate (redkeyConfigs r) c) Q E w"
proof (rule wpI)
  fix v w'
  assume run: "kCreate (redkeyConfigs r) c w = (Inr v, w')"
  from config_create_ok [OF run] show "Q v w'" using assms(1) by auto
next
  fix e w'
  assume run: "kCreate (redkeyConfigs r) c w = (Inl e, w')"
  from config_create_err [OF run] show "E e w'" using assms(2,3) by (cases "IsAlreadyExists e") simp_all
qed

lemma wp_config_delete:
  assumes "\<And>w'. api w' = s_Configs_update (filter (\<lambda>c. configKey c \<noteq> k)) (api w) \<Longrightarrow> Q () w'"
    and "\<And>e w'. api w' = api w \<Longrightarrow> IsNotFound e \<Longrightarrow> k \<notin> configKey ` set (s_Configs (api w)) \<Longrightarrow> E e w'"
    and "\<And>e w'. outage \<Longrightarrow> api w' = api w \<Longrightarrow> \<not> IsNotFound e \<Longrightarrow> E e w'"
  shows "wp (kDelete (redkeyConfigs r) k) Q E w"
proof (rule wpI)
  fix v w'
  assume run: "kDelete (redkeyConfigs r) k w = (Inr v, w')"
  from config_delete_ok [OF run] show "Q v w'" using assms(1) by simp
next
  fix e w'
  assume run: "kDelete (redkeyConfigs r) k w = (Inl e, w')"
  from config_delete_err [OF run] show "E e w'" using assms(2,3) by (cases "IsNotFound e") simp_all
qed

end

text \<open>Every stored object is stored under its own namespace and name.\<close>

definition keyed :: "('a \<Rightarrow> nsname) \<Rightarrow> (nsname, 'a) fmap \<Rightarrow> bool" where
  "keyed key m \<longleftrightarrow> fmpred (\<lambda>k x. key x = k) m"

definition wfStore :: "store \<Rightarrow> bool" where
  "wfStore st \<longleftrightarrow> keyed (\<lambda>x. metaKey (sa_Meta x)) (s_ServiceAccounts st) \<and>
     keyed (\<lambda>x. metaKey (role_Meta x)) (s_Roles st) \<and>
     keyed (\<lambda>x. metaKey (rb_Meta x)) (s_RoleBindings st) \<and>
     keyed (\<lambda>x. metaKey (d_Meta x)) (s_Deployments st) \<and>
     keyed (\<lambda>x. metaKey (rk_Meta x)) (s_Redkeys st)"

lemma keyedD: "keyed key m \<Longrightarrow> fmlookup m k = Some x \<Longrightarrow> key x = k"
  by (simp add: keyed_def fmpred_iff del: split_paired_All)

lemma keyed_fmupd [simp]: "keyed key m \<Longrightarrow> key x = k \<Longrightarrow> keyed key (fmupd k x m)"
  by (auto simp: keyed_def fmpred_iff)

lemma keyed_fmdrop [simp]: "keyed key m \<Longrightarrow> keyed key (fmdrop k m)"
  by (auto simp: keyed_def fmpred_iff)

lemma keyed_empty [simp]: "keyed key fmempty"
  by (simp add: keyed_def)

subsection \<open>Documented behaviour of the other helpers\<close>

text \<open>
  \<^verbatim>\<open>equality.Semantic.DeepEqual\<close> treats nil and empty as equal; \<^verbatim>\<open>DeepDerivative\<close> ignores
  what the first argument leaves unset, so a value is always a derivative of itself, and so is what
  remains of it when fields are unset.
\<close>

definition unsetOptional :: "PodSpec \<Rightarrow> PodSpec" where
  "unsetOptional p = p\<lparr>ps_NodeSelector := None, ps_Tolerations := [], ps_Affinity := None,
     ps_SecurityContext := None, ps_ImagePullSecrets := [], ps_PriorityClassName := [],
     ps_TopologySpreadConstraints := [], ps_Volumes := []\<rparr>"

locale semantic_equality =
  fixes r :: "('w, 'z) RedkeyReconciler_scheme"
  assumes deep_map: "deepEqualMap r a b \<longleftrightarrow> contents a = contents b"
    and deep_rules: "deepEqualRules r x y \<longleftrightarrow> x = y"
    and deep_subjects: "deepEqualSubjects r u v \<longleftrightarrow> u = v"
    and derivative_refl: "deepDerivative r p p"
    and derivative_unset: "deepDerivative r (unsetOptional p) p"

text \<open>
  \<^verbatim>\<open>controllerutil.SetControllerReference\<close> changes the owner references only, and the owner is
  among them afterwards, marked as the controller. It fails when the object has another controller
  (and for an owner of another namespace or an unregistered kind, which does not arise here).
\<close>

definition ownedBy :: "Redkey \<Rightarrow> ObjectMeta \<Rightarrow> bool" where
  "ownedBy owner m \<longleftrightarrow>
     \<lparr>or_Kind = ''Redkey'', or_Name = Name (rk_Meta owner), or_Controller = True\<rparr> \<in> set (OwnerReferences m)"

locale owner_lib =
  fixes setRef :: "Redkey \<Rightarrow> ObjectMeta \<Rightarrow> go_error + ObjectMeta"
  assumes set_ref: "setRef owner m = Inr m' \<Longrightarrow>
    m' = m\<lparr>OwnerReferences := OwnerReferences m'\<rparr> \<and> ownedBy owner m'"
    and set_ref_err: "setRef owner m = Inl e \<Longrightarrow> OwnerReferences m \<noteq> []"
begin

lemma set_ref_fields:
  assumes "setRef owner m = Inr m'"
  shows "Name m' = Name m" "Namespace m' = Namespace m" "Labels m' = Labels m"
    "Annotations m' = Annotations m" "Generation m' = Generation m" "metaKey m' = metaKey m"
    "ownedBy owner m'"
proof -
  obtain os where "m' = m\<lparr>OwnerReferences := os\<rparr>" using set_ref [OF assms] by metis
  then show "Name m' = Name m" "Namespace m' = Namespace m" "Labels m' = Labels m"
    "Annotations m' = Annotations m" "Generation m' = Generation m" "metaKey m' = metaKey m"
    by simp_all
  show "ownedBy owner m'" using set_ref [OF assms] by blast
qed

end

text \<open>What the handlers of Robin's objects and of the RedkeyConfigs rely on, together.\<close>

locale operator_libs =
  kube_api r api outage + semantic_equality r + owner_lib "setControllerReference r"
  for r :: "('w, 'z) RedkeyReconciler_scheme" and api :: "'w \<Rightarrow> store" and outage :: bool
begin

lemma set_ref_fresh:
  assumes "OwnerReferences m = []"
  obtains m' where "setControllerReference r cluster m = Inr m'"
  using assms set_ref_err by (cases "setControllerReference r cluster m") blast+

end

text \<open>
  \<^verbatim>\<open>retry.RetryOnConflict\<close> runs the function again while it fails with a conflict, a bounded
  number of times, and answers with the last attempt. \<open>retryRuns n\<close> allows \<open>n\<close> further attempts.
\<close>

fun retryRuns :: "nat \<Rightarrow> ('s, 'a) io \<Rightarrow> ('s, 'a) io" where
  "retryRuns 0 m s = m s"
| "retryRuns (Suc n) m s =
     (case m s of (Inl Conflict, s') \<Rightarrow> retryRuns n m s' | other \<Rightarrow> other)"

locale retry_lib =
  fixes retry :: "('w, 'a) io \<Rightarrow> ('w, 'a) io"
  assumes retry_runs: "\<exists>n. \<forall>w. retry m w = retryRuns n m w"
begin

text \<open>What every attempt guarantees, the retried computation guarantees.\<close>

lemma wp_retry:
  assumes step: "\<And>w. I w \<Longrightarrow> wp m Q (\<lambda>e w'. (e = Conflict \<longrightarrow> I w') \<and> E e w') w" and "I w"
  shows "wp (retry m) Q E w"
proof -
  have "wp (retryRuns n m) Q E w" if "I w" for n w
    using that
  proof (induction n arbitrary: w)
    case 0
    have "wp m Q E w"
      using step [OF 0] by (rule wp_mono) auto
    then show ?case by (simp add: wp_def)
  next
    case (Suc n)
    obtain res w' where run: "m w = (res, w')" by (cases "m w")
    show ?case
    proof (cases "res = Inl Conflict")
      case True
      with run step [OF Suc.prems] have "I w'" by (simp add: wp_def)
      then have "wp (retryRuns n m) Q E w'" by (rule Suc.IH)
      moreover have "retryRuns (Suc n) m w = retryRuns n m w'" using run True by simp
      ultimately show ?thesis by (simp only: wp_def)
    next
      case False
      with run have "retryRuns (Suc n) m w = m w"
        by (auto split: sum.split go_error.split)
      moreover have "wp m Q E w"
        using step [OF Suc.prems] by (rule wp_mono) auto
      ultimately show ?thesis by (simp only: wp_def)
    qed
  qed
  moreover obtain n where "retry m w = retryRuns n m w"
    using retry_runs [of m] by blast
  ultimately show ?thesis
    using \<open>I w\<close> by (simp only: wp_def)
qed

end

text \<open>
  The Prometheus client: setting a gauge or incrementing a counter changes that series only;
  \<^verbatim>\<open>DeletePartialMatch\<close> removes the series of the vector whose labels include the given pairs.
\<close>

definition labelsMatch :: "MetricVec \<Rightarrow> strmap \<Rightarrow> string list \<Rightarrow> bool" where
  "labelsMatch vec m ls \<longleftrightarrow> fmpred (\<lambda>k v. map_of (zip (snd vec) ls) k = Some v) m"

locale prom_lib =
  fixes r :: "('w, 'z) RedkeyReconciler_scheme"
    and gauge :: "'w \<Rightarrow> MetricVec \<Rightarrow> string list \<Rightarrow> int option"
    and counter :: "'w \<Rightarrow> MetricVec \<Rightarrow> string list \<Rightarrow> nat"
    and samples :: "'w \<Rightarrow> MetricVec \<Rightarrow> string list \<Rightarrow> int list"
  assumes gauge_set [simp]: "gauge (gaugeSet r v ls x w) v' ls' =
      (if v' = v \<and> ls' = ls then Some x else gauge w v' ls')"
    and gauge_delete [simp]: "gauge (deletePartialMatch r v m w) v' ls' =
      (if v' = v \<and> labelsMatch v m ls' then None else gauge w v' ls')"
    and gauge_others [simp]: "gauge (counterInc r v ls w) = gauge w"
      "gauge (histObserve r v ls d w) = gauge w" "gauge (snd (timeNow r w)) = gauge w"
    and counter_inc [simp]: "counter (counterInc r v ls w) v' ls' =
      counter w v' ls' + (if v' = v \<and> ls' = ls then 1 else 0)"
    and counter_others [simp]: "counter (gaugeSet r v ls x w) = counter w"
      "counter (deletePartialMatch r v m w) = counter w"
      "counter (histObserve r v ls d w) = counter w" "counter (snd (timeNow r w)) = counter w"
    and samples_observe [simp]: "samples (histObserve r v ls d w) v' ls' =
      (if v' = v \<and> ls' = ls then samples w v' ls' @ [d] else samples w v' ls')"
    and samples_others [simp]: "samples (gaugeSet r v ls x w) = samples w"
      "samples (deletePartialMatch r v m w) = samples w"
      "samples (counterInc r v ls w) = samples w" "samples (snd (timeNow r w)) = samples w"

text \<open>The API client does not touch the operator's own metrics.\<close>

definition leaves :: "('w \<Rightarrow> 'm) \<Rightarrow> ('w, 'a) io \<Rightarrow> bool" where
  "leaves obs m \<longleftrightarrow> (\<forall>w. obs (snd (m w)) = obs w)"

definition kindLeaves :: "('w \<Rightarrow> 'm) \<Rightarrow> ('w, 'a) KindClient \<Rightarrow> bool" where
  "kindLeaves obs K \<longleftrightarrow> (\<forall>k. leaves obs (kGet K k)) \<and> (\<forall>x. leaves obs (kCreate K x)) \<and>
     (\<forall>b x. leaves obs (kPatch K b x)) \<and> (\<forall>k. leaves obs (kDelete K k))"

lemma wp_leaves:
  assumes "leaves obs m" and "\<And>x w'. obs w' = obs w \<Longrightarrow> Q x w'" and "\<And>e w'. obs w' = obs w \<Longrightarrow> E e w'"
  shows "wp m Q E w"
proof (cases "m w")
  case (Pair res w')
  with assms(1) have "obs w' = obs w" by (metis leaves_def snd_conv)
  with Pair assms(2,3) show ?thesis by (simp add: wp_def split: sum.split)
qed

lemma leaves_iff: "leaves obs m \<longleftrightarrow> (\<forall>c. keeps (\<lambda>w. obs w = c) m)"
  by (simp add: leaves_def keeps_def)

locale prom_client = prom_lib r gauge counter samples
  for r :: "('w, 'z) RedkeyReconciler_scheme"
    and gauge :: "'w \<Rightarrow> MetricVec \<Rightarrow> string list \<Rightarrow> int option"
    and counter :: "'w \<Rightarrow> MetricVec \<Rightarrow> string list \<Rightarrow> nat"
    and samples :: "'w \<Rightarrow> MetricVec \<Rightarrow> string list \<Rightarrow> int list" +
  assumes redkey_leaves: "leaves (\<lambda>w. (gauge w, counter w, samples w)) (getRedkey r k)"
      "leaves (\<lambda>w. (gauge w, counter w, samples w)) (updateRedkeyStatus r x)"
      "leaves (\<lambda>w. (gauge w, counter w, samples w)) (listRedkeyConfigs r ns m)"
    and kind_leaves: "kindLeaves (\<lambda>w. (gauge w, counter w, samples w)) (redkeyConfigs r)"
      "kindLeaves (\<lambda>w. (gauge w, counter w, samples w)) (serviceAccounts r)"
      "kindLeaves (\<lambda>w. (gauge w, counter w, samples w)) (roles r)"
      "kindLeaves (\<lambda>w. (gauge w, counter w, samples w)) (roleBindings r)"
      "kindLeaves (\<lambda>w. (gauge w, counter w, samples w)) (deployments r)"

end
