(* ===== verification/Mem_World.thy ===== *)
theory Mem_World
  imports Kube
begin

section \<open>A world in which the documented laws hold\<close>

text \<open>
  An in-memory API server, metric registry and clock, built from the documented behaviour of the
  libraries (the operator's own unit tests run against such a server). It interprets every locale
  of \<open>Kube\<close>, so the laws the properties assume are consistent, and the witnesses of the
  properties run the operator's definitions on it.
\<close>

record mem =
  m_Store :: store
  m_Gauges :: "(MetricVec \<times> string list, int) fmap"
  m_Counters :: "(MetricVec \<times> string list, nat) fmap"
  m_Samples :: "(MetricVec \<times> string list, int list) fmap"
  m_Clock :: int
  m_Version :: nat

subsection \<open>The API server\<close>

definition putStore :: "(store \<Rightarrow> store) \<Rightarrow> mem \<Rightarrow> mem" where
  "putStore f w = w\<lparr>m_Store := f (m_Store w), m_Version := Suc (m_Version w)\<rparr>"

definition memKind ::
  "(store \<Rightarrow> (nsname, 'a) fmap) \<Rightarrow> (((nsname, 'a) fmap \<Rightarrow> (nsname, 'a) fmap) \<Rightarrow> store \<Rightarrow> store) \<Rightarrow>
   ('a \<Rightarrow> nsname) \<Rightarrow> (nat \<Rightarrow> 'a \<Rightarrow> 'a) \<Rightarrow> (mem, 'a) KindClient" where
  "memKind proj upd key stamp =
     \<lparr>kGet = (\<lambda>k w. (case fmlookup (proj (m_Store w)) k of None \<Rightarrow> Inl NotFound | Some x \<Rightarrow> Inr x, w)),
      kCreate = (\<lambda>x w. if fmlookup (proj (m_Store w)) (key x) = None
        then (Inr (), putStore (upd (fmupd (key x) (stamp (m_Version w) x))) w)
        else (Inl AlreadyExists, w)),
      kPatch = (\<lambda>b x w. if fmlookup (proj (m_Store w)) (key x) = None
        then (Inl NotFound, w)
        else (Inr (), putStore (upd (fmupd (key x) (stamp (m_Version w) x))) w)),
      kDelete = (\<lambda>k w. if fmlookup (proj (m_Store w)) k = None
        then (Inl NotFound, w) else (Inr (), putStore (upd (fmdrop k)) w))\<rparr>"

definition stampMeta :: "nat \<Rightarrow> ObjectMeta \<Rightarrow> ObjectMeta" where
  "stampMeta v m = m\<lparr>ResourceVersion := Suc v\<rparr>"

lemma sameMeta_stamp [simp]: "sameMeta m (stampMeta v m)"
  by (simp add: sameMeta_def stampMeta_def)

lemma memKind_laws:
  assumes "\<And>v x. stored x (stamp v x)" and "\<And>x y. stored x y \<Longrightarrow> key y = key x"
  shows "kind_api (memKind proj upd key stamp) m_Store proj upd key stored False"
  by unfold_locales
    (auto simp: memKind_def putStore_def assms split: if_splits option.splits intro: assms)

definition freshConfig :: "mem \<Rightarrow> RedkeyConfig \<Rightarrow> RedkeyConfig" where
  "freshConfig w c =
     c\<lparr>rc_Meta := stampMeta (m_Version w) (rc_Meta c)\<lparr>CreationTimestamp := m_Clock w\<rparr>,
       rc_Status := zeroConfigStatus\<rparr>"

lemma storedConfig_fresh: "storedConfig c (freshConfig w c)"
  by (simp add: storedConfig_def freshConfig_def sameMeta_def stampMeta_def)

definition memConfigs :: "(mem, RedkeyConfig) KindClient" where
  "memConfigs =
     \<lparr>kGet = (\<lambda>k w. (case find (\<lambda>c. configKey c = k) (s_Configs (m_Store w)) of
                       None \<Rightarrow> Inl NotFound | Some c \<Rightarrow> Inr c, w)),
      kCreate = (\<lambda>c w. if configKey c \<in> configKey ` set (s_Configs (m_Store w))
        then (Inl AlreadyExists, w)
        else (Inr (), putStore (s_Configs_update (\<lambda>cs. cs @ [freshConfig w c])) w)),
      kPatch = (\<lambda>b c w. (Inl (OtherError ''immutable''), w)),
      kDelete = (\<lambda>k w. if k \<in> configKey ` set (s_Configs (m_Store w))
        then (Inr (), putStore (s_Configs_update (filter (\<lambda>c. configKey c \<noteq> k))) w)
        else (Inl NotFound, w))\<rparr>"

definition memGetRedkey :: "nsname \<Rightarrow> (mem, Redkey) io" where
  "memGetRedkey k w =
     (case fmlookup (s_Redkeys (m_Store w)) k of None \<Rightarrow> Inl NotFound | Some x \<Rightarrow> Inr x, w)"

definition memUpdateStatus :: "Redkey \<Rightarrow> (mem, Redkey) io" where
  "memUpdateStatus x w =
     (let k = metaKey (rk_Meta x) in
      case fmlookup (s_Redkeys (m_Store w)) k of
        None \<Rightarrow> (Inl NotFound, w)
      | Some old \<Rightarrow>
          if ResourceVersion (rk_Meta old) \<noteq> ResourceVersion (rk_Meta x) then (Inl Conflict, w)
          else (let y = old\<lparr>rk_Meta := stampMeta (m_Version w) (rk_Meta old), rk_Status := rk_Status x\<rparr>
                in (Inr y, putStore (s_Redkeys_update (fmupd k y)) w)))"

definition memList :: "string \<Rightarrow> strmap \<Rightarrow> (mem, RedkeyConfig list) io" where
  "memList ns m w = (Inr (filter (configMatches ns m) (s_Configs (m_Store w))), w)"

subsection \<open>The helpers\<close>

definition memSetRef :: "Redkey \<Rightarrow> ObjectMeta \<Rightarrow> go_error + ObjectMeta" where
  "memSetRef owner m =
     (let ref = \<lparr>or_Kind = ''Redkey'', or_Name = Name (rk_Meta owner), or_Controller = True\<rparr> in
      if ref \<in> set (OwnerReferences m) then Inr m
      else if \<exists>o' \<in> set (OwnerReferences m). or_Controller o' then Inl (OtherError ''already owned'')
      else Inr (m\<lparr>OwnerReferences := OwnerReferences m @ [ref]\<rparr>))"

definition memFind :: "Condition list \<Rightarrow> string \<Rightarrow> Condition option" where
  "memFind cs t = find (\<lambda>c. c_Type c = t) cs"

fun memSet :: "int \<Rightarrow> Condition list \<Rightarrow> Condition \<Rightarrow> Condition list" where
  "memSet now [] c =
     [if c_LastTransitionTime c = 0 then c\<lparr>c_LastTransitionTime := now\<rparr> else c]"
| "memSet now (x # xs) c =
     (if c_Type x = c_Type c
      then (if c_Status x = c_Status c
            then c\<lparr>c_LastTransitionTime := c_LastTransitionTime x\<rparr>
            else if c_LastTransitionTime c = 0 then c\<lparr>c_LastTransitionTime := now\<rparr> else c) # xs
      else x # memSet now xs c)"

definition memDerivative :: "PodSpec \<Rightarrow> PodSpec \<Rightarrow> bool" where
  "memDerivative a b \<longleftrightarrow>
     (ps_ServiceAccountName a = [] \<or> ps_ServiceAccountName a = ps_ServiceAccountName b) \<and>
     (ps_Containers a = [] \<or> ps_Containers a = ps_Containers b) \<and>
     (contents (ps_NodeSelector a) = fmempty \<or> contents (ps_NodeSelector a) = contents (ps_NodeSelector b)) \<and>
     (ps_Tolerations a = [] \<or> ps_Tolerations a = ps_Tolerations b) \<and>
     (ps_Affinity a = None \<or> ps_Affinity a = ps_Affinity b) \<and>
     (ps_SecurityContext a = None \<or> ps_SecurityContext a = ps_SecurityContext b) \<and>
     (ps_ImagePullSecrets a = [] \<or> ps_ImagePullSecrets a = ps_ImagePullSecrets b) \<and>
     (ps_PriorityClassName a = [] \<or> ps_PriorityClassName a = ps_PriorityClassName b) \<and>
     (ps_TopologySpreadConstraints a = [] \<or>
        ps_TopologySpreadConstraints a = ps_TopologySpreadConstraints b) \<and>
     (ps_Volumes a = [] \<or> ps_Volumes a = ps_Volumes b)"

definition countOf :: "mem \<Rightarrow> MetricVec \<Rightarrow> string list \<Rightarrow> nat" where
  "countOf w v ls = (case fmlookup (m_Counters w) (v, ls) of None \<Rightarrow> 0 | Some n \<Rightarrow> n)"

definition samplesOf :: "mem \<Rightarrow> MetricVec \<Rightarrow> string list \<Rightarrow> int list" where
  "samplesOf w v ls = (case fmlookup (m_Samples w) (v, ls) of None \<Rightarrow> [] | Some ds \<Rightarrow> ds)"

definition gaugeOf :: "mem \<Rightarrow> MetricVec \<Rightarrow> string list \<Rightarrow> int option" where
  "gaugeOf w v ls = fmlookup (m_Gauges w) (v, ls)"

definition memReconciler :: "mem RedkeyReconciler" where
  "memReconciler =
     \<lparr>getRedkey = memGetRedkey, updateRedkeyStatus = memUpdateStatus, listRedkeyConfigs = memList,
      redkeyConfigs = memConfigs,
      serviceAccounts = memKind s_ServiceAccounts s_ServiceAccounts_update (\<lambda>x. metaKey (sa_Meta x))
        (\<lambda>v x. x\<lparr>sa_Meta := stampMeta v (sa_Meta x)\<rparr>),
      roles = memKind s_Roles s_Roles_update (\<lambda>x. metaKey (role_Meta x))
        (\<lambda>v x. x\<lparr>role_Meta := stampMeta v (role_Meta x)\<rparr>),
      roleBindings = memKind s_RoleBindings s_RoleBindings_update (\<lambda>x. metaKey (rb_Meta x))
        (\<lambda>v x. x\<lparr>rb_Meta := stampMeta v (rb_Meta x)\<rparr>),
      deployments = memKind s_Deployments s_Deployments_update (\<lambda>x. metaKey (d_Meta x))
        (\<lambda>v x. x\<lparr>d_Meta := stampMeta v (d_Meta x)\<rparr>),
      setControllerReference = memSetRef,
      findStatusCondition = memFind, setStatusCondition = memSet,
      deepEqualMap = (\<lambda>a b. contents a = contents b), deepEqualRules = (=), deepEqualSubjects = (=),
      deepDerivative = memDerivative,
      retryOnConflict = retryRuns 4,
      timeNow = (\<lambda>w. (m_Clock w, w\<lparr>m_Clock := m_Clock w + 1\<rparr>)),
      gaugeSet = (\<lambda>v ls x w. w\<lparr>m_Gauges := fmupd (v, ls) x (m_Gauges w)\<rparr>),
      deletePartialMatch = (\<lambda>v m w.
        w\<lparr>m_Gauges := fmfilter (\<lambda>(v', ls). \<not> (v' = v \<and> labelsMatch v m ls)) (m_Gauges w)\<rparr>),
      counterInc = (\<lambda>v ls w. w\<lparr>m_Counters := fmupd (v, ls) (Suc (countOf w v ls)) (m_Counters w)\<rparr>),
      histObserve = (\<lambda>v ls d w. w\<lparr>m_Samples := fmupd (v, ls) (samplesOf w v ls @ [d]) (m_Samples w)\<rparr>),
      ResyncInterval = 300000000000, MaxConcurrentReconciles = 10\<rparr>"

subsection \<open>The laws hold\<close>

interpretation mem_cond: condition_lib memFind memSet
proof
  fix now cs c
  show "\<exists>x. memFind (memSet now cs c) (c_Type c) = Some x \<and> c_Type x = c_Type c \<and>
      c_Status x = c_Status c \<and> c_Reason x = c_Reason c \<and> c_Message x = c_Message c"
    by (induction now cs c rule: memSet.induct) (auto simp: memFind_def)
next
  fix t now cs c
  assume "t \<noteq> c_Type (c :: Condition)"
  then show "memFind (memSet now cs c) t = memFind cs t"
    by (induction now cs c rule: memSet.induct) (auto simp: memFind_def)
next
  fix cs c old now x
  assume "memFind cs (c_Type c) = Some old" and "c_Status old = c_Status c"
    and "memFind (memSet now cs c) (c_Type c) = Some x"
  then show "c_LastTransitionTime x = c_LastTransitionTime old"
    by (induction now cs c rule: memSet.induct) (auto simp: memFind_def split: if_splits)
qed

interpretation mem_eq: semantic_equality memReconciler
  by unfold_locales (simp_all add: memReconciler_def memDerivative_def unsetOptional_def)

interpretation mem_owner: owner_lib memSetRef
  by unfold_locales (auto simp: memSetRef_def Let_def ownedBy_def split: if_splits)

interpretation mem_retry: retry_lib "retryRuns 4"
  by unfold_locales blast

interpretation mem_prom: prom_lib memReconciler gaugeOf countOf samplesOf
  by unfold_locales
    (auto simp: memReconciler_def gaugeOf_def countOf_def samplesOf_def fun_eq_iff split: option.split)

interpretation mem_sa: kind_api "serviceAccounts memReconciler" m_Store s_ServiceAccounts
    s_ServiceAccounts_update "\<lambda>x. metaKey (sa_Meta x)" storedServiceAccount False
  unfolding memReconciler_def
  by (simp, rule memKind_laws) (simp_all add: storedServiceAccount_def sameMeta_key)

interpretation mem_role: kind_api "roles memReconciler" m_Store s_Roles s_Roles_update
    "\<lambda>x. metaKey (role_Meta x)" storedRole False
  unfolding memReconciler_def
  by (simp, rule memKind_laws) (simp_all add: storedRole_def sameMeta_key)

interpretation mem_rb: kind_api "roleBindings memReconciler" m_Store s_RoleBindings
    s_RoleBindings_update "\<lambda>x. metaKey (rb_Meta x)" storedRoleBinding False
  unfolding memReconciler_def
  by (simp, rule memKind_laws) (simp_all add: storedRoleBinding_def sameMeta_key)

interpretation mem_dep: kind_api "deployments memReconciler" m_Store s_Deployments
    s_Deployments_update "\<lambda>x. metaKey (d_Meta x)" "storedDeployment (deepDerivative memReconciler)" False
  unfolding memReconciler_def
  by (simp, rule memKind_laws)
    (simp_all add: storedDeployment_def memDerivative_def metaKey_def stampMeta_def)

lemmas mem_defs = memReconciler_def memGetRedkey_def memUpdateStatus_def memList_def memConfigs_def
  putStore_def withStatus_def stampMeta_def metaKey_def Let_def

interpretation mem_kube: kube_api memReconciler m_Store False
  by unfold_locales
    (auto simp: mem_defs split: if_splits option.splits intro!: storedConfig_fresh)

lemma memKind_leaves:
  assumes "\<And>f w. obs (putStore f w) = obs w"
  shows "kindLeaves obs (memKind proj upd key stamp)"
  using assms by (simp add: kindLeaves_def leaves_def memKind_def)

lemma memConfigs_leaves:
  assumes "\<And>f w. obs (putStore f w) = obs w"
  shows "kindLeaves obs memConfigs"
  using assms by (simp add: kindLeaves_def leaves_def memConfigs_def)

lemma memRedkey_leaves:
  assumes "\<And>f w. obs (putStore f w) = obs w"
  shows "leaves obs (memGetRedkey k)" "leaves obs (memUpdateStatus x)" "leaves obs (memList ns m)"
  using assms
  by (simp_all add: leaves_def memGetRedkey_def memUpdateStatus_def memList_def Let_def split: option.split)

lemma metrics_putStore:
  "(gaugeOf (putStore f w), countOf (putStore f w), samplesOf (putStore f w)) =
   (gaugeOf w, countOf w, samplesOf w)"
  by (simp add: fun_eq_iff gaugeOf_def countOf_def samplesOf_def putStore_def)

lemma memReconciler_sel [simp]:
  "getRedkey memReconciler = memGetRedkey" "updateRedkeyStatus memReconciler = memUpdateStatus"
  "listRedkeyConfigs memReconciler = memList" "redkeyConfigs memReconciler = memConfigs"
  "setControllerReference memReconciler = memSetRef"
  "findStatusCondition memReconciler = memFind" "setStatusCondition memReconciler = memSet"
  "retryOnConflict memReconciler = retryRuns 4"
  "ResyncInterval memReconciler = 300000000000" "MaxConcurrentReconciles memReconciler = 10"
  by (simp_all add: memReconciler_def)

interpretation mem_libs: operator_libs memReconciler m_Store False
proof -
  have "owner_lib (setControllerReference memReconciler)"
    by (simp add: mem_owner.owner_lib_axioms)
  then show "operator_libs memReconciler m_Store False"
    by (simp add: operator_libs_def mem_kube.kube_api_axioms mem_eq.semantic_equality_axioms)
qed

interpretation mem_client: prom_client memReconciler gaugeOf countOf samplesOf
proof (unfold_locales, goal_cases)
  case 4 show ?case by (simp add: memConfigs_leaves metrics_putStore)
next
  case 5 show ?case unfolding memReconciler_def by (simp add: memKind_leaves metrics_putStore)
next
  case 6 show ?case unfolding memReconciler_def by (simp add: memKind_leaves metrics_putStore)
next
  case 7 show ?case unfolding memReconciler_def by (simp add: memKind_leaves metrics_putStore)
next
  case 8 show ?case unfolding memReconciler_def by (simp add: memKind_leaves metrics_putStore)
qed (simp_all add: memRedkey_leaves metrics_putStore)

subsection \<open>Sample objects\<close>

text \<open>A storage cluster of three primaries, its configs, and worlds that hold them.\<close>

definition sampleRobin :: RobinSpec where
  "sampleRobin = \<lparr>rob_Image = ''robin:1'', rob_Resources = None, rob_Template = None, rob_Config = None\<rparr>"

definition sampleSpec :: RedkeySpec where
  "sampleSpec = \<lparr>sp_Auth = \<lparr>SecretName = ''''\<rparr>, sp_Version = '''', sp_Mode = ModeCluster,
     sp_Primaries = 3, sp_ReplicasPerPrimary = 0, sp_Image = ''redis:8'', sp_DeletePVC = Some False,
     sp_Backup = False, sp_Robin = sampleRobin, sp_SkipIfSuperseded = True,
     sp_PurgeKeysOnRebalance = Some False, sp_Config = '''', sp_Resources = None, sp_Labels = None,
     sp_Annotations = None,
     sp_Pdb = \<lparr>pdb_Enabled = False, pdb_SizeUnavailable = IntVal 0, pdb_SizeAvailable = IntVal 0\<rparr>,
     sp_Override = None, sp_Ephemeral = False, sp_Storage = ''1Gi'', sp_StorageClassName = '''',
     sp_AccessModes = [''ReadWriteOnce'']\<rparr>"

definition zeroStatus :: RedkeyStatus where
  "zeroStatus = \<lparr>st_Replicas = 0, st_Phase = '''', st_Status = '''', st_Substatus = zeroSubstatus,
     st_Nodes = None, st_Conditions = [], st_LastUpdatedAt = None, st_ObservedGeneration = 0,
     st_LastAppliedPrimaries = 0, st_LastAppliedReplicasPerPrimary = 0\<rparr>"

definition sampleRedkey :: Redkey where
  "sampleRedkey = \<lparr>rk_Meta = emptyMeta\<lparr>Name := ''demo'', Namespace := ''ns'', Generation := 1\<rparr>,
     rk_Spec = sampleSpec, rk_Status = zeroStatus\<rparr>"

definition redkeyWith :: "string \<Rightarrow> string \<Rightarrow> Redkey" where
  "redkeyWith status phase =
     sampleRedkey\<lparr>rk_Status := zeroStatus\<lparr>st_Status := status, st_Phase := phase\<rparr>\<rparr>"

definition sampleConfig :: "go_int \<Rightarrow> string \<Rightarrow> string \<Rightarrow> RedkeyConfig" where
  "sampleConfig seq phase status =
     \<lparr>rc_Meta = emptyMeta\<lparr>Name := sprintfNameNum ''demo'' seq, Namespace := ''ns'',
        Labels := Some (fmap_of_list [(''redkey.inditex.dev/cluster'', ''demo'')]),
        Annotations := Some (fmap_of_list [(''redkey.inditex.dev/cluster-generation'', FormatInt seq)])\<rparr>,
      rc_Spec = \<lparr>cs_Sequence = seq, cs_SkipIfSuperseded = True, cs_Mode = ModeCluster,
        cs_Primaries = 3, cs_ReplicasPerPrimary = 0, cs_Ephemeral = False, cs_Storage = ''1Gi'',
        cs_StorageClassName = '''', cs_Image = ''redis:8'', cs_Version = '''', cs_RedisConfig = '''',
        cs_Resources = None, cs_Auth = \<lparr>SecretName = ''''\<rparr>, cs_Labels = None, cs_Annotations = None,
        cs_DeletePVC = Some False, cs_PurgeKeysOnRebalance = Some False, cs_Override = None,
        cs_Pdb = \<lparr>pdb_Enabled = False, pdb_SizeUnavailable = IntVal 0, pdb_SizeAvailable = IntVal 0\<rparr>,
        cs_RobinConfig = None\<rparr>,
      rc_Status = zeroConfigStatus\<lparr>cst_ConfigPhase := phase, cst_Status := status\<rparr>\<rparr>"

definition emptyStore :: store where
  "emptyStore = \<lparr>s_Redkeys = fmempty, s_Configs = [], s_ServiceAccounts = fmempty, s_Roles = fmempty,
     s_RoleBindings = fmempty, s_Deployments = fmempty\<rparr>"

definition memWith :: "Redkey list \<Rightarrow> RedkeyConfig list \<Rightarrow> mem" where
  "memWith rks cfgs = \<lparr>m_Store = emptyStore\<lparr>s_Redkeys := fmap_of_list (map (\<lambda>x. (metaKey (rk_Meta x), x)) rks),
       s_Configs := cfgs\<rparr>,
     m_Gauges = fmempty, m_Counters = fmempty, m_Samples = fmempty, m_Clock = 100, m_Version = 1\<rparr>"

definition freshState :: "mem \<Rightarrow> mem rstate" where
  "freshState w = \<lparr>world = w, opActive = fmempty, lastPhase = fmempty\<rparr>"

lemma sampleRedkey_sel [simp]:
  "NamespacedName sampleRedkey = (''ns'', ''demo'')"
  "NamespacedName (redkeyWith st ph) = (''ns'', ''demo'')"
  "st_Status (rk_Status (redkeyWith st ph)) = st"
  "st_Phase (rk_Status (redkeyWith st ph)) = ph"
  "rk_Spec (redkeyWith st ph) = sampleSpec"
  "rk_Spec sampleRedkey = sampleSpec"
  by (simp_all add: NamespacedName_def sampleRedkey_def redkeyWith_def)

lemma sampleConfig_sel [simp]:
  "configPhase (sampleConfig n ph st) = ph"
  "cst_Status (rc_Status (sampleConfig n ph st)) = st"
  "configSeq (sampleConfig n ph st) = n"
  by (simp_all add: sampleConfig_def)

lemma freshState_sel [simp]:
  "world (freshState w) = w" "opActive (freshState w) = fmempty" "lastPhase (freshState w) = fmempty"
  by (simp_all add: freshState_def)

lemma wfStore_sample [simp]:
  "wfStore (m_Store (memWith [] cs))" "wfStore (m_Store (memWith [x] cs))"
  by (simp_all add: wfStore_def memWith_def emptyStore_def)

lemma m_Store_memWith [simp]:
  "s_Configs (m_Store (memWith rks cs)) = cs"
  "s_Redkeys (m_Store (memWith rks cs)) = fmap_of_list (map (\<lambda>x. (metaKey (rk_Meta x), x)) rks)"
  by (simp_all add: memWith_def)

end
