(* ===== verification/Metrics.thy ===== *)
theory Metrics
  imports Mem_World
begin

section \<open>Fleet-state metrics (\<^verbatim>\<open>internal/controller/metrics.go\<close>)\<close>

text \<open>
  The metric vectors, the two in-memory trackers and the functions that refresh the series of
  one Redkey. The locale \<open>prom_lib\<close> states the documented behaviour of the Prometheus client;
  under it the series are shown to be a state set (one series per value, 1 on the active one)
  and the operation tracker to agree with the in-progress gauge.
\<close>

subsection \<open>Vectors\<close>

definition redkeyPhase :: MetricVec where
  "redkeyPhase = (''redkey_phase'', [''namespace'', ''name'', ''phase''])"

definition redkeyConfigPhase :: MetricVec where
  "redkeyConfigPhase = (''redkey_config_phase'', [''namespace'', ''name'', ''config_phase''])"

definition redkeyOperationDuration :: MetricVec where
  "redkeyOperationDuration = (''redkey_operation_duration_seconds'', [''operation''])"

definition redkeyOperationTotal :: MetricVec where
  "redkeyOperationTotal = (''redkey_operation_total'', [''operation'', ''result''])"

definition redkeyOperationInProgress :: MetricVec where
  "redkeyOperationInProgress =
     (''redkey_operation_in_progress'', [''namespace'', ''name'', ''operation''])"

definition redkeyReconcileStageErrors :: MetricVec where
  "redkeyReconcileStageErrors = (''redkey_reconcile_stage_errors_total'', [''stage''])"

definition redkeyConfigCreations :: MetricVec where
  "redkeyConfigCreations = (''redkey_config_creations_total'', [''reason''])"

definition redkeyCleanupDeletedConfigs :: MetricVec where
  "redkeyCleanupDeletedConfigs = (''redkey_cleanup_deleted_configs_total'', [])"

definition redkeyRobinDeploymentChanges :: MetricVec where
  "redkeyRobinDeploymentChanges = (''redkey_robin_deployment_changes_total'', [''action''])"

definition redkeyTimeToReady :: MetricVec where
  "redkeyTimeToReady = (''redkey_time_to_ready_seconds'', [])"

lemmas vec_defs =
  redkeyPhase_def redkeyConfigPhase_def redkeyOperationDuration_def redkeyOperationTotal_def
  redkeyOperationInProgress_def redkeyReconcileStageErrors_def redkeyConfigCreations_def
  redkeyCleanupDeletedConfigs_def redkeyRobinDeploymentChanges_def redkeyTimeToReady_def

definition redkeyPhaseValues :: "string list" where
  "redkeyPhaseValues = [PhaseReady, PhaseConfiguring, PhaseError]"

definition redkeyConfigPhaseValues :: "string list" where
  "redkeyConfigPhaseValues =
     [ConfigPhasePending, ConfigPhaseInProgress, ConfigPhaseSuperseded, ConfigPhaseApplied]"

subsection \<open>The operation tracker\<close>

definition onWorld :: "('w \<Rightarrow> 'w) \<Rightarrow> 'w rstate \<Rightarrow> 'w rstate" where
  "onWorld f s = s\<lparr>world := f (world s)\<rparr>"

text \<open>A status that is neither empty nor Ready nor Error is an operation in flight.\<close>

definition inOperation :: "string \<Rightarrow> bool" where
  "inOperation status \<longleftrightarrow>
     status \<noteq> '''' \<and> status \<noteq> ClusterStatusReady \<and> status \<noteq> ClusterPhaseError"

definition observeSince ::
  "('w, 'z) RedkeyReconciler_scheme \<Rightarrow> MetricVec \<Rightarrow> string list \<Rightarrow> int \<Rightarrow> 'w \<Rightarrow> 'w" where
  "observeSince r vec labels start w =
     (let (t, w') = timeNow r w in histObserve r vec labels (t - start) w')"

definition startOperation ::
  "('w, 'z) RedkeyReconciler_scheme \<Rightarrow> nsname \<Rightarrow> string \<Rightarrow> 'w rstate \<Rightarrow> 'w rstate" where
  "startOperation r key status s =
     (let (t, w') = timeNow r (world s)
      in s\<lparr>world := w', opActive := fmupd key \<lparr>operation = status, startedAt = t\<rparr> (opActive s)\<rparr>)"

definition finishOperation ::
  "('w, 'z) RedkeyReconciler_scheme \<Rightarrow> activeOperation \<Rightarrow> string \<Rightarrow> 'w \<Rightarrow> 'w" where
  "finishOperation r current result w =
     counterInc r redkeyOperationTotal [operation current, result]
       (observeSince r redkeyOperationDuration [operation current] (startedAt current) w)"

definition observe ::
  "('w, 'z) RedkeyReconciler_scheme \<Rightarrow> nsname \<Rightarrow> string \<Rightarrow> string \<Rightarrow> 'w rstate \<Rightarrow> 'w rstate" where
  "observe r key status phase s =
     (case fmlookup (opActive s) key of
        None \<Rightarrow> if inOperation status then startOperation r key status s else s
      | Some current \<Rightarrow>
          if inOperation status then
            (if operation current \<noteq> status
             then startOperation r key status (onWorld (finishOperation r current ''superseded'') s)
             else s)
          else
            (let result = (if phase = PhaseError \<or> status = ClusterPhaseError
                           then ''error'' else ''success'');
                 s' = onWorld (finishOperation r current result) s
             in s'\<lparr>opActive := fmdrop key (opActive s')\<rparr>))"

definition opForget :: "nsname \<Rightarrow> 'w rstate \<Rightarrow> 'w rstate" where
  "opForget key s = s\<lparr>opActive := fmdrop key (opActive s)\<rparr>"

subsection \<open>The readiness tracker\<close>

text \<open>A missing key reads as the empty string, Go's zero value.\<close>

definition enteredReady :: "nsname \<Rightarrow> string \<Rightarrow> 'w rstate \<Rightarrow> bool \<times> 'w rstate" where
  "enteredReady key phase s =
     (let previous = (case fmlookup (lastPhase s) key of None \<Rightarrow> '''' | Some p \<Rightarrow> p)
      in (phase = PhaseReady \<and> previous \<noteq> PhaseReady,
          s\<lparr>lastPhase := fmupd key phase (lastPhase s)\<rparr>))"

definition readyForget :: "nsname \<Rightarrow> 'w rstate \<Rightarrow> 'w rstate" where
  "readyForget key s = s\<lparr>lastPhase := fmdrop key (lastPhase s)\<rparr>"

subsection \<open>Refreshing and removing the series of a Redkey\<close>

definition crLabels :: "nsname \<Rightarrow> strmap" where
  "crLabels key = fmap_of_list [(''namespace'', fst key), (''name'', snd key)]"

fun setStates ::
  "('w, 'z) RedkeyReconciler_scheme \<Rightarrow> MetricVec \<Rightarrow> nsname \<Rightarrow> string \<Rightarrow> string list \<Rightarrow> 'w \<Rightarrow> 'w" where
  "setStates r vec key current [] w = w"
| "setStates r vec key current (v # vs) w =
     setStates r vec key current vs
       (gaugeSet r vec [fst key, snd key, v] (if v = current then 1 else 0) w)"

definition markInProgress ::
  "('w, 'z) RedkeyReconciler_scheme \<Rightarrow> nsname \<Rightarrow> string \<Rightarrow> 'w \<Rightarrow> 'w" where
  "markInProgress r key status w =
     (let w' = deletePartialMatch r redkeyOperationInProgress (crLabels key) w
      in if inOperation status
         then gaugeSet r redkeyOperationInProgress [fst key, snd key, status] 1 w' else w')"

definition recordRedkeyMetrics ::
  "('w, 'z) RedkeyReconciler_scheme \<Rightarrow> Redkey \<Rightarrow> RedkeyConfig option \<Rightarrow> 'w rstate \<Rightarrow> 'w rstate" where
  "recordRedkeyMetrics r cluster activeConfig s =
     (let key = (Namespace (rk_Meta cluster), Name (rk_Meta cluster));
          status = st_Status (rk_Status cluster);
          phase = st_Phase (rk_Status cluster);
          s1 = observe r key status phase s;
          s2 = onWorld (markInProgress r key status) s1;
          s3 = onWorld (setStates r redkeyPhase key phase redkeyPhaseValues) s2
      in case activeConfig of
           None \<Rightarrow> onWorld (deletePartialMatch r redkeyConfigPhase (crLabels key)) s3
         | Some config \<Rightarrow>
             (let s4 = onWorld (setStates r redkeyConfigPhase key (configPhase config)
                                  redkeyConfigPhaseValues) s3;
                  (entered, s5) = enteredReady key phase s4
              in if entered
                 then onWorld (observeSince r redkeyTimeToReady []
                                 (CreationTimestamp (rc_Meta config))) s5
                 else s5))"

definition deleteRedkeyMetrics ::
  "('w, 'z) RedkeyReconciler_scheme \<Rightarrow> nsname \<Rightarrow> 'w rstate \<Rightarrow> 'w rstate" where
  "deleteRedkeyMetrics r key s =
     readyForget key (opForget key
       (onWorld (deletePartialMatch r redkeyOperationInProgress (crLabels key))
         (onWorld (deletePartialMatch r redkeyConfigPhase (crLabels key))
           (onWorld (deletePartialMatch r redkeyPhase (crLabels key)) s))))"

text \<open>\<^verbatim>\<open>redkeyReconcileStageErrors.WithLabelValues(stage).Inc()\<close>\<close>

definition stageError ::
  "('w, 'z) RedkeyReconciler_scheme \<Rightarrow> string \<Rightarrow> 'w rstate \<Rightarrow> 'w rstate" where
  "stageError r stage = onWorld (counterInc r redkeyReconcileStageErrors [stage])"

subsection \<open>How each step changes the series\<close>

lemma labelsMatch_cr:
  assumes "snd vec = [''namespace'', ''name'', l]"
  shows "labelsMatch vec (crLabels key) [a, b, c] \<longleftrightarrow> (a, b) = key"
  using assms by (cases key) (auto simp: labelsMatch_def crLabels_def fmpred_iff)

lemma labelsMatch_vecs [simp]:
  "labelsMatch redkeyPhase (crLabels key) [a, b, c] \<longleftrightarrow> (a, b) = key"
  "labelsMatch redkeyConfigPhase (crLabels key) [a, b, c] \<longleftrightarrow> (a, b) = key"
  "labelsMatch redkeyOperationInProgress (crLabels key) [a, b, c] \<longleftrightarrow> (a, b) = key"
  by (rule labelsMatch_cr, simp add: vec_defs)+

lemma vec_distinct [simp]:
  "redkeyPhase \<noteq> redkeyConfigPhase" "redkeyConfigPhase \<noteq> redkeyPhase"
  "redkeyPhase \<noteq> redkeyOperationInProgress" "redkeyOperationInProgress \<noteq> redkeyPhase"
  "redkeyConfigPhase \<noteq> redkeyOperationInProgress" "redkeyOperationInProgress \<noteq> redkeyConfigPhase"
  "redkeyTimeToReady \<noteq> redkeyOperationDuration" "redkeyOperationDuration \<noteq> redkeyTimeToReady"
  by (simp_all add: vec_defs)

lemma world_onWorld [simp]:
  "world (onWorld f s) = f (world s)" "opActive (onWorld f s) = opActive s"
  "lastPhase (onWorld f s) = lastPhase s"
  by (simp_all add: onWorld_def)

lemma world_startOperation [simp]:
  "world (startOperation r key st s) = snd (timeNow r (world s))"
  "lastPhase (startOperation r key st s) = lastPhase s"
  "opActive (startOperation r key st s) =
     fmupd key \<lparr>operation = st, startedAt = fst (timeNow r (world s))\<rparr> (opActive s)"
  by (simp_all add: startOperation_def split_beta)

lemma enteredReady_simps [simp]:
  "world (snd (enteredReady key ph s)) = world s"
  "opActive (snd (enteredReady key ph s)) = opActive s"
  "lastPhase (snd (enteredReady key ph s)) = fmupd key ph (lastPhase s)"
  by (simp_all add: enteredReady_def Let_def)

lemma lastPhase_observe [simp]: "lastPhase (observe r key st ph s) = lastPhase s"
  by (simp add: observe_def Let_def split: option.split)

context prom_lib
begin

lemma views_observeSince [simp]:
  "gauge (observeSince r v ls t w) = gauge w"
  "counter (observeSince r v ls t w) = counter w"
  by (simp_all add: observeSince_def split_beta)

lemma samples_observeSince [simp]:
  "samples (observeSince r v ls t w) v' ls' =
     (if v' = v \<and> ls' = ls then samples w v' ls' @ [fst (timeNow r w) - t] else samples w v' ls')"
  by (simp add: observeSince_def split_beta)

lemma views_finishOperation [simp]:
  "gauge (finishOperation r cur res w) = gauge w"
  "counter (finishOperation r cur res w) v ls =
     counter w v ls + (if v = redkeyOperationTotal \<and> ls = [operation cur, res] then 1 else 0)"
  by (simp_all add: finishOperation_def)

lemma gauge_observe [simp]: "gauge (world (observe r key st ph s)) = gauge (world s)"
  by (simp add: observe_def Let_def split: option.split)

lemma gauge_setStates:
  "gauge (setStates r vec key cur vs w) v' ls' =
     (if v' = vec \<and> (\<exists>v \<in> set vs. ls' = [fst key, snd key, v])
      then Some (if ls' = [fst key, snd key, cur] then 1 else 0) else gauge w v' ls')"
  by (induction vs arbitrary: w) auto

lemma views_setStates [simp]:
  "counter (setStates r vec key cur vs w) = counter w"
  "samples (setStates r vec key cur vs w) = samples w"
  by (induction vs arbitrary: w) auto

lemma views_markInProgress [simp]:
  "counter (markInProgress r key st w) = counter w"
  "samples (markInProgress r key st w) = samples w"
  by (simp_all add: markInProgress_def Let_def)

lemma gauge_markInProgress:
  "gauge (markInProgress r key st w) v ls =
     (if v = redkeyOperationInProgress \<and> inOperation st \<and> ls = [fst key, snd key, st] then Some 1
      else if v = redkeyOperationInProgress \<and> labelsMatch redkeyOperationInProgress (crLabels key) ls
      then None else gauge w v ls)"
  by (auto simp: markInProgress_def Let_def)

lemma gauge_record:
  "gauge (world (recordRedkeyMetrics r cluster cfg s)) =
     (let key = NamespacedName cluster;
          status = st_Status (rk_Status cluster); phase = st_Phase (rk_Status cluster);
          w = setStates r redkeyPhase key phase redkeyPhaseValues
                (markInProgress r key status (world (observe r key status phase s)))
      in case cfg of
           None \<Rightarrow> gauge (deletePartialMatch r redkeyConfigPhase (crLabels key) w)
         | Some c \<Rightarrow> gauge (setStates r redkeyConfigPhase key (configPhase c) redkeyConfigPhaseValues w))"
  by (simp add: recordRedkeyMetrics_def Let_def NamespacedName_def [symmetric] split_beta
      split: option.split)

lemmas gauge_rules =
  gauge_record gauge_markInProgress gauge_setStates gauge_delete gauge_observe

lemma counter_observe:
  "counter (world (observe r key st ph s)) v ls = counter (world s) v ls +
     (case fmlookup (opActive s) key of
        None \<Rightarrow> 0
      | Some cur \<Rightarrow>
          if v = redkeyOperationTotal \<and> operation cur \<noteq> st \<and>
             ls = [operation cur, if inOperation st then ''superseded''
                   else if ph = PhaseError \<or> st = ClusterPhaseError then ''error'' else ''success'']
          then 1
          else if v = redkeyOperationTotal \<and> operation cur = st \<and> \<not> inOperation st \<and>
            ls = [st, if ph = PhaseError \<or> st = ClusterPhaseError then ''error'' else ''success'']
          then 1 else 0)"
  by (auto simp: observe_def Let_def split: option.split)

lemma counter_record [simp]:
  "counter (world (recordRedkeyMetrics r cluster cfg s)) =
   counter (world (observe r (NamespacedName cluster) (st_Status (rk_Status cluster))
     (st_Phase (rk_Status cluster)) s))"
  by (auto simp: recordRedkeyMetrics_def Let_def NamespacedName_def split_beta split: option.split)

end

lemma opActive_record:
  "opActive (recordRedkeyMetrics r cluster cfg s) =
   opActive (observe r (NamespacedName cluster) (st_Status (rk_Status cluster))
     (st_Phase (rk_Status cluster)) s)"
  by (auto simp: recordRedkeyMetrics_def Let_def NamespacedName_def split_beta split: option.split)

lemma opActive_observe:
  "fmlookup (opActive (observe r key st ph s)) k =
     (if k \<noteq> key then fmlookup (opActive s) k
      else if \<not> inOperation st then None
      else case fmlookup (opActive s) key of
             Some cur \<Rightarrow>
               if operation cur = st then Some cur
               else Some \<lparr>operation = st, startedAt =
                 fst (timeNow r (finishOperation r cur ''superseded'' (world s)))\<rparr>
           | None \<Rightarrow> Some \<lparr>operation = st, startedAt = fst (timeNow r (world s))\<rparr>)"
  by (auto simp: observe_def Let_def split: option.split)

text \<open>
  C26 (state sets): after the metrics of a Redkey are refreshed, every phase has a series for it,
  with 1 on its current phase and 0 on the others; likewise for the phase of the active config,
  whose series are all gone when there is no active config; and no series of another Redkey changes.
\<close>

theorem record_state_set:
  assumes "prom_lib r gauge counter samples"
    and "key = NamespacedName cluster" and "s' = recordRedkeyMetrics r cluster cfg s"
  shows "(\<forall>p \<in> set redkeyPhaseValues. gauge (world s') redkeyPhase [fst key, snd key, p] =
            Some (if p = st_Phase (rk_Status cluster) then 1 else 0)) \<and>
         (case cfg of
            None \<Rightarrow> \<forall>p. gauge (world s') redkeyConfigPhase [fst key, snd key, p] = None
          | Some c \<Rightarrow> \<forall>p \<in> set redkeyConfigPhaseValues.
              gauge (world s') redkeyConfigPhase [fst key, snd key, p] =
                Some (if p = configPhase c then 1 else 0)) \<and>
         (\<forall>v a b p. (a, b) \<noteq> key \<longrightarrow> gauge (world s') v [a, b, p] = gauge (world s) v [a, b, p])"
proof -
  note facts = prom_lib.gauge_rules [OF assms(1)]
  show ?thesis
    unfolding assms(2,3) by (auto simp: facts Let_def split: option.split)
qed


text \<open>
  C27 (in-progress operations): after a refresh the in-progress gauge of a Redkey has exactly one
  series, its status, when that status is an operation, and none otherwise; the operation tracker
  holds exactly the same operation, and other Redkeys' operations are untouched.
\<close>

theorem record_tracks_operation:
  assumes "prom_lib r gauge counter samples"
    and "key = NamespacedName cluster" and "status = st_Status (rk_Status cluster)"
    and "s' = recordRedkeyMetrics r cluster cfg s"
  shows "(\<forall>op. gauge (world s') redkeyOperationInProgress [fst key, snd key, op] =
            (if op = status \<and> inOperation op then Some 1 else None)) \<and>
         (fmlookup (opActive s') key = None \<longleftrightarrow> \<not> inOperation status) \<and>
         (\<forall>a. fmlookup (opActive s') key = Some a \<longrightarrow> operation a = status) \<and>
         (\<forall>k. k \<noteq> key \<longrightarrow> fmlookup (opActive s') k = fmlookup (opActive s) k)"
proof -
  have "gauge (world s') redkeyOperationInProgress [fst key, snd key, op] =
      (if op = status \<and> inOperation op then Some 1 else None)" for op
    unfolding assms(2-4)
    by (auto simp: prom_lib.gauge_rules [OF assms(1)] Let_def split: option.split)
  moreover have "fmlookup (opActive s') key = None \<longleftrightarrow> \<not> inOperation status"
    unfolding assms(2-4) by (auto simp: opActive_record opActive_observe split: option.split)
  moreover have "operation a = status" if "fmlookup (opActive s') key = Some a" for a
    using that unfolding assms(2-4)
    by (auto simp: opActive_record opActive_observe split: option.splits if_splits)
  moreover have "fmlookup (opActive s') k = fmlookup (opActive s) k" if "k \<noteq> key" for k
    using that unfolding assms(2-4) by (simp add: opActive_record opActive_observe)
  ultimately show ?thesis by blast
qed
text \<open>
  A reference count over the reported statuses: an operation starts where its status appears
  and was not the status before.
\<close>

fun opStarts :: "string \<Rightarrow> string \<Rightarrow> string list \<Rightarrow> nat" where
  "opStarts op prev [] = 0"
| "opStarts op prev (st # sts) =
     (if st = op \<and> inOperation op \<and> st \<noteq> prev then 1 else 0) + opStarts op st sts"

definition observeAll ::
  "('w, 'z) RedkeyReconciler_scheme \<Rightarrow> nsname \<Rightarrow> (string \<times> string) list \<Rightarrow> 'w rstate \<Rightarrow> 'w rstate" where
  "observeAll r key obs s = foldl (\<lambda>s (st, ph). observe r key st ph s) s obs"

definition operationResults :: "string list" where
  "operationResults = [''success'', ''error'', ''superseded'']"

lemma observeAll_simps [simp]:
  "observeAll r key [] s = s"
  "observeAll r key ((st, ph) # obs) s = observeAll r key obs (observe r key st ph s)"
  by (simp_all add: observeAll_def)

context prom_lib
begin

lemma total_observe:
  assumes "map_option operation (fmlookup (opActive s) key) = (if inOperation prev then Some prev else None)"
  shows "(\<Sum>res\<leftarrow>operationResults. counter (world (observe r key st ph s)) redkeyOperationTotal [op, res])
           + (if st = op \<and> inOperation st then 1 else 0) =
         (\<Sum>res\<leftarrow>operationResults. counter (world s) redkeyOperationTotal [op, res])
           + (if prev = op \<and> inOperation prev then 1 else 0)
           + (if st = op \<and> inOperation op \<and> st \<noteq> prev then 1 else 0)"
  using assms by (auto simp: operationResults_def counter_observe split: option.splits if_splits)

lemma total_observeAll:
  assumes "map_option operation (fmlookup (opActive s) key) = (if inOperation prev then Some prev else None)"
  shows "(\<Sum>res\<leftarrow>operationResults. counter (world (observeAll r key obs s)) redkeyOperationTotal [op, res])
           + (if map_option operation (fmlookup (opActive (observeAll r key obs s)) key) = Some op then 1 else 0) =
         (\<Sum>res\<leftarrow>operationResults. counter (world s) redkeyOperationTotal [op, res])
           + (if prev = op \<and> inOperation prev then 1 else 0) + opStarts op prev (map fst obs)"
  using assms
proof (induction obs arbitrary: s prev)
  case Nil
  then show ?case by auto
next
  case (Cons ob obs)
  obtain st ph where ob: "ob = (st, ph)" by (cases ob)
  have "map_option operation (fmlookup (opActive (observe r key st ph s)) key) =
      (if inOperation st then Some st else None)"
    by (simp add: opActive_observe split: option.split)
  from Cons.IH [OF this] total_observe [OF Cons.prems, of st ph op] show ?case
    by (simp add: ob)
qed

end

text \<open>
  C25 (operation accounting): over any sequence of observations of one Redkey that was not
  tracked, every operation that starts is counted as completed exactly once (success, error or
  superseded), or is the one still tracked at the end.
\<close>

theorem operation_accounting:
  assumes "prom_lib r gauge counter samples" and "fmlookup (opActive s) key = None"
    and "s' = observeAll r key obs s"
  shows "(\<Sum>res\<leftarrow>operationResults. counter (world s') redkeyOperationTotal [op, res])
           + (if map_option operation (fmlookup (opActive s') key) = Some op then 1 else 0) =
         (\<Sum>res\<leftarrow>operationResults. counter (world s) redkeyOperationTotal [op, res])
           + opStarts op '''' (map fst obs)"
  using prom_lib.total_observeAll [OF assms(1), of s key "''''" obs op] assms(2,3)
  by (simp add: inOperation_def)

text \<open>
  Removing the metrics of a deleted Redkey leaves no state series of it and no
  tracker entry, and leaves those of every other Redkey as they were.
\<close>

theorem delete_removes_all:
  assumes "prom_lib r gauge counter samples" and "s' = deleteRedkeyMetrics r key s"
  shows "(\<forall>v \<in> {redkeyPhase, redkeyConfigPhase, redkeyOperationInProgress}.
            \<forall>p. gauge (world s') v [fst key, snd key, p] = None) \<and>
         fmlookup (opActive s') key = None \<and> fmlookup (lastPhase s') key = None \<and>
         (\<forall>v a b p. (a, b) \<noteq> key \<longrightarrow> gauge (world s') v [a, b, p] = gauge (world s) v [a, b, p]) \<and>
         (\<forall>k. k \<noteq> key \<longrightarrow> fmlookup (opActive s') k = fmlookup (opActive s) k \<and>
            fmlookup (lastPhase s') k = fmlookup (lastPhase s) k)"
proof -
  note gd = prom_lib.gauge_delete [OF assms(1)]
  show ?thesis
    unfolding assms(2) by (auto simp: deleteRedkeyMetrics_def opForget_def readyForget_def gd)
qed

fun readyEntries :: "string \<Rightarrow> string list \<Rightarrow> nat" where
  "readyEntries prev [] = 0"
| "readyEntries prev (p # ps) =
     (if p = PhaseReady \<and> prev \<noteq> PhaseReady then 1 else 0) + readyEntries p ps"

definition phaseBefore :: "nsname \<Rightarrow> 'w rstate \<Rightarrow> string" where
  "phaseBefore key s = (case fmlookup (lastPhase s) key of None \<Rightarrow> '''' | Some p \<Rightarrow> p)"

fun recordAll ::
  "('w, 'z) RedkeyReconciler_scheme \<Rightarrow> (Redkey \<times> RedkeyConfig) list \<Rightarrow> 'w rstate \<Rightarrow> 'w rstate" where
  "recordAll r [] s = s"
| "recordAll r ((cluster, config) # rest) s =
     recordAll r rest (recordRedkeyMetrics r cluster (Some config) s)"

lemma phaseBefore_record:
  "phaseBefore (NamespacedName cluster) (recordRedkeyMetrics r cluster (Some c) s) =
     st_Phase (rk_Status cluster)"
  by (simp add: phaseBefore_def recordRedkeyMetrics_def Let_def NamespacedName_def split_beta)

context prom_lib
begin

lemma samples_observe_ready [simp]:
  "samples (world (observe r key st ph s)) redkeyTimeToReady [] = samples (world s) redkeyTimeToReady []"
  by (simp add: observe_def finishOperation_def Let_def split: option.split)

lemma ready_samples_record:
  "length (samples (world (recordRedkeyMetrics r cluster (Some c) s)) redkeyTimeToReady []) =
     length (samples (world s) redkeyTimeToReady []) +
     readyEntries (phaseBefore (NamespacedName cluster) s) [st_Phase (rk_Status cluster)]"
  by (simp add: recordRedkeyMetrics_def Let_def NamespacedName_def split_beta enteredReady_def
      phaseBefore_def)

lemma ready_samples_recordAll:
  assumes "\<forall>x \<in> set obs. NamespacedName (fst x) = key"
  shows "length (samples (world (recordAll r obs s)) redkeyTimeToReady []) =
     length (samples (world s) redkeyTimeToReady []) +
     readyEntries (phaseBefore key s) (map (\<lambda>x. st_Phase (rk_Status (fst x))) obs)"
  using assms
proof (induction obs arbitrary: s)
  case (Cons ob obs)
  obtain cl c where ob: "ob = (cl, c)" by (cases ob)
  with Cons.prems have key: "NamespacedName cl = key" by simp
  from ob Cons.IH [of "recordRedkeyMetrics r cl (Some c) s"] Cons.prems
  show ?case
    using ready_samples_record [of cl c s] phaseBefore_record [of cl r c s] key by simp
qed simp

end

text \<open>
  Over any sequence of refreshes of one Redkey, one time-to-ready sample is
  taken per transition into the Ready phase, and none while it stays Ready.
\<close>

theorem time_to_ready_per_entry:
  assumes "prom_lib r gauge counter samples"
    and "\<forall>x \<in> set obs. NamespacedName (fst x) = key" and "s' = recordAll r obs s"
  shows "length (samples (world s') redkeyTimeToReady []) =
     length (samples (world s) redkeyTimeToReady []) +
     readyEntries (phaseBefore key s) (map (\<lambda>x. st_Phase (rk_Status (fst x))) obs)"
  unfolding assms(3) by (rule prom_lib.ready_samples_recordAll [OF assms(1,2)])

subsection \<open>The properties at concrete inputs\<close>

theorem record_state_set_witness:
  "gaugeOf (world (recordRedkeyMetrics memReconciler (redkeyWith ''Upgrading'' ''Configuring'')
      (Some (sampleConfig 2 ''InProgress'' ''Upgrading'')) (freshState (memWith [] []))))
     redkeyConfigPhase [''ns'', ''demo'', ''InProgress''] = Some 1 \<and>
   gaugeOf (world (recordRedkeyMetrics memReconciler (redkeyWith ''Upgrading'' ''Configuring'')
      (Some (sampleConfig 2 ''InProgress'' ''Upgrading'')) (freshState (memWith [] []))))
     redkeyPhase [''ns'', ''demo'', ''Ready''] = Some 0"
  using record_state_set [OF mem_prom.prom_lib_axioms refl refl, of
      "redkeyWith ''Upgrading'' ''Configuring''" "Some (sampleConfig 2 ''InProgress'' ''Upgrading'')"
      "freshState (memWith [] [])"]
  by (simp add: redkeyConfigPhaseValues_def redkeyPhaseValues_def phase_names)

theorem record_tracks_operation_witness:
  "gaugeOf (world (recordRedkeyMetrics memReconciler (redkeyWith ''Upgrading'' ''Configuring'')
      None (freshState (memWith [] []))))
     redkeyOperationInProgress [''ns'', ''demo'', ''Upgrading''] = Some 1"
  using record_tracks_operation [OF mem_prom.prom_lib_axioms refl refl refl, of
      "redkeyWith ''Upgrading'' ''Configuring''" None "freshState (memWith [] [])"]
  by (simp add: inOperation_def status_names)

theorem operation_accounting_witness:
  "(\<Sum>res\<leftarrow>operationResults. countOf (world (observeAll memReconciler (''ns'', ''demo'')
       [(''Upgrading'', ''Configuring''), (''ScalingUp'', ''Configuring''), (''Ready'', ''Ready''),
        (''Upgrading'', ''Configuring'')] (freshState (memWith [] []))))
     redkeyOperationTotal [''ScalingUp'', res]) = 1"
proof -
  let ?obs = "[(''Upgrading'', ''Configuring''), (''ScalingUp'', ''Configuring''), (''Ready'', ''Ready''),
        (''Upgrading'', ''Configuring'')]"
  let ?s = "freshState (memWith [] [])"
  have "fmlookup (opActive ?s) (''ns'', ''demo'') = None" by simp
  note acc = operation_accounting [OF mem_prom.prom_lib_axioms this refl, of ?obs "''ScalingUp''"]
  have tracked: "map_option operation (fmlookup (opActive (observeAll memReconciler (''ns'', ''demo'') ?obs ?s))
      (''ns'', ''demo'')) = Some ''Upgrading''"
    by (simp add: opActive_observe inOperation_def status_names)
  have zero: "(\<Sum>res\<leftarrow>operationResults. countOf (world ?s) redkeyOperationTotal [''ScalingUp'', res]) = 0"
    by (simp add: operationResults_def countOf_def memWith_def)
  have starts: "opStarts ''ScalingUp'' [] (map fst ?obs) = 1"
    by (simp add: inOperation_def status_names)
  show ?thesis using acc unfolding tracked zero starts by simp
qed

theorem delete_removes_all_witness:
  "gaugeOf (world (deleteRedkeyMetrics memReconciler (''ns'', ''demo'')
     (recordRedkeyMetrics memReconciler (redkeyWith ''Upgrading'' ''Configuring'') None
       (freshState (memWith [] []))))) redkeyPhase [''ns'', ''demo'', ''Configuring''] = None"
  using delete_removes_all [OF mem_prom.prom_lib_axioms refl] by auto

theorem time_to_ready_per_entry_witness:
  "length (samplesOf (world (recordAll memReconciler
      [(redkeyWith ''Upgrading'' ''Configuring'', sampleConfig 1 ''InProgress'' ''Upgrading''),
       (redkeyWith ''Ready'' ''Ready'', sampleConfig 1 ''Applied'' ''Ready''),
       (redkeyWith ''Ready'' ''Ready'', sampleConfig 1 ''Applied'' ''Ready'')]
      (freshState (memWith [] [])))) redkeyTimeToReady []) = 1"
proof -
  let ?obs = "[(redkeyWith ''Upgrading'' ''Configuring'', sampleConfig 1 ''InProgress'' ''Upgrading''),
       (redkeyWith ''Ready'' ''Ready'', sampleConfig 1 ''Applied'' ''Ready''),
       (redkeyWith ''Ready'' ''Ready'', sampleConfig 1 ''Applied'' ''Ready'')]"
  have "\<forall>x \<in> set ?obs. NamespacedName (fst x) = (''ns'', ''demo'')" by simp
  from time_to_ready_per_entry [OF mem_prom.prom_lib_axioms this refl, of "freshState (memWith [] [])"]
  show ?thesis by (simp add: phaseBefore_def phase_names samplesOf_def memWith_def)
qed

end
