(* ===== verification/Robin.thy ===== *)
theory Robin
  imports Metrics
begin

section \<open>Robin's Deployment and RBAC (\<^verbatim>\<open>internal/controller/redkey_robin.go\<close>)\<close>

text \<open>
  The metadata and environment merging helpers, the desired Robin Deployment, drift detection,
  and the handlers that create or repair the ServiceAccount, Role, RoleBinding and Deployment.
\<close>

subsection \<open>Merging labels and annotations\<close>

definition SequenceAnnotation :: string where
  "SequenceAnnotation = ''redkey.inditex.dev/config-sequence''"

definition ClusterLabel :: string where
  "ClusterLabel = ''redkey.inditex.dev/cluster''"

definition ComponentLabel :: string where
  "ComponentLabel = ''redkey.inditex.dev/component''"

definition derefMap :: "gomap option \<Rightarrow> gomap" where
  "derefMap m = (case m of None \<Rightarrow> None | Some f \<Rightarrow> f)"

definition mergeMeta :: "gomap \<Rightarrow> gomap \<Rightarrow> gomap \<Rightarrow> gomap" where
  "mergeMeta spec override base =
     (let out = (if mapNonEmpty override then mapsCopy fmempty override else mapsCopy fmempty spec);
          out' = mapsCopy out base
      in if out' = fmempty then None else Some out')"

definition robinBaseLabels :: "Redkey \<Rightarrow> gomap" where
  "robinBaseLabels cluster =
     Some (fmap_of_list [(ClusterLabel, Name (rk_Meta cluster)), (ComponentLabel, ''robin'')])"

subsection \<open>Robin's permissions\<close>

definition DesiredRobinRules :: "PolicyRule list" where
  "DesiredRobinRules =
    [\<lparr>APIGroups = [''apps''], Resources = [''statefulsets''],
       Verbs = [''get'', ''list'', ''watch'', ''create'', ''update'', ''patch'', ''delete'']\<rparr>,
     \<lparr>APIGroups = [''''], Resources = [''services'', ''configmaps''],
       Verbs = [''get'', ''list'', ''watch'', ''create'', ''update'', ''patch'', ''delete'']\<rparr>,
     \<lparr>APIGroups = [''''], Resources = [''pods''],
       Verbs = [''get'', ''list'', ''watch'', ''delete'']\<rparr>,
     \<lparr>APIGroups = [''''], Resources = [''persistentvolumeclaims''], Verbs = [''list'', ''delete'']\<rparr>,
     \<lparr>APIGroups = [''policy''], Resources = [''poddisruptionbudgets''],
       Verbs = [''get'', ''list'', ''watch'', ''create'', ''update'', ''patch'', ''delete'']\<rparr>,
     \<lparr>APIGroups = [''''], Resources = [''secrets''], Verbs = [''get'']\<rparr>,
     \<lparr>APIGroups = [''redkey.inditex.dev''], Resources = [''redkeys''], Verbs = [''get'']\<rparr>,
     \<lparr>APIGroups = [''redkey.inditex.dev''], Resources = [''redkeyconfigs''],
       Verbs = [''get'', ''list'', ''watch'']\<rparr>,
     \<lparr>APIGroups = [''redkey.inditex.dev''], Resources = [''redkeyconfigs/status''],
       Verbs = [''update'', ''patch'']\<rparr>]"

subsection \<open>Environment variables\<close>

definition robinDefaultEnvVars :: "Redkey \<Rightarrow> EnvVar list" where
  "robinDefaultEnvVars cluster =
     [\<lparr>ev_Name = ''CLUSTER_NAME'', ev_Value = Name (rk_Meta cluster), ev_ValueFrom = None\<rparr>,
      \<lparr>ev_Name = ''NAMESPACE'', ev_Value = Namespace (rk_Meta cluster), ev_ValueFrom = None\<rparr>]"

text \<open>\<^verbatim>\<open>indexByName\<close> after the first loop: the last index of every name in \<^verbatim>\<open>merged\<close>.\<close>

fun indexByName :: "nat \<Rightarrow> EnvVar list \<Rightarrow> (string, nat) fmap \<Rightarrow> (string, nat) fmap" where
  "indexByName i [] idx = idx"
| "indexByName i (v # vs) idx = indexByName (Suc i) vs (fmupd (ev_Name v) i idx)"

fun mergeOverrides :: "EnvVar list \<Rightarrow> (string, nat) fmap \<Rightarrow> EnvVar list \<Rightarrow> EnvVar list" where
  "mergeOverrides merged idx [] = merged"
| "mergeOverrides merged idx (v # vs) =
     (case fmlookup idx (ev_Name v) of
        Some i \<Rightarrow> mergeOverrides (merged[i := v]) idx vs
      | None \<Rightarrow> mergeOverrides (merged @ [v]) (fmupd (ev_Name v) (length merged) idx) vs)"

definition mergeEnvVars :: "EnvVar list \<Rightarrow> EnvVar list \<Rightarrow> EnvVar list" where
  "mergeEnvVars base overrides = mergeOverrides base (indexByName 0 base fmempty) overrides"

subsection \<open>The desired Deployment\<close>

definition emptyResources :: ResourceRequirements where
  "emptyResources = \<lparr>Limits = None, Requests = None\<rparr>"

definition robinName :: "Redkey \<Rightarrow> string" where
  "robinName cluster = Name (rk_Meta cluster) @ ''-robin''"

definition robinBaseContainer :: "Redkey \<Rightarrow> Container" where
  "robinBaseContainer cluster =
     \<lparr>k_Name = ''robin'', k_Image = rob_Image (sp_Robin (rk_Spec cluster)),
      k_Args = [''--cluster-name=$(CLUSTER_NAME)'', ''--namespace=$(NAMESPACE)''],
      k_Env = robinDefaultEnvVars cluster, k_EnvFrom = [],
      k_Ports = [\<lparr>p_Name = ''metrics'', p_ContainerPort = 8080, p_Protocol = ''TCP''\<rparr>],
      k_Resources = (case rob_Resources (sp_Robin (rk_Spec cluster)) of
                       Some res \<Rightarrow> res | None \<Rightarrow> emptyResources),
      k_VolumeMounts = [], k_SecurityContext = None\<rparr>"

definition overrideContainer :: "Container \<Rightarrow> Container \<Rightarrow> Container" where
  "overrideContainer src c0 =
     (let c1 = (if k_Image src \<noteq> '''' then c0\<lparr>k_Image := k_Image src\<rparr> else c0);
          c2 = (if Limits (k_Resources src) \<noteq> None \<or> Requests (k_Resources src) \<noteq> None
                then c1\<lparr>k_Resources := k_Resources src\<rparr> else c1);
          c3 = (if k_Env src \<noteq> [] then c2\<lparr>k_Env := mergeEnvVars (k_Env c2) (k_Env src)\<rparr> else c2);
          c4 = (if k_EnvFrom src \<noteq> [] then c3\<lparr>k_EnvFrom := k_EnvFrom src\<rparr> else c3);
          c5 = (if k_VolumeMounts src \<noteq> [] then c4\<lparr>k_VolumeMounts := k_VolumeMounts src\<rparr> else c4)
      in if k_SecurityContext src \<noteq> None then c5\<lparr>k_SecurityContext := k_SecurityContext src\<rparr> else c5)"

definition robinContainer :: "Redkey \<Rightarrow> Container" where
  "robinContainer cluster =
     (let c0 = robinBaseContainer cluster in
      case rob_Template (sp_Robin (rk_Spec cluster)) of
        None \<Rightarrow> c0
      | Some tpl \<Rightarrow>
          (let c1 = (case pps_Containers (ppt_Spec tpl) of
                       [] \<Rightarrow> c0 | src # _ \<Rightarrow> overrideContainer src c0)
           in c1\<lparr>k_Env := mergeEnvVars (k_Env c1) (robinDefaultEnvVars cluster)\<rparr>))"

definition robinBasePodSpec :: "Redkey \<Rightarrow> PodSpec" where
  "robinBasePodSpec cluster =
     \<lparr>ps_ServiceAccountName = robinName cluster, ps_Containers = [], ps_NodeSelector = None,
      ps_Tolerations = [], ps_Affinity = None, ps_SecurityContext = None, ps_ImagePullSecrets = [],
      ps_PriorityClassName = '''', ps_TopologySpreadConstraints = [], ps_Volumes = []\<rparr>"

definition overridePodSpec :: "PartialPodSpec \<Rightarrow> PodSpec \<Rightarrow> PodSpec" where
  "overridePodSpec t p0 =
     (let p1 = (if mapNonEmpty (pps_NodeSelector t) then p0\<lparr>ps_NodeSelector := pps_NodeSelector t\<rparr> else p0);
          p2 = (if pps_Tolerations t \<noteq> [] then p1\<lparr>ps_Tolerations := pps_Tolerations t\<rparr> else p1);
          p3 = (if pps_Affinity t \<noteq> None then p2\<lparr>ps_Affinity := pps_Affinity t\<rparr> else p2);
          p4 = (if pps_SecurityContext t \<noteq> None
                then p3\<lparr>ps_SecurityContext := pps_SecurityContext t\<rparr> else p3);
          p5 = (if pps_ImagePullSecrets t \<noteq> []
                then p4\<lparr>ps_ImagePullSecrets := pps_ImagePullSecrets t\<rparr> else p4);
          p6 = (if pps_PriorityClassName t \<noteq> ''''
                then p5\<lparr>ps_PriorityClassName := pps_PriorityClassName t\<rparr> else p5);
          p7 = (if pps_TopologySpreadConstraints t \<noteq> []
                then p6\<lparr>ps_TopologySpreadConstraints := pps_TopologySpreadConstraints t\<rparr> else p6)
      in if pps_Volumes t \<noteq> [] then p7\<lparr>ps_Volumes := pps_Volumes t\<rparr> else p7)"

definition robinPodSpec :: "Redkey \<Rightarrow> PodSpec" where
  "robinPodSpec cluster =
     (let p0 = robinBasePodSpec cluster;
          p1 = (case rob_Template (sp_Robin (rk_Spec cluster)) of
                  None \<Rightarrow> p0 | Some tpl \<Rightarrow> overridePodSpec (ppt_Spec tpl) p0)
      in p1\<lparr>ps_Containers := [robinContainer cluster]\<rparr>)"

definition buildDesiredRobinDeployment :: "Redkey \<Rightarrow> Deployment" where
  "buildDesiredRobinDeployment cluster =
     (let baseLabels = robinBaseLabels cluster;
          specLabels = derefMap (sp_Labels (rk_Spec cluster));
          specAnnotations = derefMap (sp_Annotations (rk_Spec cluster));
          template = rob_Template (sp_Robin (rk_Spec cluster));
          tplLabels = (case template of None \<Rightarrow> None | Some tpl \<Rightarrow> Labels (ppt_Metadata tpl));
          tplAnnotations = (case template of None \<Rightarrow> None | Some tpl \<Rightarrow> Annotations (ppt_Metadata tpl))
      in \<lparr>d_Meta = emptyMeta\<lparr>Name := robinName cluster, Namespace := Namespace (rk_Meta cluster),
             Labels := mergeMeta specLabels None baseLabels,
             Annotations := mergeMeta specAnnotations None None\<rparr>,
          d_Replicas = Some 1,
          d_Selector = Some (fmap_of_list [(ClusterLabel, Name (rk_Meta cluster)), (ComponentLabel, ''robin'')]),
          d_Template = \<lparr>tpl_Labels = mergeMeta specLabels tplLabels baseLabels,
             tpl_Annotations = mergeMeta specAnnotations tplAnnotations None,
             tpl_Spec = robinPodSpec cluster\<rparr>\<rparr>)"

subsection \<open>Drift of the Deployment\<close>

definition stripManagedAnnotations :: "gomap \<Rightarrow> gomap" where
  "stripManagedAnnotations annotations =
     (case mapGet annotations deploymentRevisionAnnotation of
        None \<Rightarrow> annotations
      | Some _ \<Rightarrow>
          (let out = fmfilter (\<lambda>k. k \<noteq> deploymentRevisionAnnotation) (contents annotations)
           in if out = fmempty then None else Some out))"

definition preserveManagedAnnotations :: "gomap \<Rightarrow> gomap \<Rightarrow> gomap" where
  "preserveManagedAnnotations existing desired =
     (case mapGet existing deploymentRevisionAnnotation of
        None \<Rightarrow> desired
      | Some revision \<Rightarrow> Some (fmupd deploymentRevisionAnnotation revision (mapsCopy fmempty desired)))"

text \<open>
  The desired Deployment always has its replicas set, so the second dereference is of a non-nil
  pointer.
\<close>

definition robinDeploymentNeedsUpdate ::
  "('w, 'z) RedkeyReconciler_scheme \<Rightarrow> Deployment \<Rightarrow> Deployment \<Rightarrow> bool" where
  "robinDeploymentNeedsUpdate r existing desired \<longleftrightarrow>
     (d_Replicas existing = None \<or> d_Replicas existing \<noteq> d_Replicas desired) \<or>
     \<not> deepEqualMap r (Labels (d_Meta existing)) (Labels (d_Meta desired)) \<or>
     \<not> deepEqualMap r (stripManagedAnnotations (Annotations (d_Meta existing)))
          (Annotations (d_Meta desired)) \<or>
     \<not> deepEqualMap r (tpl_Labels (d_Template existing)) (tpl_Labels (d_Template desired)) \<or>
     \<not> deepEqualMap r (tpl_Annotations (d_Template existing)) (tpl_Annotations (d_Template desired)) \<or>
     \<not> deepDerivative r (tpl_Spec (d_Template desired)) (tpl_Spec (d_Template existing))"

definition driftPatch :: "Deployment \<Rightarrow> Deployment \<Rightarrow> Deployment" where
  "driftPatch existing desired =
     existing\<lparr>d_Meta := (d_Meta existing)\<lparr>Labels := Labels (d_Meta desired),
        Annotations := preserveManagedAnnotations (Annotations (d_Meta existing))
          (Annotations (d_Meta desired))\<rparr>,
       d_Replicas := d_Replicas desired, d_Template := d_Template desired\<rparr>"

definition ensureRobinDeployment ::
  "('w, 'z) RedkeyReconciler_scheme \<Rightarrow> Redkey \<Rightarrow> ('w, unit) io" where
  "ensureRobinDeployment r cluster =
     (let desired0 = buildDesiredRobinDeployment cluster in
      bindE (liftResult (setControllerReference r cluster (d_Meta desired0))) (\<lambda>meta.
      let desired = desired0\<lparr>d_Meta := meta\<rparr> in
      bindE (attemptE (kGet (deployments r) (Namespace meta, Name meta))) (\<lambda>res.
      case res of
        Inl e \<Rightarrow>
          if IsNotFound e then
            bindE (kCreate (deployments r) desired)
              (\<lambda>_. modifyE (counterInc r redkeyRobinDeploymentChanges [''create'']))
          else throwE e
      | Inr existing \<Rightarrow>
          if robinDeploymentNeedsUpdate r existing desired then
            bindE (kPatch (deployments r) existing (driftPatch existing desired))
              (\<lambda>_. modifyE (counterInc r redkeyRobinDeploymentChanges [''patch'']))
          else returnE ())))"

subsection \<open>RBAC\<close>

definition desiredServiceAccount :: "Redkey \<Rightarrow> ServiceAccount" where
  "desiredServiceAccount cluster =
     \<lparr>sa_Meta = emptyMeta\<lparr>Name := robinName cluster, Namespace := Namespace (rk_Meta cluster),
        Labels := mergeMeta (derefMap (sp_Labels (rk_Spec cluster))) None (robinBaseLabels cluster),
        Annotations := mergeMeta (derefMap (sp_Annotations (rk_Spec cluster))) None None\<rparr>\<rparr>"

definition desiredRole :: "Redkey \<Rightarrow> Role" where
  "desiredRole cluster =
     \<lparr>role_Meta = sa_Meta (desiredServiceAccount cluster), Rules = DesiredRobinRules\<rparr>"

definition desiredRoleBinding :: "Redkey \<Rightarrow> RoleBinding" where
  "desiredRoleBinding cluster =
     \<lparr>rb_Meta = sa_Meta (desiredServiceAccount cluster),
      Subjects = [\<lparr>sub_Kind = ''ServiceAccount'', sub_Name = robinName cluster,
                   sub_Namespace = Namespace (rk_Meta cluster)\<rparr>],
      RoleRefOf = \<lparr>rr_APIGroup = ''rbac.authorization.k8s.io'', rr_Kind = ''Role'',
                   rr_Name = robinName cluster\<rparr>\<rparr>"

definition metaDrift :: "('w, 'z) RedkeyReconciler_scheme \<Rightarrow> ObjectMeta \<Rightarrow> ObjectMeta \<Rightarrow> bool" where
  "metaDrift r existing desired \<longleftrightarrow>
     \<not> deepEqualMap r (Labels existing) (Labels desired) \<or>
     \<not> deepEqualMap r (Annotations existing) (Annotations desired)"

definition metaPatch :: "ObjectMeta \<Rightarrow> ObjectMeta \<Rightarrow> ObjectMeta" where
  "metaPatch existing desired =
     existing\<lparr>Labels := Labels desired, Annotations := Annotations desired\<rparr>"

definition ensureServiceAccount ::
  "('w, 'z) RedkeyReconciler_scheme \<Rightarrow> Redkey \<Rightarrow> nsname \<Rightarrow> ('w, unit) io" where
  "ensureServiceAccount r cluster key =
     (let desired0 = desiredServiceAccount cluster in
      bindE (liftResult (setControllerReference r cluster (sa_Meta desired0))) (\<lambda>meta.
      let desired = desired0\<lparr>sa_Meta := meta\<rparr> in
      bindE (attemptE (kGet (serviceAccounts r) key)) (\<lambda>res.
      case res of
        Inl e \<Rightarrow> if IsNotFound e then kCreate (serviceAccounts r) desired else throwE e
      | Inr existing \<Rightarrow>
          if metaDrift r (sa_Meta existing) (sa_Meta desired)
          then kPatch (serviceAccounts r) existing
                 (existing\<lparr>sa_Meta := metaPatch (sa_Meta existing) (sa_Meta desired)\<rparr>)
          else returnE ())))"

definition ensureRole ::
  "('w, 'z) RedkeyReconciler_scheme \<Rightarrow> Redkey \<Rightarrow> nsname \<Rightarrow> ('w, unit) io" where
  "ensureRole r cluster key =
     (let desired0 = desiredRole cluster in
      bindE (liftResult (setControllerReference r cluster (role_Meta desired0))) (\<lambda>meta.
      let desired = desired0\<lparr>role_Meta := meta\<rparr> in
      bindE (attemptE (kGet (roles r) key)) (\<lambda>res.
      case res of
        Inl e \<Rightarrow> if IsNotFound e then kCreate (roles r) desired else throwE e
      | Inr existing \<Rightarrow>
          if \<not> deepEqualRules r (Rules existing) (Rules desired) \<or>
             metaDrift r (role_Meta existing) (role_Meta desired)
          then kPatch (roles r) existing
                 (existing\<lparr>Rules := Rules desired,
                    role_Meta := metaPatch (role_Meta existing) (role_Meta desired)\<rparr>)
          else returnE ())))"

text \<open>The RoleRef of a RoleBinding is immutable, so a drifted one is deleted and created again.\<close>

definition ensureRoleBinding ::
  "('w, 'z) RedkeyReconciler_scheme \<Rightarrow> Redkey \<Rightarrow> nsname \<Rightarrow> ('w, unit) io" where
  "ensureRoleBinding r cluster key =
     (let desired0 = desiredRoleBinding cluster in
      bindE (liftResult (setControllerReference r cluster (rb_Meta desired0))) (\<lambda>meta.
      let desired = desired0\<lparr>rb_Meta := meta\<rparr> in
      bindE (attemptE (kGet (roleBindings r) key)) (\<lambda>res.
      case res of
        Inl e \<Rightarrow> if IsNotFound e then kCreate (roleBindings r) desired else throwE e
      | Inr existing \<Rightarrow>
          (let needsRecreate = (RoleRefOf existing \<noteq> RoleRefOf desired);
               needsPatch = (\<not> deepEqualSubjects r (Subjects existing) (Subjects desired) \<or>
                 metaDrift r (rb_Meta existing) (rb_Meta desired))
           in if needsRecreate then
                bindE (kDelete (roleBindings r) (metaKey (rb_Meta existing)))
                  (\<lambda>_. kCreate (roleBindings r) desired)
              else if needsPatch then
                kPatch (roleBindings r) existing
                  (existing\<lparr>Subjects := Subjects desired,
                     rb_Meta := metaPatch (rb_Meta existing) (rb_Meta desired)\<rparr>)
              else returnE ()))))"

definition ensureRBAC :: "('w, 'z) RedkeyReconciler_scheme \<Rightarrow> Redkey \<Rightarrow> ('w, unit) io" where
  "ensureRBAC r cluster =
     (let key = (Namespace (rk_Meta cluster), robinName cluster) in
      bindE (ensureServiceAccount r cluster key) (\<lambda>_.
      bindE (ensureRole r cluster key) (\<lambda>_.
      ensureRoleBinding r cluster key)))"

text \<open>\<^verbatim>\<open>createIfNotExists\<close>, for one kind of object.\<close>

definition createIfNotExists :: "('w, 'a) KindClient \<Rightarrow> ('a \<Rightarrow> nsname) \<Rightarrow> 'a \<Rightarrow> ('w, unit) io" where
  "createIfNotExists K key obj =
     bindE (attemptE (kGet K (key obj))) (\<lambda>res.
     case res of
       Inl e \<Rightarrow> if IsNotFound e then kCreate K obj else throwE e
     | Inr _ \<Rightarrow> returnE ())"

subsection \<open>Merging is by precedence\<close>

lemma derefMap_simps [simp]: "derefMap None = None" "derefMap (Some m) = m"
  by (simp_all add: derefMap_def)

lemma mapGet_mergeMeta [simp]:
  "mapGet (mergeMeta spec override base) k =
     (case mapGet base k of
        Some v \<Rightarrow> Some v
      | None \<Rightarrow> mapGet (if mapNonEmpty override then override else spec) k)"
proof -
  have "mapGet (if m = fmempty then None else Some m) k = fmlookup m k" for m
    by simp
  then show ?thesis
    by (auto simp: mergeMeta_def Let_def mapGet_def split: option.split)
qed

lemma mergeMeta_nil_iff:
  "mergeMeta spec override base = None \<longleftrightarrow> \<not> mapNonEmpty (mergeMeta spec override base)"
  by (simp add: mergeMeta_def Let_def)

text \<open>
  \<^verbatim>\<open>mergeMeta\<close>: the base entries win, then the whole override map when it is not empty (the
  spec map is then ignored), else the spec map; the result is nil exactly when all three are empty.
\<close>

theorem mergeMeta_precedence:
  "mapGet (mergeMeta spec override base) k =
     (case mapGet base k of
        Some v \<Rightarrow> Some v
      | None \<Rightarrow> if mapNonEmpty override then mapGet override k else mapGet spec k) \<and>
   (mergeMeta spec override base = None \<longleftrightarrow>
      \<not> mapNonEmpty base \<and> \<not> mapNonEmpty override \<and> \<not> mapNonEmpty spec)"
  by (auto simp: mergeMeta_nil_iff mapNonEmpty_iff split: option.splits)

subsection \<open>Merging environment variables\<close>

text \<open>The variable a container sees under a name: the last one of that name in the list.\<close>

definition envLookup :: "EnvVar list \<Rightarrow> string \<Rightarrow> EnvVar option" where
  "envLookup vs n = map_of (rev (map (\<lambda>v. (ev_Name v, v)) vs)) n"

lemma envLookup_simps [simp]:
  "envLookup [] n = None"
  "envLookup (vs @ [v]) n = (if ev_Name v = n then Some v else envLookup vs n)"
  by (simp_all add: envLookup_def)

lemma envLookup_Cons:
  "envLookup (v # vs) n = (case envLookup vs n of Some x \<Rightarrow> Some x | None \<Rightarrow> if ev_Name v = n then Some v else None)"
  by (simp add: envLookup_def map_add_def split: option.split)

text \<open>The index the code keeps: the last position of a name.\<close>

definition lastIndex :: "EnvVar list \<Rightarrow> string \<Rightarrow> nat option" where
  "lastIndex vs n = map_of (rev (zip (map ev_Name vs) [0..<length vs])) n"

lemma lastIndex_simps [simp]:
  "lastIndex [] n = None"
  "lastIndex (vs @ [v]) n = (if ev_Name v = n then Some (length vs) else lastIndex vs n)"
  by (simp_all add: lastIndex_def)

lemma lastIndex_SomeD: "lastIndex vs n = Some i \<Longrightarrow> i < length vs \<and> ev_Name (vs ! i) = n"
proof (induction vs rule: rev_induct)
  case (snoc v vs)
  then show ?case by (cases "ev_Name v = n") (auto simp: nth_append)
qed simp

lemma envLookup_lastIndex: "envLookup vs n = map_option ((!) vs) (lastIndex vs n)"
proof (induction vs rule: rev_induct)
  case (snoc v vs)
  show ?case
  proof (cases "lastIndex vs n")
    case None
    with snoc.IH show ?thesis by simp
  next
    case (Some i)
    then have "i < length vs" using lastIndex_SomeD by blast
    with snoc.IH Some show ?thesis by (simp add: nth_append)
  qed
qed simp

lemma lastIndex_names: "map ev_Name vs = map ev_Name us \<Longrightarrow> lastIndex vs n = lastIndex us n"
  unfolding lastIndex_def by (metis length_map)

lemma lastIndex_update:
  assumes "lastIndex vs (ev_Name v) = Some i"
  shows "lastIndex (vs[i := v]) n = lastIndex vs n"
proof (rule lastIndex_names)
  from lastIndex_SomeD [OF assms] show "map ev_Name (vs[i := v]) = map ev_Name vs"
    by (metis list_update_id map_update)
qed

lemma envLookup_update:
  assumes "lastIndex vs (ev_Name v) = Some i"
  shows "envLookup (vs[i := v]) n = (if ev_Name v = n then Some v else envLookup vs n)"
proof (cases "ev_Name v = n")
  case True
  with assms lastIndex_SomeD [OF assms] show ?thesis
    by (simp add: envLookup_lastIndex lastIndex_update)
next
  case False
  show ?thesis
  proof (cases "lastIndex vs n")
    case None
    with assms False show ?thesis by (simp add: envLookup_lastIndex lastIndex_update)
  next
    case (Some j)
    with lastIndex_SomeD [OF Some] lastIndex_SomeD [OF assms] False have "j \<noteq> i" by auto
    with Some assms False show ?thesis by (simp add: envLookup_lastIndex lastIndex_update)
  qed
qed

definition indexOk :: "EnvVar list \<Rightarrow> (string, nat) fmap \<Rightarrow> bool" where
  "indexOk vs idx \<longleftrightarrow> (\<forall>n. fmlookup idx n = lastIndex vs n)"

lemma indexOk_snoc: "indexOk vs idx \<Longrightarrow> indexOk (vs @ [v]) (fmupd (ev_Name v) (length vs) idx)"
  by (simp add: indexOk_def)

lemma indexByName_ok: "indexOk pre idx \<Longrightarrow> indexOk (pre @ vs) (indexByName (length pre) vs idx)"
proof (induction vs arbitrary: pre idx)
  case (Cons v vs)
  from Cons.IH [OF indexOk_snoc [OF Cons.prems]] show ?case by simp
qed simp

lemma indexOk_index: "indexOk base (indexByName 0 base fmempty)"
  using indexByName_ok [of "[]" fmempty base] by (simp add: indexOk_def)

lemma mergeOverrides_lookup:
  assumes "indexOk merged idx"
  shows "envLookup (mergeOverrides merged idx vs) n =
     (case envLookup vs n of Some v \<Rightarrow> Some v | None \<Rightarrow> envLookup merged n)"
  using assms
proof (induction merged idx vs rule: mergeOverrides.induct)
  case (2 merged idx v vs)
  show ?case
  proof (cases "fmlookup idx (ev_Name v)")
    case None
    from "2.IH"(1) [OF None indexOk_snoc [OF "2.prems"]] None show ?thesis
      by (simp add: envLookup_Cons split: option.split)
  next
    case (Some i)
    then have i: "lastIndex merged (ev_Name v) = Some i"
      using "2.prems" by (simp add: indexOk_def)
    with "2.prems" have "indexOk (merged[i := v]) idx" by (simp add: indexOk_def lastIndex_update)
    from "2.IH"(2) [OF Some this] Some envLookup_update [OF i] show ?thesis
      by (simp add: envLookup_Cons split: option.split)
  qed
qed simp

lemma lastIndex_None_iff: "lastIndex vs n = None \<longleftrightarrow> n \<notin> ev_Name ` set vs"
  by (induction vs rule: rev_induct) auto

text \<open>The names of the result: those of the base in their order, then each new name once.\<close>

lemma mergeOverrides_names:
  assumes "indexOk merged idx"
  shows "\<exists>new. map ev_Name (mergeOverrides merged idx vs) = map ev_Name merged @ new \<and>
     distinct new \<and> set new = ev_Name ` set vs - ev_Name ` set merged"
  using assms
proof (induction merged idx vs rule: mergeOverrides.induct)
  case (1 merged idx)
  then show ?case by simp
next
  case (2 merged idx v vs)
  show ?case
  proof (cases "fmlookup idx (ev_Name v)")
    case None
    then have "ev_Name v \<notin> ev_Name ` set merged"
      using "2.prems" by (simp add: indexOk_def lastIndex_None_iff)
    moreover obtain new where "map ev_Name (mergeOverrides (merged @ [v])
        (fmupd (ev_Name v) (length merged) idx) vs) = map ev_Name (merged @ [v]) @ new"
      and "distinct new" and "set new = ev_Name ` set vs - ev_Name ` set (merged @ [v])"
      using "2.IH"(1) [OF None indexOk_snoc [OF "2.prems"]] by blast
    ultimately show ?thesis
      using None by (intro exI [of _ "ev_Name v # new"]) auto
  next
    case (Some i)
    then have i: "lastIndex merged (ev_Name v) = Some i"
      using "2.prems" by (simp add: indexOk_def)
    with "2.prems" have ok: "indexOk (merged[i := v]) idx"
      by (simp add: indexOk_def lastIndex_update)
    from lastIndex_SomeD [OF i] have names: "map ev_Name (merged[i := v]) = map ev_Name merged"
      by (metis list_update_id map_update)
    then have names': "ev_Name ` set (merged[i := v]) = ev_Name ` set merged"
      by (metis set_map)
    from i have "ev_Name v \<in> ev_Name ` set merged"
      by (metis lastIndex_None_iff option.distinct(1))
    with "2.IH"(2) [OF Some ok] Some show ?thesis
      by (simp add: names names' insert_absorb insert_Diff_if)
  qed
qed

lemma envLookup_mergeEnvVars [simp]:
  "envLookup (mergeEnvVars base overrides) n =
     (case envLookup overrides n of Some v \<Rightarrow> Some v | None \<Rightarrow> envLookup base n)"
  by (simp add: mergeEnvVars_def mergeOverrides_lookup [OF indexOk_index])

text \<open>
  C28. \<^verbatim>\<open>mergeEnvVars\<close>, with its index map, is the merge by name: the overrides win over the base, the
  base keeps its order and is followed by each new name exactly once.
\<close>

theorem mergeEnvVars_lookup:
  "envLookup (mergeEnvVars base overrides) n =
     (case envLookup overrides n of Some v \<Rightarrow> Some v | None \<Rightarrow> envLookup base n) \<and>
   (\<exists>new. map ev_Name (mergeEnvVars base overrides) = map ev_Name base @ new \<and>
      distinct new \<and> set new = ev_Name ` set overrides - ev_Name ` set base)"
  by (simp add: mergeEnvVars_def mergeOverrides_lookup [OF indexOk_index]
      mergeOverrides_names [OF indexOk_index])

subsection \<open>The desired container and Deployment\<close>

definition reservedEnv :: "Redkey \<Rightarrow> string \<Rightarrow> string option" where
  "reservedEnv cluster n =
     (if n = ''CLUSTER_NAME'' then Some (Name (rk_Meta cluster))
      else if n = ''NAMESPACE'' then Some (Namespace (rk_Meta cluster)) else None)"

lemma envLookup_default:
  "envLookup (robinDefaultEnvVars cluster) n =
     map_option (\<lambda>v. \<lparr>ev_Name = n, ev_Value = v, ev_ValueFrom = None\<rparr>) (reservedEnv cluster n)"
  by (simp add: robinDefaultEnvVars_def envLookup_Cons reservedEnv_def)

lemma k_Env_overrideContainer:
  "k_Env (overrideContainer src c) = (if k_Env src = [] then k_Env c else mergeEnvVars (k_Env c) (k_Env src))"
  by (simp add: overrideContainer_def Let_def)

lemma k_Env_base: "k_Env (robinBaseContainer cluster) = robinDefaultEnvVars cluster"
  by (simp add: robinBaseContainer_def)

text \<open>The variables of the template's first container.\<close>

definition templateEnv :: "Redkey \<Rightarrow> EnvVar list" where
  "templateEnv cluster =
     (case rob_Template (sp_Robin (rk_Spec cluster)) of
        None \<Rightarrow> []
      | Some tpl \<Rightarrow> (case pps_Containers (ppt_Spec tpl) of [] \<Rightarrow> [] | src # _ \<Rightarrow> k_Env src))"

text \<open>
  C29. The Robin container sees the reserved variables \<^verbatim>\<open>CLUSTER_NAME\<close> and \<^verbatim>\<open>NAMESPACE\<close> with the
  cluster's own values whatever the template sets, and every other variable as the first container
  of the template sets it.
\<close>

theorem robin_env:
  "envLookup (k_Env (robinContainer cluster)) n =
     (case reservedEnv cluster n of
        Some v \<Rightarrow> Some \<lparr>ev_Name = n, ev_Value = v, ev_ValueFrom = None\<rparr>
      | None \<Rightarrow> envLookup (templateEnv cluster) n)"
  by (simp add: robinContainer_def templateEnv_def Let_def envLookup_default k_Env_overrideContainer
      k_Env_base split: option.split list.split)

lemma fmlookup_two: "fmlookup (fmap_of_list [(a, x), (b, y)]) k =
   (if k = a then Some x else if k = b then Some y else None)"
  by (simp add: fmlookup_of_list)

text \<open>
  The selector of the desired Deployment selects its own pods: every selector label is on the pod
  template and on the Deployment, whatever labels the user sets, and one replica is asked for.
\<close>

theorem robin_selector_matches:
  "fmpred (\<lambda>k v. mapGet (tpl_Labels (d_Template (buildDesiredRobinDeployment cluster))) k = Some v \<and>
      mapGet (Labels (d_Meta (buildDesiredRobinDeployment cluster))) k = Some v)
     (contents (d_Selector (buildDesiredRobinDeployment cluster))) \<and>
   mapGet (d_Selector (buildDesiredRobinDeployment cluster)) ClusterLabel = Some (Name (rk_Meta cluster)) \<and>
   d_Replicas (buildDesiredRobinDeployment cluster) = Some 1"
  by (auto simp: buildDesiredRobinDeployment_def Let_def robinBaseLabels_def fmpred_iff fmlookup_two
      split: if_splits)

subsection \<open>Drift\<close>

lemma contents_strip:
  "contents (stripManagedAnnotations a) = fmdrop deploymentRevisionAnnotation (contents a)"
proof -
  have "fmfilter (\<lambda>k. k \<noteq> deploymentRevisionAnnotation) m = fmdrop deploymentRevisionAnnotation m"
    for m :: strmap by (simp add: fmfilter_alt_defs)
  moreover have "fmdrop k m = m" if "fmlookup m k = None" for k and m :: strmap
    using that by (auto intro!: fmap_ext)
  ultimately show ?thesis
    by (auto simp: stripManagedAnnotations_def Let_def mapGet_def split: option.split)
qed

lemma mapGet_preserve:
  "mapGet (preserveManagedAnnotations existing desired) k =
     (if k = deploymentRevisionAnnotation \<and> mapGet existing k \<noteq> None then mapGet existing k
      else mapGet desired k)"
  by (cases "mapGet existing deploymentRevisionAnnotation")
    (auto simp: preserveManagedAnnotations_def split: option.split)

lemma contents_preserve:
  "fmdrop deploymentRevisionAnnotation (contents (preserveManagedAnnotations existing desired)) =
   fmdrop deploymentRevisionAnnotation (contents desired)"
  by (rule fmap_ext) (simp add: mapGet_preserve flip: mapGet_def)

text \<open>
  Preserving the controller's revision annotation and stripping it are inverse up to that
  annotation: the patch keeps the controller's revision and every desired annotation.
\<close>

lemma managed_annotations_roundtrip:
  "contents (stripManagedAnnotations (preserveManagedAnnotations existing desired)) =
     fmdrop deploymentRevisionAnnotation (contents desired) \<and>
   mapGet (preserveManagedAnnotations existing desired) k =
     (if k = deploymentRevisionAnnotation \<and> mapGet existing k \<noteq> None then mapGet existing k
      else mapGet desired k)"
  by (simp add: contents_strip contents_preserve mapGet_preserve)

lemma fmdrop_absent: "fmlookup m k = None \<Longrightarrow> fmdrop k m = m"
  by (auto intro!: fmap_ext)

lemma robinDeploymentNeedsUpdate_meta:
  "Labels m = Labels (d_Meta desired) \<Longrightarrow> Annotations m = Annotations (d_Meta desired) \<Longrightarrow>
   robinDeploymentNeedsUpdate r existing (desired\<lparr>d_Meta := m\<rparr>) =
   robinDeploymentNeedsUpdate r existing desired"
  by (simp add: robinDeploymentNeedsUpdate_def)

context semantic_equality
begin

text \<open>A Deployment without drift, up to what the server adds, is left alone.\<close>

lemma no_drift_stored:
  assumes "d_Replicas desired \<noteq> None"
    and "mapGet (Annotations (d_Meta desired)) deploymentRevisionAnnotation = None"
    and "Labels (d_Meta sent) = Labels (d_Meta desired)"
    and "fmdrop deploymentRevisionAnnotation (contents (Annotations (d_Meta sent))) =
      fmdrop deploymentRevisionAnnotation (contents (Annotations (d_Meta desired)))"
    and "d_Replicas sent = d_Replicas desired" and "d_Template sent = d_Template desired"
    and "storedDeployment (deepDerivative r) sent y"
  shows "\<not> robinDeploymentNeedsUpdate r y desired"
  using assms fmdrop_absent [of "contents (Annotations (d_Meta desired))" deploymentRevisionAnnotation]
  by (simp add: robinDeploymentNeedsUpdate_def storedDeployment_def deep_map contents_strip mapGet_def)

lemma drift_patch_no_drift:
  assumes "d_Replicas desired \<noteq> None"
    and "mapGet (Annotations (d_Meta desired)) deploymentRevisionAnnotation = None"
    and "storedDeployment (deepDerivative r) (driftPatch existing desired) y"
  shows "\<not> robinDeploymentNeedsUpdate r y desired"
  by (rule no_drift_stored [OF assms(1,2) _ _ _ _ assms(3)])
    (simp_all add: driftPatch_def contents_preserve)

lemma revision_is_drift:
  assumes "mapGet (Annotations (d_Meta desired)) deploymentRevisionAnnotation \<noteq> None"
  shows "robinDeploymentNeedsUpdate r existing desired"
proof -
  have "fmlookup (contents (stripManagedAnnotations (Annotations (d_Meta existing))))
      deploymentRevisionAnnotation = None"
    by (simp add: contents_strip)
  with assms have "contents (stripManagedAnnotations (Annotations (d_Meta existing))) \<noteq>
      contents (Annotations (d_Meta desired))"
    by (metis mapGet_def)
  then show ?thesis
    by (simp add: robinDeploymentNeedsUpdate_def deep_map)
qed

end

subsection \<open>Reading, creating or repairing one object\<close>

text \<open>The shape of the handlers for the ServiceAccount and the Role, and its rule.\<close>

definition getOrRepair ::
  "('w, 'a) KindClient \<Rightarrow> nsname \<Rightarrow> 'a \<Rightarrow> ('a \<Rightarrow> bool) \<Rightarrow> ('a \<Rightarrow> 'a) \<Rightarrow> ('w, unit) io" where
  "getOrRepair K k desired drift patched =
     bindE (attemptE (kGet K k)) (\<lambda>res.
     case res of
       Inl e \<Rightarrow> if IsNotFound e then kCreate K desired else throwE e
     | Inr x \<Rightarrow> if drift x then kPatch K x (patched x) else returnE ())"

context kind_api
begin

lemma wp_getOrRepair:
  assumes k: "key desired = k" "\<And>x. key (patched x) = key x"
    and keyed: "keyed key (proj (api w))"
    and create: "\<And>y w'. fmlookup (proj (api w)) k = None \<Longrightarrow> stored desired y \<Longrightarrow> key y = k \<Longrightarrow>
      api w' = upd (fmupd k y) (api w) \<Longrightarrow> Q () w'"
    and patch: "\<And>x y w'. fmlookup (proj (api w)) k = Some x \<Longrightarrow> drift x \<Longrightarrow> stored (patched x) y \<Longrightarrow>
      key y = k \<Longrightarrow> api w' = upd (fmupd k y) (api w) \<Longrightarrow> Q () w'"
    and same: "\<And>x w'. fmlookup (proj (api w)) k = Some x \<Longrightarrow> \<not> drift x \<Longrightarrow> api w' = api w \<Longrightarrow> Q () w'"
    and err: "\<And>e w'. outage \<Longrightarrow> api w' = api w \<Longrightarrow> E e w'"
  shows "wp (getOrRepair K k desired drift patched) Q E w"
  unfolding getOrRepair_def wp_simps
proof (rule wp_get)
  fix x w'
  assume w': "api w' = api w" and x: "fmlookup (proj (api w)) k = Some x"
  then have kx: "key (patched x) = k" using keyedD [OF keyed] k(2) by simp
  show "wp (case Inr x of Inl e \<Rightarrow> if IsNotFound e then kCreate K desired else throwE e
      | Inr x \<Rightarrow> if drift x then kPatch K x (patched x) else returnE ()) Q E w'"
  proof (cases "drift x")
    case True
    have "wp (kPatch K x (patched x)) Q E w'"
      by (rule wp_patch) (use kx x w' True patch [OF x True] err in \<open>auto\<close>)
    with True show ?thesis by simp
  next
    case False
    with same [OF x] w' show ?thesis by (simp add: wp_simps)
  qed
next
  fix e w'
  assume w': "api w' = api w" and "IsNotFound e" and none: "fmlookup (proj (api w)) k = None"
  have "wp (kCreate K desired) Q E w'"
    by (rule wp_create) (use k w' none create err in \<open>auto\<close>)
  with \<open>IsNotFound e\<close> show "wp (case Inl e of Inl e \<Rightarrow> if IsNotFound e then kCreate K desired else throwE e
      | Inr x \<Rightarrow> if drift x then kPatch K x (patched x) else returnE ()) Q E w'"
    by simp
qed (simp add: wp_simps err)

end

lemma ensureServiceAccount_eq:
  "ensureServiceAccount r cluster key =
     bindE (liftResult (setControllerReference r cluster (sa_Meta (desiredServiceAccount cluster)))) (\<lambda>m.
       getOrRepair (serviceAccounts r) key (desiredServiceAccount cluster\<lparr>sa_Meta := m\<rparr>)
         (\<lambda>x. metaDrift r (sa_Meta x) m) (\<lambda>x. x\<lparr>sa_Meta := metaPatch (sa_Meta x) m\<rparr>))"
  by (simp add: ensureServiceAccount_def getOrRepair_def Let_def cong: if_cong)

lemma ensureRole_eq:
  "ensureRole r cluster key =
     bindE (liftResult (setControllerReference r cluster (role_Meta (desiredRole cluster)))) (\<lambda>m.
       getOrRepair (roles r) key (desiredRole cluster\<lparr>role_Meta := m\<rparr>)
         (\<lambda>x. \<not> deepEqualRules r (Rules x) (Rules (desiredRole cluster)) \<or> metaDrift r (role_Meta x) m)
         (\<lambda>x. x\<lparr>Rules := Rules (desiredRole cluster), role_Meta := metaPatch (role_Meta x) m\<rparr>))"
  by (simp add: ensureRole_def getOrRepair_def Let_def cong: if_cong)

subsection \<open>The target of the RBAC handlers\<close>

definition metaOk :: "Redkey \<Rightarrow> ObjectMeta \<Rightarrow> bool" where
  "metaOk cluster m \<longleftrightarrow>
     contents (Labels m) =
       contents (mergeMeta (derefMap (sp_Labels (rk_Spec cluster))) None (robinBaseLabels cluster)) \<and>
     contents (Annotations m) =
       contents (mergeMeta (derefMap (sp_Annotations (rk_Spec cluster))) None None)"

abbreviation robinKey :: "Redkey \<Rightarrow> nsname" where
  "robinKey cluster \<equiv> (Namespace (rk_Meta cluster), robinName cluster)"

definition saOk :: "Redkey \<Rightarrow> store \<Rightarrow> bool" where
  "saOk cluster st \<longleftrightarrow>
     (\<exists>x. fmlookup (s_ServiceAccounts st) (robinKey cluster) = Some x \<and> metaOk cluster (sa_Meta x))"

definition roleOk :: "Redkey \<Rightarrow> store \<Rightarrow> bool" where
  "roleOk cluster st \<longleftrightarrow>
     (\<exists>x. fmlookup (s_Roles st) (robinKey cluster) = Some x \<and> metaOk cluster (role_Meta x) \<and>
        Rules x = DesiredRobinRules)"

definition bindingOk :: "Redkey \<Rightarrow> store \<Rightarrow> bool" where
  "bindingOk cluster st \<longleftrightarrow>
     (\<exists>x. fmlookup (s_RoleBindings st) (robinKey cluster) = Some x \<and> metaOk cluster (rb_Meta x) \<and>
        Subjects x = Subjects (desiredRoleBinding cluster) \<and>
        RoleRefOf x = RoleRefOf (desiredRoleBinding cluster))"

definition rbacOk :: "Redkey \<Rightarrow> store \<Rightarrow> bool" where
  "rbacOk cluster st \<longleftrightarrow> saOk cluster st \<and> roleOk cluster st \<and> bindingOk cluster st"

text \<open>What the RBAC handlers do not touch.\<close>

definition sameBut :: "store \<Rightarrow> store \<Rightarrow> bool" where
  "sameBut st st' \<longleftrightarrow> s_Redkeys st' = s_Redkeys st \<and> s_Configs st' = s_Configs st \<and>
     s_Deployments st' = s_Deployments st"

lemma desired_metas [simp]:
  "sa_Meta (desiredServiceAccount cluster) =
     emptyMeta\<lparr>Name := robinName cluster, Namespace := Namespace (rk_Meta cluster),
        Labels := mergeMeta (derefMap (sp_Labels (rk_Spec cluster))) None (robinBaseLabels cluster),
        Annotations := mergeMeta (derefMap (sp_Annotations (rk_Spec cluster))) None None\<rparr>"
  "role_Meta (desiredRole cluster) = sa_Meta (desiredServiceAccount cluster)"
  "rb_Meta (desiredRoleBinding cluster) = sa_Meta (desiredServiceAccount cluster)"
  "Rules (desiredRole cluster) = DesiredRobinRules"
  by (simp_all add: desiredServiceAccount_def desiredRole_def desiredRoleBinding_def)

lemma metaKey_metaPatch [simp]: "metaKey (metaPatch a b) = metaKey a"
  by (simp add: metaPatch_def)

subsection \<open>The handlers reach their target\<close>

lemma metaOk_same: "sameMeta m m' \<Longrightarrow> metaOk cluster m \<Longrightarrow> metaOk cluster m'"
  by (simp add: metaOk_def sameMeta_def)

context operator_libs
begin

lemma desired_ref:
  obtains m where "setControllerReference r cluster (sa_Meta (desiredServiceAccount cluster)) = Inr m"
    "metaKey m = robinKey cluster" "metaOk cluster m" "\<And>old. metaOk cluster (metaPatch old m)"
    "\<And>x. metaDrift r x m \<longleftrightarrow> \<not> metaOk cluster x"
proof -
  obtain m where m: "setControllerReference r cluster (sa_Meta (desiredServiceAccount cluster)) = Inr m"
    by (rule set_ref_fresh [of "sa_Meta (desiredServiceAccount cluster)"]) (simp_all add: emptyMeta_def)
  moreover note set_ref_fields [OF m]
  ultimately show ?thesis
    by (intro that [of m]) (simp_all add: metaKey_def metaOk_def metaPatch_def metaDrift_def deep_map)
qed

lemma wp_ensureServiceAccount:
  assumes wf: "wfStore (api w)"
    and step: "\<And>w'. saOk cluster (api w') \<Longrightarrow> wfStore (api w') \<Longrightarrow> s_Roles (api w') = s_Roles (api w) \<Longrightarrow>
      s_RoleBindings (api w') = s_RoleBindings (api w) \<Longrightarrow> sameBut (api w) (api w') \<Longrightarrow>
      (saOk cluster (api w) \<Longrightarrow> api w' = api w) \<Longrightarrow> Q () w'"
    and err: "\<And>e w'. outage \<Longrightarrow> api w' = api w \<Longrightarrow> E e w'"
  shows "wp (ensureServiceAccount r cluster (robinKey cluster)) Q E w"
proof -
  obtain m where m: "setControllerReference r cluster (sa_Meta (desiredServiceAccount cluster)) = Inr m"
    and ref: "metaKey m = robinKey cluster" "metaOk cluster m" "\<And>old. metaOk cluster (metaPatch old m)"
      "\<And>x. metaDrift r x m \<longleftrightarrow> \<not> metaOk cluster x" by (rule desired_ref [of cluster]) blast
  have "wp (getOrRepair (serviceAccounts r) (robinKey cluster) (desiredServiceAccount cluster\<lparr>sa_Meta := m\<rparr>)
      (\<lambda>x. metaDrift r (sa_Meta x) m) (\<lambda>x. x\<lparr>sa_Meta := metaPatch (sa_Meta x) m\<rparr>)) Q E w"
  proof (rule sa.wp_getOrRepair, goal_cases)
    case (4 y w')
    then show ?case
      using wf ref
      by (intro step) (auto simp: saOk_def wfStore_def storedServiceAccount_def sameBut_def metaOk_same)
  next
    case (5 x y w')
    then show ?case
      using wf ref
      by (intro step)
        (auto simp: saOk_def wfStore_def storedServiceAccount_def sameBut_def dest: metaOk_same)
  next
    case (6 x w')
    then show ?case
      using wf ref by (intro step) (auto simp: saOk_def sameBut_def)
  qed (use wf ref err in \<open>simp_all add: wfStore_def\<close>)
  with m show ?thesis by (simp add: ensureServiceAccount_eq wp_simps del: desired_metas)
qed

lemma wp_ensureRole:
  assumes wf: "wfStore (api w)"
    and step: "\<And>w'. roleOk cluster (api w') \<Longrightarrow> wfStore (api w') \<Longrightarrow>
      s_ServiceAccounts (api w') = s_ServiceAccounts (api w) \<Longrightarrow>
      s_RoleBindings (api w') = s_RoleBindings (api w) \<Longrightarrow> sameBut (api w) (api w') \<Longrightarrow>
      (roleOk cluster (api w) \<Longrightarrow> api w' = api w) \<Longrightarrow> Q () w'"
    and err: "\<And>e w'. outage \<Longrightarrow> api w' = api w \<Longrightarrow> E e w'"
  shows "wp (ensureRole r cluster (robinKey cluster)) Q E w"
proof -
  obtain m where m: "setControllerReference r cluster (sa_Meta (desiredServiceAccount cluster)) = Inr m"
    and ref: "metaKey m = robinKey cluster" "metaOk cluster m" "\<And>old. metaOk cluster (metaPatch old m)"
      "\<And>x. metaDrift r x m \<longleftrightarrow> \<not> metaOk cluster x" by (rule desired_ref [of cluster]) blast
  have "wp (getOrRepair (roles r) (robinKey cluster) (desiredRole cluster\<lparr>role_Meta := m\<rparr>)
      (\<lambda>x. \<not> deepEqualRules r (Rules x) (Rules (desiredRole cluster)) \<or> metaDrift r (role_Meta x) m)
      (\<lambda>x. x\<lparr>Rules := Rules (desiredRole cluster), role_Meta := metaPatch (role_Meta x) m\<rparr>)) Q E w"
  proof (rule role.wp_getOrRepair, goal_cases)
    case (4 y w')
    then show ?case
      using wf ref
      by (intro step) (auto simp: roleOk_def wfStore_def storedRole_def sameBut_def metaOk_same)
  next
    case (5 x y w')
    then show ?case
      using wf ref
      by (intro step)
        (auto simp: roleOk_def wfStore_def storedRole_def sameBut_def deep_rules dest: metaOk_same)
  next
    case (6 x w')
    then show ?case
      using wf ref by (intro step) (auto simp: roleOk_def sameBut_def deep_rules)
  qed (use wf ref err in \<open>simp_all add: wfStore_def\<close>)
  with m show ?thesis
    by (simp add: ensureRole_eq wp_simps desired_metas(2,4) del: desired_metas(1))
qed


text \<open>A binding written under Robin's name settles the binding and touches nothing else.\<close>

definition bindingStep :: "Redkey \<Rightarrow> store \<Rightarrow> store \<Rightarrow> bool" where
  "bindingStep cluster st st' \<longleftrightarrow> bindingOk cluster st' \<and> wfStore st' \<and>
     s_ServiceAccounts st' = s_ServiceAccounts st \<and> s_Roles st' = s_Roles st \<and> sameBut st st' \<and>
     (bindingOk cluster st \<longrightarrow> st' = st)"

lemma binding_settled:
  assumes "wfStore st" and "\<not> bindingOk cluster st"
    and "st' = st \<or> st' = s_RoleBindings_update (fmdrop (robinKey cluster)) st"
    and "metaKey (rb_Meta y) = robinKey cluster" and "metaOk cluster (rb_Meta y)"
    and "Subjects y = Subjects (desiredRoleBinding cluster)"
    and "RoleRefOf y = RoleRefOf (desiredRoleBinding cluster)"
  shows "bindingStep cluster st (s_RoleBindings_update (fmupd (robinKey cluster) y) st')"
  using assms by (auto simp: bindingStep_def bindingOk_def wfStore_def sameBut_def)

lemma wp_createBinding:
  assumes "wfStore (api w)" and "\<not> bindingOk cluster (api w)"
    and "api w' = api w \<or> api w' = s_RoleBindings_update (fmdrop (robinKey cluster)) (api w)"
    and "fmlookup (s_RoleBindings (api w')) (robinKey cluster) = None"
    and "metaKey m = robinKey cluster" and "metaOk cluster m"
    and step: "\<And>w''. bindingStep cluster (api w) (api w'') \<Longrightarrow> Q () w''"
    and err: "\<And>e w''. outage \<Longrightarrow> wfStore (api w'') \<Longrightarrow> sameBut (api w) (api w'') \<Longrightarrow>
      (bindingOk cluster (api w) \<Longrightarrow> api w'' = api w) \<Longrightarrow> E e w''"
  shows "wp (kCreate (roleBindings r) (desiredRoleBinding cluster\<lparr>rb_Meta := m\<rparr>)) Q E w'"
proof (rule rb.wp_create)
  fix y w''
  assume y: "storedRoleBinding (desiredRoleBinding cluster\<lparr>rb_Meta := m\<rparr>) y"
    and w'': "api w'' = s_RoleBindings_update
      (fmupd (metaKey (rb_Meta (desiredRoleBinding cluster\<lparr>rb_Meta := m\<rparr>))) y) (api w')"
  from y assms(5,6) have "metaKey (rb_Meta y) = robinKey cluster" "metaOk cluster (rb_Meta y)"
      "Subjects y = Subjects (desiredRoleBinding cluster)"
      "RoleRefOf y = RoleRefOf (desiredRoleBinding cluster)"
    by (auto simp: storedRoleBinding_def sameMeta_key dest: metaOk_same)
  from binding_settled [OF assms(1-3) this] w'' assms(5) show "Q () w''"
    by (intro step) simp
qed (use assms(1-5) err in \<open>auto simp: sameBut_def wfStore_def\<close>)

lemma wp_repairBinding:
  assumes wf: "wfStore (api w)" and w': "api w' = api w"
    and x: "fmlookup (s_RoleBindings (api w)) (robinKey cluster) = Some x"
    and m: "metaKey m = robinKey cluster" "metaOk cluster m" "\<And>old. metaOk cluster (metaPatch old m)"
      "\<And>x. metaDrift r x m \<longleftrightarrow> \<not> metaOk cluster x"
    and desired: "desired = desiredRoleBinding cluster\<lparr>rb_Meta := m\<rparr>"
    and step: "\<And>w''. bindingStep cluster (api w) (api w'') \<Longrightarrow> Q () w''"
    and err: "\<And>e w''. outage \<Longrightarrow> wfStore (api w'') \<Longrightarrow> sameBut (api w) (api w'') \<Longrightarrow>
      (bindingOk cluster (api w) \<Longrightarrow> api w'' = api w) \<Longrightarrow> E e w''"
  shows "wp (if RoleRefOf x \<noteq> RoleRefOf desired
      then bindE (kDelete (roleBindings r) (metaKey (rb_Meta x))) (\<lambda>_. kCreate (roleBindings r) desired)
      else if \<not> deepEqualSubjects r (Subjects x) (Subjects desired) \<or> metaDrift r (rb_Meta x) m
      then kPatch (roleBindings r) x
        (x\<lparr>Subjects := Subjects desired, rb_Meta := metaPatch (rb_Meta x) m\<rparr>)
      else returnE ()) Q E w'"
proof -
  from wf x have kx: "metaKey (rb_Meta x) = robinKey cluster"
    by (auto simp: wfStore_def dest: keyedD)
  show ?thesis
  proof (cases "bindingOk cluster (api w)")
    case True
    with x m w' wf show ?thesis
      by (auto simp: bindingOk_def desired deep_subjects wp_simps bindingStep_def sameBut_def intro!: step)
  next
    case False
    have "wp (bindE (kDelete (roleBindings r) (metaKey (rb_Meta x)))
        (\<lambda>_. kCreate (roleBindings r) desired)) Q E w'"
      unfolding wp_bindE desired
      by (rule rb.wp_delete, rule wp_createBinding [OF wf False _ _ m(1,2)])
        (use kx x w' wf step err in \<open>auto simp: sameBut_def\<close>)
    moreover have "wp (kPatch (roleBindings r) x
        (x\<lparr>Subjects := Subjects desired, rb_Meta := metaPatch (rb_Meta x) m\<rparr>)) Q E w'"
      if "RoleRefOf x = RoleRefOf desired"
    proof (rule rb.wp_patch)
      fix y w''
      assume "storedRoleBinding (x\<lparr>Subjects := Subjects desired, rb_Meta := metaPatch (rb_Meta x) m\<rparr>) y"
        and w'': "api w'' = s_RoleBindings_update (fmupd (metaKey (rb_Meta
          (x\<lparr>Subjects := Subjects desired, rb_Meta := metaPatch (rb_Meta x) m\<rparr>))) y) (api w')"
      with that kx metaOk_same [OF _ m(3)] have "metaKey (rb_Meta y) = robinKey cluster"
        "metaOk cluster (rb_Meta y)" "Subjects y = Subjects (desiredRoleBinding cluster)"
        "RoleRefOf y = RoleRefOf (desiredRoleBinding cluster)"
        by (auto simp: storedRoleBinding_def sameMeta_key desired)
      from binding_settled [OF wf False _ this, of "api w"] w'' w' kx show "Q () w''"
        by (intro step) simp
    qed (use kx x w' wf err in \<open>auto simp: sameBut_def\<close>)
    ultimately show ?thesis
      using False x m by (auto simp: bindingOk_def desired deep_subjects)
  qed
qed

lemma wp_ensureRoleBinding:
  assumes wf: "wfStore (api w)"
    and step: "\<And>w'. bindingStep cluster (api w) (api w') \<Longrightarrow> Q () w'"
    and err: "\<And>e w'. outage \<Longrightarrow> wfStore (api w') \<Longrightarrow> sameBut (api w) (api w') \<Longrightarrow>
      (bindingOk cluster (api w) \<Longrightarrow> api w' = api w) \<Longrightarrow> E e w'"
  shows "wp (ensureRoleBinding r cluster (robinKey cluster)) Q E w"
proof -
  obtain m where m: "setControllerReference r cluster (sa_Meta (desiredServiceAccount cluster)) = Inr m"
    and ref: "metaKey m = robinKey cluster" "metaOk cluster m" "\<And>old. metaOk cluster (metaPatch old m)"
      "\<And>x. metaDrift r x m \<longleftrightarrow> \<not> metaOk cluster x" by (rule desired_ref [of cluster]) blast
  define desired where "desired = desiredRoleBinding cluster\<lparr>rb_Meta := m\<rparr>"
  have "wp (kGet (roleBindings r) (robinKey cluster))
        (\<lambda>x. wp (if RoleRefOf x \<noteq> RoleRefOf desired
            then bindE (kDelete (roleBindings r) (metaKey (rb_Meta x))) (\<lambda>_. kCreate (roleBindings r) desired)
            else if \<not> deepEqualSubjects r (Subjects x) (Subjects desired) \<or> metaDrift r (rb_Meta x) m
            then kPatch (roleBindings r) x
              (x\<lparr>Subjects := Subjects desired, rb_Meta := metaPatch (rb_Meta x) m\<rparr>)
            else returnE ()) Q E)
        (\<lambda>e. wp (if IsNotFound e then kCreate (roleBindings r) desired else throwE e) Q E) w"
  proof (rule rb.wp_get)
    fix e w' assume w': "api w' = api w" and "IsNotFound e"
      and none: "fmlookup (s_RoleBindings (api w)) (robinKey cluster) = None"
    then have "wp (kCreate (roleBindings r) desired) Q E w'"
      unfolding desired_def
      by (intro wp_createBinding [OF wf _ _ _ ref(1,2)]) (auto simp: bindingOk_def intro: step err)
    with \<open>IsNotFound e\<close>
    show "wp (if IsNotFound e then kCreate (roleBindings r) desired else throwE e) Q E w'" by simp
  next
    fix x w'
    assume "api w' = api w" and "fmlookup (s_RoleBindings (api w)) (robinKey cluster) = Some x"
    then show "wp (if RoleRefOf x \<noteq> RoleRefOf desired
            then bindE (kDelete (roleBindings r) (metaKey (rb_Meta x))) (\<lambda>_. kCreate (roleBindings r) desired)
            else if \<not> deepEqualSubjects r (Subjects x) (Subjects desired) \<or> metaDrift r (rb_Meta x) m
            then kPatch (roleBindings r) x
              (x\<lparr>Subjects := Subjects desired, rb_Meta := metaPatch (rb_Meta x) m\<rparr>)
            else returnE ()) Q E w'"
      by (rule wp_repairBinding [OF wf _ _ ref desired_def]) (auto intro: step err)
  qed (use wf err in \<open>simp add: wp_throwE sameBut_def\<close>)
  with m show ?thesis
    by (simp add: ensureRoleBinding_def Let_def wp_simps desired_def desired_metas(3)
        del: desired_metas(1) cong: if_cong)
qed


lemma wp_ensureRBAC:
  assumes wf: "wfStore (api w)"
    and step: "\<And>w'. rbacOk cluster (api w') \<Longrightarrow> wfStore (api w') \<Longrightarrow> sameBut (api w) (api w') \<Longrightarrow>
      (rbacOk cluster (api w) \<Longrightarrow> api w' = api w) \<Longrightarrow> Q () w'"
    and err: "\<And>e w'. outage \<Longrightarrow> wfStore (api w') \<Longrightarrow> sameBut (api w) (api w') \<Longrightarrow>
      (rbacOk cluster (api w) \<Longrightarrow> api w' = api w) \<Longrightarrow> E e w'"
  shows "wp (ensureRBAC r cluster) Q E w"
  unfolding ensureRBAC_def Let_def wp_simps
proof (rule wp_ensureServiceAccount [OF wf])
  fix w1
  assume 1: "saOk cluster (api w1)" "wfStore (api w1)" "s_Roles (api w1) = s_Roles (api w)"
    "s_RoleBindings (api w1) = s_RoleBindings (api w)" "sameBut (api w) (api w1)"
    "saOk cluster (api w) \<Longrightarrow> api w1 = api w"
  show "wp (ensureRole r cluster (robinKey cluster))
      (\<lambda>_. wp (ensureRoleBinding r cluster (robinKey cluster)) Q E) E w1"
  proof (rule wp_ensureRole [OF 1(2)])
    fix w2
    assume 2: "roleOk cluster (api w2)" "wfStore (api w2)"
      "s_ServiceAccounts (api w2) = s_ServiceAccounts (api w1)"
      "s_RoleBindings (api w2) = s_RoleBindings (api w1)" "sameBut (api w1) (api w2)"
      "roleOk cluster (api w1) \<Longrightarrow> api w2 = api w1"
    show "wp (ensureRoleBinding r cluster (robinKey cluster)) Q E w2"
    proof (rule wp_ensureRoleBinding [OF 2(2)])
      fix w3
      assume "bindingStep cluster (api w2) (api w3)"
      then show "Q () w3"
        using 1 2 by (intro step) (auto simp: bindingStep_def rbacOk_def saOk_def roleOk_def sameBut_def)
    qed (use 1 2 in \<open>auto simp: rbacOk_def sameBut_def intro!: err\<close>)
  qed (use 1 in \<open>auto simp: rbacOk_def intro!: err\<close>)
qed (use wf in \<open>auto simp: sameBut_def intro!: err\<close>)

end

subsection \<open>The Deployment handler\<close>

definition deploymentOk :: "('w, 'z) RedkeyReconciler_scheme \<Rightarrow> Redkey \<Rightarrow> store \<Rightarrow> bool" where
  "deploymentOk r cluster st \<longleftrightarrow>
     (\<exists>d. fmlookup (s_Deployments st) (robinKey cluster) = Some d \<and>
        \<not> robinDeploymentNeedsUpdate r d (buildDesiredRobinDeployment cluster))"

text \<open>What the Deployment handler does not touch.\<close>

definition onlyDeployment :: "Redkey \<Rightarrow> store \<Rightarrow> store \<Rightarrow> bool" where
  "onlyDeployment cluster st st' \<longleftrightarrow>
     st' = st \<or> (\<exists>d. st' = s_Deployments_update (fmupd (robinKey cluster) d) st)"

lemma desired_deployment [simp]:
  "Name (d_Meta (buildDesiredRobinDeployment cluster)) = robinName cluster"
  "Namespace (d_Meta (buildDesiredRobinDeployment cluster)) = Namespace (rk_Meta cluster)"
  "OwnerReferences (d_Meta (buildDesiredRobinDeployment cluster)) = []"
  "d_Replicas (buildDesiredRobinDeployment cluster) = Some 1"
  "Annotations (d_Meta (buildDesiredRobinDeployment cluster)) =
     mergeMeta (derefMap (sp_Annotations (rk_Spec cluster))) None None"
  by (simp_all add: buildDesiredRobinDeployment_def Let_def emptyMeta_def)

lemma metaKey_driftPatch [simp]: "metaKey (d_Meta (driftPatch a b)) = metaKey (d_Meta a)"
  by (simp add: driftPatch_def)

definition deploymentStep ::
  "('w, 'z) RedkeyReconciler_scheme \<Rightarrow> Redkey \<Rightarrow> store \<Rightarrow> store \<Rightarrow> bool" where
  "deploymentStep r cluster st st' \<longleftrightarrow> deploymentOk r cluster st' \<and> wfStore st' \<and> onlyDeployment cluster st st' \<and>
     (deploymentOk r cluster st \<longrightarrow> st' = st)"

context operator_libs
begin

text \<open>The desired Deployment with its owner: what is stored of it, or of a patch with it, shows no drift.\<close>

lemma desired_deployment_ref:
  assumes "mapGet (derefMap (sp_Annotations (rk_Spec cluster))) deploymentRevisionAnnotation = None"
  obtains m where "setControllerReference r cluster (d_Meta (buildDesiredRobinDeployment cluster)) = Inr m"
    "metaKey m = robinKey cluster"
    "\<And>x. robinDeploymentNeedsUpdate r x (buildDesiredRobinDeployment cluster\<lparr>d_Meta := m\<rparr>) =
       robinDeploymentNeedsUpdate r x (buildDesiredRobinDeployment cluster)"
    "\<And>y. storedDeployment (deepDerivative r) (buildDesiredRobinDeployment cluster\<lparr>d_Meta := m\<rparr>) y \<Longrightarrow>
       \<not> robinDeploymentNeedsUpdate r y (buildDesiredRobinDeployment cluster)"
    "\<And>x y. storedDeployment (deepDerivative r) (driftPatch x (buildDesiredRobinDeployment cluster\<lparr>d_Meta := m\<rparr>)) y \<Longrightarrow>
       \<not> robinDeploymentNeedsUpdate r y (buildDesiredRobinDeployment cluster)"
proof -
  define d0 where "d0 = buildDesiredRobinDeployment cluster"
  obtain m where m: "setControllerReference r cluster (d_Meta d0) = Inr m"
    by (rule set_ref_fresh [of "d_Meta d0"]) (simp_all add: d0_def)
  have mf: "metaKey m = robinKey cluster" "Labels m = Labels (d_Meta d0)" "Annotations m = Annotations (d_Meta d0)"
    using set_ref_fields [OF m] by (simp_all add: metaKey_def d0_def)
  have need: "robinDeploymentNeedsUpdate r x (d0\<lparr>d_Meta := m\<rparr>) = robinDeploymentNeedsUpdate r x d0" for x
    using mf by (simp add: robinDeploymentNeedsUpdate_meta)
  moreover have "\<not> robinDeploymentNeedsUpdate r y d0"
    if "storedDeployment (deepDerivative r) (d0\<lparr>d_Meta := m\<rparr>) y" for y
    unfolding need [symmetric]
    by (rule no_drift_stored [OF _ _ _ _ _ _ that]) (use assms mf in \<open>simp_all add: d0_def\<close>)
  moreover have "\<not> robinDeploymentNeedsUpdate r y d0"
    if "storedDeployment (deepDerivative r) (driftPatch x (d0\<lparr>d_Meta := m\<rparr>)) y" for x y
    unfolding need [symmetric]
    by (rule drift_patch_no_drift [OF _ _ that]) (use assms mf in \<open>simp_all add: d0_def\<close>)
  ultimately show ?thesis using that m mf(1) unfolding d0_def by blast
qed

text \<open>A Deployment written under Robin's name that shows no drift settles it and touches nothing else.\<close>

lemma deployment_settled:
  assumes "wfStore st" and "\<not> deploymentOk r cluster st" and "metaKey (d_Meta y) = robinKey cluster"
    and "\<not> robinDeploymentNeedsUpdate r y (buildDesiredRobinDeployment cluster)"
  shows "deploymentStep r cluster st (s_Deployments_update (fmupd (robinKey cluster) y) st)"
  using assms by (auto simp: deploymentStep_def deploymentOk_def wfStore_def onlyDeployment_def)

lemma wp_createDeployment:
  assumes "wfStore (api w)" and "api w' = api w" and "fmlookup (s_Deployments (api w)) (robinKey cluster) = None"
    and "metaKey (d_Meta desired) = robinKey cluster"
    and "\<And>y. storedDeployment (deepDerivative r) desired y \<Longrightarrow>
      \<not> robinDeploymentNeedsUpdate r y (buildDesiredRobinDeployment cluster)"
    and step: "\<And>w''. deploymentStep r cluster (api w) (api w'') \<Longrightarrow> Q () w''"
    and err: "\<And>e w''. outage \<Longrightarrow> api w'' = api w \<Longrightarrow> E e w''"
  shows "wp (bindE (kCreate (deployments r) desired) (\<lambda>_. modifyE (counterInc r v ls))) Q E w'"
  unfolding wp_bindE
proof (rule dep.wp_create, goal_cases)
  case (1 y w'')
  then have "metaKey (d_Meta y) = robinKey cluster"
    using assms(4) by (auto simp: storedDeployment_def sameMeta_key)
  from deployment_settled [OF assms(1) _ this assms(5) [OF 1(2)]] 1 assms(2-4) show ?case
    by (auto simp: wp_modifyE deploymentOk_def intro!: step)
qed (use assms(2-4) err in auto)

lemma wp_patchDeployment:
  assumes "wfStore (api w)" and "api w' = api w" and x: "fmlookup (s_Deployments (api w)) (robinKey cluster) = Some x"
    and drift: "robinDeploymentNeedsUpdate r x (buildDesiredRobinDeployment cluster)"
    and "\<And>y. storedDeployment (deepDerivative r) (driftPatch x desired) y \<Longrightarrow>
      \<not> robinDeploymentNeedsUpdate r y (buildDesiredRobinDeployment cluster)"
    and step: "\<And>w''. deploymentStep r cluster (api w) (api w'') \<Longrightarrow> Q () w''"
    and err: "\<And>e w''. outage \<Longrightarrow> api w'' = api w \<Longrightarrow> E e w''"
  shows "wp (bindE (kPatch (deployments r) x (driftPatch x desired)) (\<lambda>_. modifyE (counterInc r v ls))) Q E w'"
proof -
  have kx: "metaKey (d_Meta x) = robinKey cluster" using assms(1) x by (auto simp: wfStore_def dest: keyedD)
  have "\<not> deploymentOk r cluster (api w)" using x drift by (simp add: deploymentOk_def)
  note settled = deployment_settled [OF assms(1) this _ assms(5)]
  show ?thesis
    unfolding wp_bindE
    by (rule dep.wp_patch)
      (use assms(2) x kx settled err in \<open>auto simp: wp_modifyE storedDeployment_def sameMeta_key intro!: step\<close>)
qed

lemma wp_ensureRobinDeployment:
  assumes wf: "wfStore (api w)"
    and norev: "mapGet (derefMap (sp_Annotations (rk_Spec cluster))) deploymentRevisionAnnotation = None"
    and step: "\<And>w'. deploymentOk r cluster (api w') \<Longrightarrow> wfStore (api w') \<Longrightarrow>
      onlyDeployment cluster (api w) (api w') \<Longrightarrow> (deploymentOk r cluster (api w) \<Longrightarrow> api w' = api w) \<Longrightarrow> Q () w'"
    and err: "\<And>e w'. outage \<Longrightarrow> api w' = api w \<Longrightarrow> E e w'"
  shows "wp (ensureRobinDeployment r cluster) Q E w"
proof -
  define d0 where "d0 = buildDesiredRobinDeployment cluster"
  obtain m where m: "setControllerReference r cluster (d_Meta d0) = Inr m" "metaKey m = robinKey cluster"
    "\<And>x. robinDeploymentNeedsUpdate r x (d0\<lparr>d_Meta := m\<rparr>) = robinDeploymentNeedsUpdate r x d0"
    "\<And>y. storedDeployment (deepDerivative r) (d0\<lparr>d_Meta := m\<rparr>) y \<Longrightarrow> \<not> robinDeploymentNeedsUpdate r y d0"
    "\<And>x y. storedDeployment (deepDerivative r) (driftPatch x (d0\<lparr>d_Meta := m\<rparr>)) y \<Longrightarrow>
       \<not> robinDeploymentNeedsUpdate r y d0"
    unfolding d0_def by (rule desired_deployment_ref [OF norev]) blast
  have settle: "Q () w'" if "deploymentStep r cluster (api w) (api w')" for w'
    using that by (auto simp: deploymentStep_def intro!: step)
  have "wp (kGet (deployments r) (robinKey cluster))
      (\<lambda>x. wp (if robinDeploymentNeedsUpdate r x d0
          then bindE (kPatch (deployments r) x (driftPatch x (d0\<lparr>d_Meta := m\<rparr>)))
            (\<lambda>_. modifyE (counterInc r redkeyRobinDeploymentChanges [''patch'']))
          else returnE ()) Q E)
      (\<lambda>e. wp (if IsNotFound e then bindE (kCreate (deployments r) (d0\<lparr>d_Meta := m\<rparr>))
            (\<lambda>_. modifyE (counterInc r redkeyRobinDeploymentChanges [''create'']))
          else throwE e) Q E) w"
  proof (rule dep.wp_get, goal_cases)
    case (1 x w')
    have "wp (bindE (kPatch (deployments r) x (driftPatch x (d0\<lparr>d_Meta := m\<rparr>)))
        (\<lambda>_. modifyE (counterInc r v ls))) Q E w'" if "robinDeploymentNeedsUpdate r x d0" for v ls
      by (rule wp_patchDeployment [OF wf 1(1,2) that [unfolded d0_def] m(5) [unfolded d0_def]])
        (simp_all add: d0_def settle err)
    with 1 wf show ?case
      by (auto simp: wp_returnE deploymentStep_def deploymentOk_def onlyDeployment_def d0_def intro!: settle)
  next
    case (2 e w')
    have "wp (bindE (kCreate (deployments r) (d0\<lparr>d_Meta := m\<rparr>)) (\<lambda>_. modifyE (counterInc r v ls))) Q E w'" for v ls
      by (rule wp_createDeployment [OF wf 2(1,3) _ m(4) [unfolded d0_def]]) (simp_all add: d0_def m(2) settle err)
    with 2 show ?case by simp
  qed (simp add: wp_simps err)
  moreover have "(Namespace m, Name m) = robinKey cluster" using m(2) by (simp add: metaKey_def)
  ultimately show ?thesis
    using m(1,3) by (simp add: ensureRobinDeployment_def Let_def wp_simps d0_def cong: if_cong)
qed

end

subsection \<open>Properties of the handlers\<close>



text \<open>
  C17. \<^verbatim>\<open>ensureRobinDeployment\<close> converges when the user does not annotate the cluster with the
  Deployment controller's revision: on success the stored Deployment shows no drift, so the next
  reconcile writes nothing, and only that Deployment has changed; a failure changes nothing.
\<close>

theorem ensureRobinDeployment_converges:
  assumes "operator_libs r api outage" and "wfStore (api w)"
    and "mapGet (derefMap (sp_Annotations (rk_Spec cluster))) deploymentRevisionAnnotation = None"
  shows "wp (ensureRobinDeployment r cluster)
    (\<lambda>_ w'. deploymentOk r cluster (api w') \<and> wfStore (api w') \<and>
       onlyDeployment cluster (api w) (api w') \<and>
       (deploymentOk r cluster (api w) \<longrightarrow> api w' = api w))
    (\<lambda>_ w'. outage \<and> api w' = api w) w"
  by (rule operator_libs.wp_ensureRobinDeployment [OF assms]) blast+

theorem ensureRobinDeployment_converges_witness:
  "wp (ensureRobinDeployment memReconciler sampleRedkey)
    (\<lambda>_ w'. deploymentOk memReconciler sampleRedkey (m_Store w') \<and> wfStore (m_Store w') \<and>
       onlyDeployment sampleRedkey (m_Store (memWith [sampleRedkey] [])) (m_Store w') \<and>
       (deploymentOk memReconciler sampleRedkey (m_Store (memWith [sampleRedkey] [])) \<longrightarrow>
          m_Store w' = m_Store (memWith [sampleRedkey] [])))
    (\<lambda>_ w'. False \<and> m_Store w' = m_Store (memWith [sampleRedkey] [])) (memWith [sampleRedkey] [])"
  by (rule ensureRobinDeployment_converges [OF mem_libs.operator_libs_axioms])
    (simp_all add: sampleSpec_def)



subsection \<open>Removed pod-level overrides\<close>

definition clearPodOverrides :: "PartialPodTemplateSpec \<Rightarrow> PartialPodTemplateSpec" where
  "clearPodOverrides t = t\<lparr>ppt_Spec := (ppt_Spec t)\<lparr>pps_NodeSelector := None, pps_Tolerations := [],
     pps_Affinity := None, pps_SecurityContext := None, pps_ImagePullSecrets := [],
     pps_PriorityClassName := [], pps_TopologySpreadConstraints := [], pps_Volumes := []\<rparr>\<rparr>"

definition withoutPodOverrides :: "Redkey \<Rightarrow> Redkey" where
  "withoutPodOverrides cluster =
     cluster\<lparr>rk_Spec := (rk_Spec cluster)\<lparr>sp_Robin := (sp_Robin (rk_Spec cluster))\<lparr>rob_Template :=
       map_option clearPodOverrides (rob_Template (sp_Robin (rk_Spec cluster)))\<rparr>\<rparr>\<rparr>"

lemma withoutPodOverrides_sel [simp]:
  "rk_Meta (withoutPodOverrides cluster) = rk_Meta cluster"
  "sp_Labels (rk_Spec (withoutPodOverrides cluster)) = sp_Labels (rk_Spec cluster)"
  "sp_Annotations (rk_Spec (withoutPodOverrides cluster)) = sp_Annotations (rk_Spec cluster)"
  "rob_Image (sp_Robin (rk_Spec (withoutPodOverrides cluster))) = rob_Image (sp_Robin (rk_Spec cluster))"
  "rob_Resources (sp_Robin (rk_Spec (withoutPodOverrides cluster))) =
     rob_Resources (sp_Robin (rk_Spec cluster))"
  "rob_Template (sp_Robin (rk_Spec (withoutPodOverrides cluster))) =
     map_option clearPodOverrides (rob_Template (sp_Robin (rk_Spec cluster)))"
  by (simp_all add: withoutPodOverrides_def)

lemma clearPodOverrides_sel [simp]:
  "ppt_Metadata (clearPodOverrides t) = ppt_Metadata t"
  "pps_Containers (ppt_Spec (clearPodOverrides t)) = pps_Containers (ppt_Spec t)"
  by (simp_all add: clearPodOverrides_def)

lemma base_without [simp]:
  "robinDefaultEnvVars (withoutPodOverrides cluster) = robinDefaultEnvVars cluster"
  "robinName (withoutPodOverrides cluster) = robinName cluster"
  "robinBaseLabels (withoutPodOverrides cluster) = robinBaseLabels cluster"
  by (simp_all add: robinDefaultEnvVars_def robinName_def robinBaseLabels_def)

lemma robinContainer_without [simp]: "robinContainer (withoutPodOverrides cluster) = robinContainer cluster"
proof -
  have "robinBaseContainer (withoutPodOverrides cluster) = robinBaseContainer cluster"
    by (simp add: robinBaseContainer_def)
  then show ?thesis
    by (cases "rob_Template (sp_Robin (rk_Spec cluster))") (simp_all add: robinContainer_def)
qed

lemma overridePodSpec_cleared:
  "overridePodSpec (ppt_Spec (clearPodOverrides t)) p = p"
  by (simp add: overridePodSpec_def clearPodOverrides_def Let_def)

lemma unsetOptional_override: "unsetOptional (overridePodSpec t p) = unsetOptional p"
  by (simp add: overridePodSpec_def unsetOptional_def Let_def)

lemma robinPodSpec_without: "robinPodSpec (withoutPodOverrides cluster) = unsetOptional (robinPodSpec cluster)"
proof -
  have swap: "unsetOptional (p\<lparr>ps_Containers := cs\<rparr>) = (unsetOptional p)\<lparr>ps_Containers := cs\<rparr>" for p cs
    by (simp add: unsetOptional_def)
  have base: "unsetOptional (robinBasePodSpec cluster) = robinBasePodSpec cluster"
    "robinBasePodSpec (withoutPodOverrides cluster) = robinBasePodSpec cluster"
    by (simp_all add: robinBasePodSpec_def unsetOptional_def)
  show ?thesis
    by (cases "rob_Template (sp_Robin (rk_Spec cluster))")
      (simp_all add: robinPodSpec_def Let_def swap base overridePodSpec_cleared unsetOptional_override)
qed

text \<open>
  C31. Taking the pod-level overrides (tolerations, node selector, affinity, volumes and the others)
  out of Robin's template is not seen as drift: the comparison ignores what the desired pod spec
  leaves unset, so the Deployment keeps the removed settings.
\<close>

theorem removed_overrides_not_drift:
  assumes "semantic_equality r"
    and "mapGet (derefMap (sp_Annotations (rk_Spec cluster))) deploymentRevisionAnnotation = None"
  shows "\<not> robinDeploymentNeedsUpdate r (buildDesiredRobinDeployment cluster)
    (buildDesiredRobinDeployment (withoutPodOverrides cluster))"
proof -
  let ?a = "mergeMeta (derefMap (sp_Annotations (rk_Spec cluster))) None None"
  have "contents (stripManagedAnnotations ?a) = contents ?a"
    using assms(2) by (simp add: contents_strip fmdrop_absent flip: mapGet_def)
  then show ?thesis
    using semantic_equality.deep_map [OF assms(1)] semantic_equality.derivative_unset [OF assms(1)]
    by (cases "rob_Template (sp_Robin (rk_Spec cluster))")
      (simp_all add: robinDeploymentNeedsUpdate_def buildDesiredRobinDeployment_def Let_def
        robinPodSpec_without)
qed

definition tolerantRedkey :: Redkey where
  "tolerantRedkey = sampleRedkey\<lparr>rk_Spec := sampleSpec\<lparr>sp_Robin := sampleRobin\<lparr>rob_Template :=
     Some \<lparr>ppt_Metadata = emptyMeta, ppt_Spec = \<lparr>pps_Containers = [], pps_InitContainers = [],
       pps_EphemeralContainers = [], pps_RestartPolicy = [], pps_TerminationGracePeriodSeconds = None,
       pps_DNSPolicy = [], pps_NodeSelector = None, pps_ServiceAccountName = [],
       pps_SecurityContext = None, pps_ImagePullSecrets = [], pps_Affinity = None,
       pps_Tolerations = [''spot''], pps_PriorityClassName = [], pps_TopologySpreadConstraints = [],
       pps_Volumes = []\<rparr>\<rparr>\<rparr>\<rparr>\<rparr>"

theorem removed_overrides_not_drift_witness:
  "\<not> robinDeploymentNeedsUpdate memReconciler (buildDesiredRobinDeployment tolerantRedkey)
      (buildDesiredRobinDeployment (withoutPodOverrides tolerantRedkey)) \<and>
   buildDesiredRobinDeployment tolerantRedkey \<noteq>
     buildDesiredRobinDeployment (withoutPodOverrides tolerantRedkey)"
proof
  show "\<not> robinDeploymentNeedsUpdate memReconciler (buildDesiredRobinDeployment tolerantRedkey)
      (buildDesiredRobinDeployment (withoutPodOverrides tolerantRedkey))"
    by (rule removed_overrides_not_drift [OF mem_eq.semantic_equality_axioms])
      (simp add: tolerantRedkey_def sampleSpec_def)
  have "ps_Tolerations (tpl_Spec (d_Template (buildDesiredRobinDeployment tolerantRedkey))) = [''spot'']"
    by (simp add: buildDesiredRobinDeployment_def robinPodSpec_def overridePodSpec_def Let_def
        tolerantRedkey_def)
  moreover have "ps_Tolerations (tpl_Spec (d_Template
      (buildDesiredRobinDeployment (withoutPodOverrides tolerantRedkey)))) = []"
    by (simp add: buildDesiredRobinDeployment_def Let_def robinPodSpec_without unsetOptional_def)
  ultimately show "buildDesiredRobinDeployment tolerantRedkey \<noteq>
     buildDesiredRobinDeployment (withoutPodOverrides tolerantRedkey)"
    by (metis list.distinct(1))
qed

end
