(* ===== verification/Config.thy ===== *)
theory Config
  imports Robin
begin

section \<open>RedkeyConfig sequencing and status (\<^verbatim>\<open>internal/controller/redkey_config.go\<close>)\<close>

text \<open>
  Listing the RedkeyConfigs of a cluster in sequence order, deciding on and creating the next one,
  selecting the active one, computing the conditions and the phase of the cluster, writing the
  status back and deleting superseded configs.
\<close>

subsection \<open>Listing\<close>

text \<open>
  \<^verbatim>\<open>sort.Slice\<close> returns a sorted permutation and promises no order among equal sequences; the
  sequences of one cluster's configs are distinct (\<open>Lifecycle\<close>), and then there is one such list.
\<close>

definition sortConfigs :: "RedkeyConfig list \<Rightarrow> RedkeyConfig list" where
  "sortConfigs items = sort_key (\<lambda>c. sint (configSeq c)) items"

definition clusterSelector :: "Redkey \<Rightarrow> strmap" where
  "clusterSelector cluster = fmupd ClusterLabel (Name (rk_Meta cluster)) fmempty"

definition listConfigs ::
  "('w, 'z) RedkeyReconciler_scheme \<Rightarrow> Redkey \<Rightarrow> ('w, RedkeyConfig list) io" where
  "listConfigs r cluster =
     bindE (listRedkeyConfigs r (Namespace (rk_Meta cluster)) (clusterSelector cluster))
       (\<lambda>items. returnE (sortConfigs items))"

subsection \<open>Creating the next config\<close>

definition generationAnnotation :: string where
  "generationAnnotation = ''redkey.inditex.dev/cluster-generation''"

definition configGeneration :: "RedkeyConfig \<Rightarrow> string" where
  "configGeneration c =
     (case mapGet (Annotations (rc_Meta c)) generationAnnotation of None \<Rightarrow> [] | Some g \<Rightarrow> g)"

text \<open>\<^verbatim>\<open>latestConfig\<close> is a pointer that may be nil.\<close>

definition needsNewConfig :: "Redkey \<Rightarrow> RedkeyConfig option \<Rightarrow> bool" where
  "needsNewConfig cluster latestConfig =
     (let covered =
        (case latestConfig of
           None \<Rightarrow> False
         | Some c \<Rightarrow>
             (if configGeneration c \<noteq> [] then
                (case ParseInt (configGeneration c) of
                   None \<Rightarrow> False
                 | Some parsedGen \<Rightarrow> sint parsedGen \<ge> sint (Generation (rk_Meta cluster)))
              else False))
      in if covered then False
         else sint (st_ObservedGeneration (rk_Status cluster)) < sint (Generation (rk_Meta cluster)))"

definition nextSequence :: "RedkeyConfig option \<Rightarrow> go_int" where
  "nextSequence highestSeq = (case highestSeq of None \<Rightarrow> 1 | Some c \<Rightarrow> configSeq c + 1)"

definition buildConfig :: "Redkey \<Rightarrow> RedkeyConfig option \<Rightarrow> RedkeyConfig" where
  "buildConfig cluster highestSeq =
     (let seq = nextSequence highestSeq; spec = rk_Spec cluster in
      \<lparr>rc_Meta = emptyMeta\<lparr>Name := sprintfNameNum (Name (rk_Meta cluster)) seq,
         Namespace := Namespace (rk_Meta cluster),
         Labels := mergeMeta (derefMap (sp_Labels spec)) None
           (Some (fmupd ClusterLabel (Name (rk_Meta cluster)) fmempty)),
         Annotations := mergeMeta (derefMap (sp_Annotations spec)) None
           (Some (fmupd generationAnnotation (FormatInt (Generation (rk_Meta cluster))) fmempty))\<rparr>,
       rc_Spec = \<lparr>cs_Sequence = seq, cs_SkipIfSuperseded = sp_SkipIfSuperseded spec,
         cs_Mode = sp_Mode spec, cs_Primaries = sp_Primaries spec,
         cs_ReplicasPerPrimary = sp_ReplicasPerPrimary spec, cs_Ephemeral = sp_Ephemeral spec,
         cs_Storage = sp_Storage spec, cs_StorageClassName = sp_StorageClassName spec,
         cs_Image = sp_Image spec, cs_Version = sp_Version spec, cs_RedisConfig = sp_Config spec,
         cs_Resources = sp_Resources spec, cs_Auth = sp_Auth spec, cs_Labels = sp_Labels spec,
         cs_Annotations = sp_Annotations spec, cs_DeletePVC = sp_DeletePVC spec,
         cs_PurgeKeysOnRebalance = sp_PurgeKeysOnRebalance spec, cs_Override = sp_Override spec,
         cs_Pdb = sp_Pdb spec, cs_RobinConfig = rob_Config (sp_Robin spec)\<rparr>,
       rc_Status = zeroConfigStatus\<rparr>)"

definition createNewConfig ::
  "('w, 'z) RedkeyReconciler_scheme \<Rightarrow> Redkey \<Rightarrow> RedkeyConfig option \<Rightarrow> ('w, unit) io" where
  "createNewConfig r cluster highestSeq =
     (let config0 = buildConfig cluster highestSeq in
      bindE (liftResult (setControllerReference r cluster (rc_Meta config0))) (\<lambda>meta.
      bindE (attemptE (kCreate (redkeyConfigs r) (config0\<lparr>rc_Meta := meta\<rparr>))) (\<lambda>res.
      case res of
        Inl e \<Rightarrow> if IsAlreadyExists e then returnE () else throwE e
      | Inr _ \<Rightarrow>
          modifyE (counterInc r redkeyConfigCreations
            [if highestSeq = None then ''initial'' else ''generation_change'']))))"

subsection \<open>The active config, conditions and phase\<close>

text \<open>\<open>None\<close> is the index panic on an empty slice; both callers check the length first.\<close>

definition selectActiveConfig :: "RedkeyConfig list \<Rightarrow> RedkeyConfig option" where
  "selectActiveConfig configs =
     (case configs of
        [] \<Rightarrow> None
      | [c] \<Rightarrow> Some c
      | c # _ \<Rightarrow>
          (case find (\<lambda>x. configPhase x = ConfigPhaseInProgress) configs of
             Some x \<Rightarrow> Some x
           | None \<Rightarrow> Some c))"

definition conditionStatus :: "bool \<Rightarrow> ConditionStatus" where
  "conditionStatus b = (if b then ConditionTrue else ConditionFalse)"

definition isTerminalConfigPhase :: "string \<Rightarrow> bool" where
  "isTerminalConfigPhase phase \<longleftrightarrow> phase = ConfigPhaseApplied \<or> phase = ConfigPhaseSuperseded"

definition isConfigReady :: "RedkeyConfig \<Rightarrow> bool" where
  "isConfigReady config \<longleftrightarrow>
     isTerminalConfigPhase (configPhase config) \<and> cst_Status (rc_Status config) \<noteq> ClusterPhaseError"

definition hasConfigError :: "RedkeyConfig \<Rightarrow> bool" where
  "hasConfigError config \<longleftrightarrow>
     isTerminalConfigPhase (configPhase config) \<and> cst_Status (rc_Status config) = ClusterPhaseError"

definition emptyNodesIfNil :: "nodemap \<Rightarrow> nodemap" where
  "emptyNodesIfNil nodes = (case nodes of None \<Rightarrow> Some fmempty | Some m \<Rightarrow> Some m)"

definition healthConditionTypes :: "string list" where
  "healthConditionTypes =
     [ConditionHealthy, ConditionMembershipHealthy, ConditionSlotsCovered, ConditionSlotsBalanced,
      ConditionReplicasBalanced, ConditionClusterCheckPassing]"

definition healthSettled :: "RedkeyConfig \<Rightarrow> bool" where
  "healthSettled activeConfig \<longleftrightarrow>
     isTerminalConfigPhase (configPhase activeConfig) \<and>
     cst_Status (rc_Status activeConfig) = ClusterStatusReady"

definition healthCondition ::
  "('w, 'z) RedkeyReconciler_scheme \<Rightarrow> RedkeyConfig \<Rightarrow> string \<Rightarrow> Condition" where
  "healthCondition r activeConfig condType =
     (case (if healthSettled activeConfig
            then findStatusCondition r (cst_Conditions (rc_Status activeConfig)) condType
            else None) of
        Some src \<Rightarrow> mkCondition condType (c_Status src) (c_Reason src) (c_Message src)
      | None \<Rightarrow> mkCondition condType ConditionUnknown ''Reconciling'' [])"

definition aggregateHealthConditions ::
  "('w, 'z) RedkeyReconciler_scheme \<Rightarrow> int \<Rightarrow> Condition list \<Rightarrow> RedkeyConfig \<Rightarrow> Condition list" where
  "aggregateHealthConditions r now conditions activeConfig =
     foldl (setStatusCondition r now) conditions
       (map (healthCondition r activeConfig) healthConditionTypes)"

definition aggregateConditions ::
  "('w, 'z) RedkeyReconciler_scheme \<Rightarrow> int \<Rightarrow> Condition list \<Rightarrow> RedkeyConfig \<Rightarrow> Condition list" where
  "aggregateConditions r now existing config =
     (let c1 = setStatusCondition r now existing
            (mkCondition ''Ready'' (conditionStatus (isConfigReady config)) ''StatusAggregated'' []);
          c2 = setStatusCondition r now c1
            (mkCondition ''ConfigPending''
              (conditionStatus (\<not> isTerminalConfigPhase (configPhase config))) ''StatusAggregated'' []);
          c3 = setStatusCondition r now c2
            (mkCondition ''Error'' (conditionStatus (hasConfigError config)) ''StatusAggregated'' [])
      in aggregateHealthConditions r now c3 config)"

definition conditionIsTrue ::
  "('w, 'z) RedkeyReconciler_scheme \<Rightarrow> Condition list \<Rightarrow> string \<Rightarrow> bool" where
  "conditionIsTrue r conditions t =
     (case findStatusCondition r conditions t of None \<Rightarrow> False | Some c \<Rightarrow> c_Status c = ConditionTrue)"

definition computePhaseFromConditions ::
  "('w, 'z) RedkeyReconciler_scheme \<Rightarrow> Condition list \<Rightarrow> string" where
  "computePhaseFromConditions r conditions =
     (if conditionIsTrue r conditions ''Error'' then PhaseError
      else if conditionIsTrue r conditions ''Ready'' then PhaseReady
      else PhaseConfiguring)"

subsection \<open>Writing the status\<close>

text \<open>
  The status the closure of \<^verbatim>\<open>aggregateStatus\<close> computes on the freshly read object. Every clock
  reading of an attempt is the one of its \<^verbatim>\<open>metav1.Now()\<close>.
\<close>

definition aggregatedStatus ::
  "('w, 'z) RedkeyReconciler_scheme \<Rightarrow> int \<Rightarrow> int64 \<Rightarrow> RedkeyConfig \<Rightarrow> Redkey \<Rightarrow> RedkeyStatus" where
  "aggregatedStatus r now observedGeneration activeConfig latest =
     (let st = rk_Status latest;
          conditions = aggregateConditions r now (st_Conditions st) activeConfig;
          st1 = st\<lparr>st_Replicas := sp_Primaries (rk_Spec latest),
             st_Status := cst_Status (rc_Status activeConfig),
             st_Substatus := cst_Substatus (rc_Status activeConfig),
             st_Nodes := emptyNodesIfNil (cst_Nodes (rc_Status activeConfig)),
             st_Conditions := conditions,
             st_Phase := computePhaseFromConditions r conditions,
             st_LastUpdatedAt := Some now,
             st_ObservedGeneration := observedGeneration\<rparr>
      in if \<not> sp_Ephemeral (rk_Spec latest) \<and> configPhase activeConfig = ConfigPhaseApplied \<and>
            0 < sint (cs_Primaries (rc_Spec activeConfig))
         then st1\<lparr>st_LastAppliedPrimaries := cs_Primaries (rc_Spec activeConfig),
                st_LastAppliedReplicasPerPrimary := cs_ReplicasPerPrimary (rc_Spec activeConfig)\<rparr>
         else st1)"

definition nowE :: "('w, 'z) RedkeyReconciler_scheme \<Rightarrow> ('w, int) io" where
  "nowE r w = (Inr (fst (timeNow r w)), snd (timeNow r w))"

definition aggregateAttempt ::
  "('w, 'z) RedkeyReconciler_scheme \<Rightarrow> Redkey \<Rightarrow> RedkeyConfig \<Rightarrow> ('w, Redkey) io" where
  "aggregateAttempt r cluster activeConfig =
     bindE (getRedkey r (NamespacedName cluster)) (\<lambda>latest.
     bindE (nowE r) (\<lambda>now.
     updateRedkeyStatus r
       (latest\<lparr>rk_Status :=
          aggregatedStatus r now (Generation (rk_Meta cluster)) activeConfig latest\<rparr>)))"

text \<open>The result is the caller's copy of the cluster, which the code updates in place.\<close>

definition aggregateStatus ::
  "('w, 'z) RedkeyReconciler_scheme \<Rightarrow> Redkey \<Rightarrow> RedkeyConfig list \<Rightarrow> ('w, Redkey) io" where
  "aggregateStatus r cluster configs =
     (case selectActiveConfig configs of
        None \<Rightarrow> returnE cluster
      | Some activeConfig \<Rightarrow>
          bindE (retryOnConflict r (aggregateAttempt r cluster activeConfig))
            (\<lambda>latest. returnE (cluster\<lparr>rk_Status := rk_Status latest\<rparr>)))"

subsection \<open>Deleting superseded configs\<close>

definition lastAppliedIndex :: "RedkeyConfig list \<Rightarrow> nat option" where
  "lastAppliedIndex configs =
     find (\<lambda>i. configPhase (configs ! i) = ConfigPhaseApplied) (rev [0..<length configs])"

text \<open>
  The loop over the configs before the last applied one, and the slice it returns with its
  error: on an error the configs not yet deleted.
\<close>

fun cleanupLoop ::
  "('w, 'z) RedkeyReconciler_scheme \<Rightarrow> RedkeyConfig list \<Rightarrow> RedkeyConfig list \<Rightarrow>
   ('w, RedkeyConfig list \<times> go_error option) io" where
  "cleanupLoop r [] keep = returnE (keep, None)"
| "cleanupLoop r (c # cs) keep =
     bindE (attemptE (kDelete (redkeyConfigs r) (configKey c))) (\<lambda>res.
     case res of
       Inl e \<Rightarrow>
         if IsNotFound e then cleanupLoop r cs keep else returnE (c # cs @ keep, Some e)
     | Inr _ \<Rightarrow>
         bindE (modifyE (counterInc r redkeyCleanupDeletedConfigs [])) (\<lambda>_. cleanupLoop r cs keep))"

definition cleanupSupersededConfigs ::
  "('w, 'z) RedkeyReconciler_scheme \<Rightarrow> RedkeyConfig list \<Rightarrow>
   ('w, RedkeyConfig list \<times> go_error option) io" where
  "cleanupSupersededConfigs r configs =
     (if length configs \<le> 1 then returnE (configs, None)
      else (case lastAppliedIndex configs of
              None \<Rightarrow> returnE (configs, None)
            | Some i \<Rightarrow>
                if i = 0 then returnE (configs, None)
                else cleanupLoop r (take i configs) (drop i configs)))"

subsection \<open>Sequence and generation\<close>

lemma sorted_sortConfigs: "sorted (map (\<lambda>c. sint (configSeq c)) (sortConfigs cs))"
  by (simp add: sortConfigs_def)

lemma mset_sortConfigs [simp]: "mset (sortConfigs cs) = mset cs"
  by (simp add: sortConfigs_def)

lemma set_sortConfigs [simp]: "set (sortConfigs cs) = set cs"
  by (simp add: sortConfigs_def)

lemma sortConfigs_empty_iff [simp]: "sortConfigs cs = [] \<longleftrightarrow> cs = []"
  by (metis mset_sortConfigs mset_zero_iff)

lemma last_sortConfigs_max:
  assumes "c \<in> set cs"
  shows "sint (configSeq c) \<le> sint (configSeq (last (sortConfigs cs)))"
proof -
  obtain ys y where ys: "sortConfigs cs = ys @ [y]"
    using assms by (cases "sortConfigs cs" rule: rev_cases) auto
  moreover have "c \<in> set (ys @ [y])" using assms by (metis set_sortConfigs ys)
  moreover have "sorted (map (\<lambda>c. sint (configSeq c)) (ys @ [y]))"
    using sorted_sortConfigs [of cs] by (simp add: ys)
  ultimately show ?thesis by (auto simp: sorted_append)
qed

lemma needsNewConfig_generation:
  assumes "mapGet (Annotations (rc_Meta c)) generationAnnotation = Some (FormatInt g)"
  shows "needsNewConfig cluster (Some c) \<longleftrightarrow>
    sint g < sint (Generation (rk_Meta cluster)) \<and>
    sint (st_ObservedGeneration (rk_Status cluster)) < sint (Generation (rk_Meta cluster))"
  using assms by (auto simp: needsNewConfig_def configGeneration_def)

lemma buildConfig_sel [simp]:
  "configSeq (buildConfig cluster h) = nextSequence h"
  "Namespace (rc_Meta (buildConfig cluster h)) = Namespace (rk_Meta cluster)"
  "Name (rc_Meta (buildConfig cluster h)) = sprintfNameNum (Name (rk_Meta cluster)) (nextSequence h)"
  "OwnerReferences (rc_Meta (buildConfig cluster h)) = []"
  "mapGet (Labels (rc_Meta (buildConfig cluster h))) ClusterLabel = Some (Name (rk_Meta cluster))"
  "mapGet (Annotations (rc_Meta (buildConfig cluster h))) generationAnnotation =
     Some (FormatInt (Generation (rk_Meta cluster)))"
  "cs_Primaries (rc_Spec (buildConfig cluster h)) = sp_Primaries (rk_Spec cluster)"
  "cs_ReplicasPerPrimary (rc_Spec (buildConfig cluster h)) = sp_ReplicasPerPrimary (rk_Spec cluster)"
  by (simp_all add: buildConfig_def Let_def emptyMeta_def)

lemma nextSequence_greater:
  assumes "sint (configSeq c) < 2 ^ 63 - 1"
  shows "sint (nextSequence (Some c)) = sint (configSeq c) + 1"
proof -
  have "sint (configSeq c + 1) = signed_take_bit 63 (sint (configSeq c) + 1)"
    by (simp add: sint_word_ariths)
  also have "\<dots> = sint (configSeq c) + 1"
    using assms sint_int64_bounds(1) [of "configSeq c"] by (intro signed_take_bit_int_eq_self) auto
  finally show ?thesis by (simp add: nextSequence_def)
qed

subsection \<open>The active config\<close>

lemma selectActiveConfig_None_iff [simp]: "selectActiveConfig cs = None \<longleftrightarrow> cs = []"
  by (auto simp: selectActiveConfig_def split: list.split option.split)

lemma find_filter: "find P xs = (if filter P xs = [] then None else Some (hd (filter P xs)))"
  by (induction xs) auto

text \<open>
  \<^verbatim>\<open>selectActiveConfig\<close>: a single config, or when none is in progress the first one; otherwise the
  first config in progress. Only the empty list has no active config.
\<close>

lemma selectActiveConfig_spec:
  "selectActiveConfig configs =
     (let running = filter (\<lambda>c. configPhase c = ConfigPhaseInProgress) configs in
      if configs = [] then None
      else if length configs = 1 \<or> running = [] then Some (hd configs)
      else Some (hd running))"
  by (auto simp: selectActiveConfig_def Let_def find_filter split: list.split)

subsection \<open>Conditions and phase\<close>


lemma health_types:
  "distinct healthConditionTypes" "''Ready'' \<notin> set healthConditionTypes"
  "''ConfigPending'' \<notin> set healthConditionTypes" "''Error'' \<notin> set healthConditionTypes"
  by (simp_all add: healthConditionTypes_def condition_names)

lemma c_Type_healthCondition [simp]: "c_Type (healthCondition r c t) = t"
  by (simp add: healthCondition_def split: option.split)

text \<open>The condition helpers of the reconciler obey the laws of \<open>condition_lib\<close>.\<close>

locale status_lib = condition_lib "findStatusCondition r" "setStatusCondition r"
  for r :: "('w, 'z) RedkeyReconciler_scheme"
begin

lemma find_aggregateHealth_other:
  "t \<notin> set healthConditionTypes \<Longrightarrow>
   findStatusCondition r (aggregateHealthConditions r now cs c) t = findStatusCondition r cs t"
  unfolding aggregateHealthConditions_def
  by (rule find_foldl_other) (simp add: image_image)

lemma status_aggregateHealth:
  assumes "t \<in> set healthConditionTypes"
  shows "map_option c_Status (findStatusCondition r (aggregateHealthConditions r now cs c) t) =
    Some (c_Status (healthCondition r c t))"
proof -
  have "healthCondition r c t \<in> set (map (healthCondition r c) healthConditionTypes)"
    using assms by simp
  moreover have "distinct (map c_Type (map (healthCondition r c) healthConditionTypes))"
    using health_types(1) by (simp add: comp_def)
  ultimately show ?thesis
    unfolding aggregateHealthConditions_def
    by (metis status_foldl_in c_Type_healthCondition)
qed

lemma status_aggregateConditions:
  "map_option c_Status (findStatusCondition r (aggregateConditions r now cs c) ''Ready'') =
     Some (conditionStatus (isConfigReady c))"
  "map_option c_Status (findStatusCondition r (aggregateConditions r now cs c) ''ConfigPending'') =
     Some (conditionStatus (\<not> isTerminalConfigPhase (configPhase c)))"
  "map_option c_Status (findStatusCondition r (aggregateConditions r now cs c) ''Error'') =
     Some (conditionStatus (hasConfigError c))"
  by (simp_all add: aggregateConditions_def Let_def find_aggregateHealth_other health_types status_set
      del: map_option_eq_Some)

lemma conditionIsTrue_iff:
  "conditionIsTrue r cs t \<longleftrightarrow> map_option c_Status (findStatusCondition r cs t) = Some ConditionTrue"
  by (simp add: conditionIsTrue_def split: option.split)

lemma phase_aggregateConditions:
  "computePhaseFromConditions r (aggregateConditions r now cs c) =
     (if hasConfigError c then PhaseError else if isConfigReady c then PhaseReady else PhaseConfiguring)"
  by (simp add: computePhaseFromConditions_def conditionIsTrue_iff status_aggregateConditions
      conditionStatus_def del: map_option_eq_Some)

lemma aggregateConditions_other:
  "t \<notin> set (''Ready'' # ''ConfigPending'' # ''Error'' # healthConditionTypes) \<Longrightarrow>
   findStatusCondition r (aggregateConditions r now cs c) t = findStatusCondition r cs t"
  by (simp add: aggregateConditions_def Let_def find_aggregateHealth_other find_set_other)

end

interpretation mem_status: status_lib memReconciler
  by (simp add: status_lib_def mem_cond.condition_lib_axioms)

text \<open>
  C24. The phase of the cluster is a function of the active config alone: Error or Ready for a terminal
  config with or without an error status, Configuring for any other, whatever conditions were there
  before.
\<close>

theorem aggregated_phase:
  assumes "status_lib r"
  shows "computePhaseFromConditions r (aggregateConditions r now existing config) =
    (if configPhase config = ConfigPhaseApplied \<or> configPhase config = ConfigPhaseSuperseded
     then if cst_Status (rc_Status config) = ClusterPhaseError then PhaseError else PhaseReady
     else PhaseConfiguring)"
  by (auto simp: status_lib.phase_aggregateConditions [OF assms] hasConfigError_def isConfigReady_def
      isTerminalConfigPhase_def)

theorem aggregated_phase_witness:
  "computePhaseFromConditions memReconciler (aggregateConditions memReconciler 7 []
     (sampleConfig 1 ConfigPhaseApplied ClusterStatusScalingUp)) = PhaseReady"
  by (subst aggregated_phase [OF mem_status.status_lib_axioms]) (simp add: status_names)

text \<open>
  Health conditions: each of the six is Robin's own while the config is terminal and Ready, and
  Unknown otherwise or when Robin has not reported it, so a stale verdict is never shown.
\<close>

theorem health_mirrored:
  assumes "status_lib r" and "t \<in> set healthConditionTypes"
  shows "map_option c_Status (findStatusCondition r (aggregateConditions r now existing config) t) =
    Some (if (configPhase config = ConfigPhaseApplied \<or> configPhase config = ConfigPhaseSuperseded) \<and>
             cst_Status (rc_Status config) = ClusterStatusReady
          then (case findStatusCondition r (cst_Conditions (rc_Status config)) t of
                  Some src \<Rightarrow> c_Status src | None \<Rightarrow> ConditionUnknown)
          else ConditionUnknown)"
  unfolding aggregateConditions_def Let_def status_lib.status_aggregateHealth [OF assms]
  by (simp add: healthCondition_def healthSettled_def isTerminalConfigPhase_def split: option.split)

theorem health_mirrored_witness:
  "map_option c_Status (findStatusCondition memReconciler (aggregateConditions memReconciler 7
       [mkCondition ConditionHealthy ConditionTrue ''Ok'' []]
       (sampleConfig 2 ConfigPhaseInProgress ClusterStatusReady)) ConditionHealthy) = Some ConditionUnknown"
  by (subst health_mirrored [OF mem_status.status_lib_axioms])
    (simp_all add: healthConditionTypes_def phase_names)

subsection \<open>Effects on the stored configs\<close>

definition clusterConfigs :: "Redkey \<Rightarrow> store \<Rightarrow> RedkeyConfig list" where
  "clusterConfigs cluster st =
     filter (configMatches (Namespace (rk_Meta cluster)) (clusterSelector cluster)) (s_Configs st)"

text \<open>What \<^verbatim>\<open>listConfigs\<close> answers: the cluster's configs, sorted by sequence.\<close>

definition configsView :: "Redkey \<Rightarrow> store \<Rightarrow> RedkeyConfig list \<Rightarrow> bool" where
  "configsView cluster st cs \<longleftrightarrow>
     mset cs = mset (clusterConfigs cluster st) \<and> sorted (map (\<lambda>c. sint (configSeq c)) cs)"

text \<open>What the server stores for a config the operator creates.\<close>

definition isNewConfig :: "Redkey \<Rightarrow> RedkeyConfig option \<Rightarrow> RedkeyConfig \<Rightarrow> bool" where
  "isNewConfig cluster h y \<longleftrightarrow>
     configKey y = configKey (buildConfig cluster h) \<and>
     Labels (rc_Meta y) = Labels (rc_Meta (buildConfig cluster h)) \<and>
     Annotations (rc_Meta y) = Annotations (rc_Meta (buildConfig cluster h)) \<and>
     ownedBy cluster (rc_Meta y) \<and> rc_Spec y = rc_Spec (buildConfig cluster h) \<and>
     rc_Status y = zeroConfigStatus"

definition dropConfigs :: "nsname set \<Rightarrow> store \<Rightarrow> store" where
  "dropConfigs K st = s_Configs_update (filter (\<lambda>c. configKey c \<notin> K)) st"

lemma dropConfigs_empty [simp]: "dropConfigs {} st = st"
  by (simp add: dropConfigs_def)

lemma dropConfigs_insert:
  "dropConfigs (insert k K) st = dropConfigs K (s_Configs_update (filter (\<lambda>c. configKey c \<noteq> k)) st)"
proof -
  have "filter (\<lambda>c. configKey c \<notin> insert k K) = filter (\<lambda>c. configKey c \<notin> K) \<circ> filter (\<lambda>c. configKey c \<noteq> k)"
    by (rule ext) (auto intro: filter_cong)
  then show ?thesis by (simp add: dropConfigs_def)
qed

lemma dropConfigs_absent:
  assumes "k \<notin> configKey ` set (s_Configs st)"
  shows "dropConfigs (insert k K) st = dropConfigs K st"
proof -
  have "filter (\<lambda>c. configKey c \<notin> insert k K) (s_Configs st) = filter (\<lambda>c. configKey c \<notin> K) (s_Configs st)"
    using assms by (auto intro!: filter_cong)
  then show ?thesis by (cases st) (simp add: dropConfigs_def)
qed

context operator_libs
begin

lemma wp_listConfigs:
  assumes "\<And>cs w'. api w' = api w \<Longrightarrow> configsView cluster (api w) cs \<Longrightarrow> Q cs w'"
    and "\<And>e w'. outage \<Longrightarrow> api w' = api w \<Longrightarrow> E e w'"
  shows "wp (listConfigs r cluster) Q E w"
  unfolding listConfigs_def wp_bindE
  by (rule wp_list) (simp_all add: wp_returnE assms configsView_def clusterConfigs_def sorted_sortConfigs)

lemma wp_createNewConfig:
  assumes step: "\<And>y w'. configKey (buildConfig cluster h) \<notin> configKey ` set (s_Configs (api w)) \<Longrightarrow>
      isNewConfig cluster h y \<Longrightarrow> api w' = s_Configs_update (\<lambda>cs. cs @ [y]) (api w) \<Longrightarrow> Q () w'"
    and dup: "\<And>w'. configKey (buildConfig cluster h) \<in> configKey ` set (s_Configs (api w)) \<Longrightarrow>
      api w' = api w \<Longrightarrow> Q () w'"
    and err: "\<And>e w'. outage \<Longrightarrow> api w' = api w \<Longrightarrow> E e w'"
  shows "wp (createNewConfig r cluster h) Q E w"
proof -
  obtain m where m: "setControllerReference r cluster (rc_Meta (buildConfig cluster h)) = Inr m"
    by (rule set_ref_fresh [of "rc_Meta (buildConfig cluster h)"]) simp_all
  note mf = set_ref_fields [OF m]
  have "wp (kCreate (redkeyConfigs r) (buildConfig cluster h\<lparr>rc_Meta := m\<rparr>))
      (\<lambda>_ w'. Q () (counterInc r redkeyConfigCreations
         [if h = None then ''initial'' else ''generation_change''] w'))
      (\<lambda>e. if IsAlreadyExists e then Q () else E e) w"
    by (rule wp_config_create)
      (use mf dup err in \<open>auto simp: wp_simps storedConfig_def isNewConfig_def sameMeta_def metaKey_def
          ownedBy_def intro!: step\<close>)
  with m show ?thesis
    by (cases h) (simp_all add: createNewConfig_def Let_def wp_simps cong: if_cong)
qed

lemma wp_cleanupLoop:
  assumes step: "\<And>w'. api w' = dropConfigs (configKey ` set pre) (api w) \<Longrightarrow> Q (keep, None) w'"
    and err: "\<And>i e w'. outage \<Longrightarrow> i < length pre \<Longrightarrow>
      api w' = dropConfigs (configKey ` set (take i pre)) (api w) \<Longrightarrow> Q (drop i pre @ keep, Some e) w'"
  shows "wp (cleanupLoop r pre keep) Q E w"
  using assms
proof (induction pre arbitrary: w)
  case Nil
  then show ?case by (simp add: wp_returnE)
next
  case (Cons c cs)
  have rest: "wp (cleanupLoop r cs keep) Q E w'"
    if "\<And>K. dropConfigs K (api w') = dropConfigs (insert (configKey c) K) (api w)" for w'
  proof (rule Cons.IH)
    fix w'' assume "api w'' = dropConfigs (configKey ` set cs) (api w')"
    then show "Q (keep, None) w''" using Cons.prems(1) that by simp
  next
    fix i e w''
    assume o: outage and "i < length cs" and "api w'' = dropConfigs (configKey ` set (take i cs)) (api w')"
    with Cons.prems(2) [OF o, of "Suc i" w'' e] that show "Q (drop i cs @ keep, Some e) w''" by simp
  qed
  have "wp (kDelete (redkeyConfigs r) (configKey c))
      (\<lambda>_ w'. wp (cleanupLoop r cs keep) Q E (counterInc r redkeyCleanupDeletedConfigs [] w'))
      (\<lambda>e. if IsNotFound e then wp (cleanupLoop r cs keep) Q E else Q (c # cs @ keep, Some e)) w"
  proof (rule wp_config_delete, goal_cases)
    case (1 w')
    then show ?case by (intro rest) (simp add: dropConfigs_insert)
  next
    case (2 e w')
    then have "wp (cleanupLoop r cs keep) Q E w'" by (intro rest) (simp add: dropConfigs_absent)
    with 2 show ?case by simp
  next
    case (3 e w')
    with Cons.prems(2) [of 0 w' e] show ?case by (simp add: wp_returnE)
  qed
  then show ?case
    by (simp add: wp_simps cong: if_cong)
qed


lemma wp_cleanupSupersededConfigs:
  assumes step: "\<And>i w'. i \<le> length configs \<Longrightarrow>
      (case lastAppliedIndex configs of None \<Rightarrow> i = 0 | Some k \<Rightarrow> i = k) \<Longrightarrow>
      api w' = dropConfigs (configKey ` set (take i configs)) (api w) \<Longrightarrow> Q (drop i configs, None) w'"
    and err: "\<And>i e w'. outage \<Longrightarrow>
      api w' = dropConfigs (configKey ` set (take i configs)) (api w) \<Longrightarrow> Q (drop i configs, Some e) w'"
  shows "wp (cleanupSupersededConfigs r configs) Q E w"
proof (cases "length configs \<le> 1 \<or> lastAppliedIndex configs = None \<or> lastAppliedIndex configs = Some 0")
  case True
  moreover have "lastAppliedIndex configs = None \<or> lastAppliedIndex configs = Some 0"
    if "length configs \<le> 1"
    using that by (cases configs) (auto simp: lastAppliedIndex_def)
  ultimately have idx: "lastAppliedIndex configs = None \<or> lastAppliedIndex configs = Some 0" by blast
  then have "Q (configs, None) w" using step [of 0 w] by auto
  with idx show ?thesis by (auto simp: cleanupSupersededConfigs_def wp_simps)
next
  case False
  then obtain i where i: "lastAppliedIndex configs = Some i" "i \<noteq> 0" by auto
  then have "i < length configs" by (auto simp: lastAppliedIndex_def find_Some_iff rev_nth)
  have "wp (cleanupLoop r (take i configs) (drop i configs)) Q E w"
  proof (rule wp_cleanupLoop)
    fix w' assume "api w' = dropConfigs (configKey ` set (take i configs)) (api w)"
    with step [of i w'] i \<open>i < length configs\<close> show "Q (drop i configs, None) w'" by simp
  next
    fix j e w'
    assume o: outage and "j < length (take i configs)"
      and "api w' = dropConfigs (configKey ` set (take j (take i configs))) (api w)"
    moreover have "drop j (take i configs) @ drop i configs = drop j configs"
      using \<open>j < length (take i configs)\<close>
      by (metis append_take_drop_id drop_append length_take min.strict_boundedE
          less_imp_le_nat diff_is_0_eq drop0)
    ultimately show "Q (drop j (take i configs) @ drop i configs, Some e) w'"
      using err [OF o, of w' j e] by simp
  qed
  with False i show ?thesis by (simp add: cleanupSupersededConfigs_def)
qed

end

locale status_writer = operator_libs r api outage + retry_lib "retryOnConflict r" + status_lib r
  for r :: "('w, 'z) RedkeyReconciler_scheme" and api :: "'w \<Rightarrow> store" and outage :: bool
begin

text \<open>
  A successful \<^verbatim>\<open>aggregateStatus\<close> has written the status computed from the object it read, and
  nothing else; when it fails nothing is written.
\<close>

lemma wp_aggregateStatus:
  assumes wf: "wfStore (api w)" and active: "selectActiveConfig configs = Some c"
    and step: "\<And>latest now y w'. fmlookup (s_Redkeys (api w)) (NamespacedName cluster) = Some latest \<Longrightarrow>
      withStatus latest (aggregatedStatus r now (Generation (rk_Meta cluster)) c latest) y \<Longrightarrow>
      api w' = s_Redkeys_update (fmupd (NamespacedName cluster) y) (api w) \<Longrightarrow>
      Q (cluster\<lparr>rk_Status := rk_Status y\<rparr>) w'"
    and err: "\<And>e w'. outage \<or> fmlookup (s_Redkeys (api w)) (NamespacedName cluster) = None \<Longrightarrow>
      api w' = api w \<Longrightarrow> E e w'"
  shows "wp (aggregateStatus r cluster configs) Q E w"
proof -
  have "wp (retryOnConflict r (aggregateAttempt r cluster c))
      (\<lambda>y. Q (cluster\<lparr>rk_Status := rk_Status y\<rparr>)) E w"
  proof (rule wp_retry [where I = "\<lambda>w'. api w' = api w"])
    fix w1 assume w1: "api w1 = api w"
    show "wp (aggregateAttempt r cluster c) (\<lambda>y. Q (cluster\<lparr>rk_Status := rk_Status y\<rparr>))
        (\<lambda>e w'. (e = Conflict \<longrightarrow> api w' = api w) \<and> E e w') w1"
      unfolding aggregateAttempt_def wp_bindE
    proof (rule wp_redkey_get)
      fix latest w2
      assume w2: "api w2 = api w1" and l: "fmlookup (s_Redkeys (api w1)) (NamespacedName cluster) = Some latest"
      with w1 wf have k: "metaKey (rk_Meta latest) = NamespacedName cluster"
        by (auto simp: wfStore_def dest: keyedD)
      have "wp (updateRedkeyStatus r (latest\<lparr>rk_Status :=
          aggregatedStatus r now (Generation (rk_Meta cluster)) c latest\<rparr>))
          (\<lambda>y. Q (cluster\<lparr>rk_Status := rk_Status y\<rparr>))
          (\<lambda>e w'. (e = Conflict \<longrightarrow> api w' = api w) \<and> E e w') w3" if "api w3 = api w2" for now w3
        by (rule wp_status) (use k l w1 w2 that in \<open>auto intro!: step err\<close>)
      then show "wp (nowE r) (\<lambda>now. wp (updateRedkeyStatus r (latest\<lparr>rk_Status :=
          aggregatedStatus r now (Generation (rk_Meta cluster)) c latest\<rparr>))
          (\<lambda>y. Q (cluster\<lparr>rk_Status := rk_Status y\<rparr>))
          (\<lambda>e w'. (e = Conflict \<longrightarrow> api w' = api w) \<and> E e w'))
          (\<lambda>e w'. (e = Conflict \<longrightarrow> api w' = api w) \<and> E e w') w2"
        by (simp add: wp_def [of "nowE r"] nowE_def)
    qed (use w1 err in auto)
  qed simp
  with active show ?thesis by (simp add: aggregateStatus_def wp_simps)
qed

end

subsection \<open>Cleanup\<close>

lemma lastAppliedIndex_None:
  "lastAppliedIndex cs = None \<longleftrightarrow> filter (\<lambda>c. configPhase c = ConfigPhaseApplied) cs = []"
  by (auto simp: lastAppliedIndex_def find_None_iff filter_empty_conv all_set_conv_all_nth)

lemma lastAppliedIndex_Some:
  assumes "lastAppliedIndex cs = Some k"
  shows "k < length cs" "configPhase (cs ! k) = ConfigPhaseApplied"
    "filter (\<lambda>c. configPhase c = ConfigPhaseApplied) (drop (Suc k) cs) = []"
proof -
  obtain i where i: "i < length cs" "configPhase (cs ! (length cs - Suc i)) = ConfigPhaseApplied"
    "k = length cs - Suc i"
    "\<And>j. j < i \<Longrightarrow> configPhase (cs ! (length cs - Suc j)) \<noteq> ConfigPhaseApplied"
    using assms by (auto simp: lastAppliedIndex_def find_Some_iff rev_nth)
  then show "k < length cs" "configPhase (cs ! k) = ConfigPhaseApplied" by auto
  have "configPhase (cs ! j) \<noteq> ConfigPhaseApplied" if "k < j" "j < length cs" for j
    using i(4) [of "length cs - Suc j"] that i(1,3) by simp
  then show "filter (\<lambda>c. configPhase c = ConfigPhaseApplied) (drop (Suc k) cs) = []"
    by (auto simp: filter_empty_conv in_set_conv_nth)
qed

text \<open>
  C15. \<^verbatim>\<open>cleanupSupersededConfigs\<close>: the configs deleted are a prefix of the list, the rest is returned;
  without an error that prefix ends just before the last applied config, and with no applied config
  nothing is deleted. An error needs an outage, and what is returned then is what is still stored.
\<close>

theorem cleanup_deletes_before_last_applied:
  assumes "operator_libs r api outage"
  shows "wp (cleanupSupersededConfigs r configs)
    (\<lambda>(kept, err) w'. \<exists>i. kept = drop i configs \<and>
       api w' = dropConfigs (configKey ` set (take i configs)) (api w) \<and>
       (if err \<noteq> None then outage
        else if filter (\<lambda>c. configPhase c = ConfigPhaseApplied) configs = [] then i = 0
        else kept \<noteq> [] \<and> configPhase (hd kept) = ConfigPhaseApplied \<and>
          filter (\<lambda>c. configPhase c = ConfigPhaseApplied) (tl kept) = []))
    (\<lambda>_ _. False) w"
proof (rule operator_libs.wp_cleanupSupersededConfigs [OF assms], goal_cases)
  case (1 i w')
  show ?case
  proof (cases "lastAppliedIndex configs")
    case None
    with 1 lastAppliedIndex_None show ?thesis by (auto intro: exI [of _ i])
  next
    case (Some k)
    note k = lastAppliedIndex_Some [OF Some]
    from Some have "filter (\<lambda>c. configPhase c = ConfigPhaseApplied) configs \<noteq> []"
      by (metis lastAppliedIndex_None option.distinct(1))
    with k 1 Some show ?thesis
      by (simp add: hd_drop_conv_nth tl_drop drop_Suc exI [of _ k])
  qed
qed auto

theorem cleanup_deletes_before_last_applied_witness:
  "\<exists>kept w'. cleanupSupersededConfigs memReconciler
       [sampleConfig 1 ConfigPhaseApplied '''', sampleConfig 2 ConfigPhaseInProgress '''',
        sampleConfig 3 ConfigPhaseApplied '''', sampleConfig 4 ConfigPhasePending ''''] (memWith [] []) =
       (Inr (kept, None), w') \<and>
     configPhase (hd kept) = ConfigPhaseApplied \<and> m_Store w' = m_Store (memWith [] [])"
proof -
  let ?cs = "[sampleConfig 1 ConfigPhaseApplied '''', sampleConfig 2 ConfigPhaseInProgress '''',
    sampleConfig 3 ConfigPhaseApplied '''', sampleConfig 4 ConfigPhasePending '''']"
  obtain res w' where run: "cleanupSupersededConfigs memReconciler ?cs (memWith [] []) = (res, w')"
    by (cases "cleanupSupersededConfigs memReconciler ?cs (memWith [] [])")
  with cleanup_deletes_before_last_applied [OF mem_libs.operator_libs_axioms, of ?cs "memWith [] []"]
  show ?thesis
    by (cases res) (auto simp: wp_def phase_names dropConfigs_def split: if_splits)
qed

subsection \<open>The status written\<close>

interpretation mem_writer: status_writer memReconciler m_Store False
  by (simp add: status_writer_def mem_libs.operator_libs_axioms mem_retry.retry_lib_axioms
      mem_status.status_lib_axioms)

lemma aggregatedStatus_sel [simp]:
  "st_Replicas (aggregatedStatus r now g c l) = sp_Primaries (rk_Spec l)"
  "st_Status (aggregatedStatus r now g c l) = cst_Status (rc_Status c)"
  "st_Nodes (aggregatedStatus r now g c l) = emptyNodesIfNil (cst_Nodes (rc_Status c))"
  "st_ObservedGeneration (aggregatedStatus r now g c l) = g"
  "st_Conditions (aggregatedStatus r now g c l) = aggregateConditions r now (st_Conditions (rk_Status l)) c"
  "st_Phase (aggregatedStatus r now g c l) =
     computePhaseFromConditions r (aggregateConditions r now (st_Conditions (rk_Status l)) c)"
  by (simp_all add: aggregatedStatus_def Let_def)

text \<open>The topology that is on record for a storage cluster.\<close>

abbreviation recordedTopology :: "RedkeyStatus \<Rightarrow> int32 \<times> int32" where
  "recordedTopology st \<equiv> (st_LastAppliedPrimaries st, st_LastAppliedReplicasPerPrimary st)"

definition recordsTopology :: "Redkey \<Rightarrow> RedkeyConfig \<Rightarrow> bool" where
  "recordsTopology latest c \<longleftrightarrow> \<not> sp_Ephemeral (rk_Spec latest) \<and>
     configPhase c = ConfigPhaseApplied \<and> 0 < sint (cs_Primaries (rc_Spec c))"

lemma recordedTopology_aggregated:
  "recordedTopology (aggregatedStatus r now g c latest) =
     (if recordsTopology latest c
      then (cs_Primaries (rc_Spec c), cs_ReplicasPerPrimary (rc_Spec c))
      else recordedTopology (rk_Status latest))"
  by (simp add: aggregatedStatus_def Let_def recordsTopology_def)

text \<open>
  C14. \<^verbatim>\<open>aggregateStatus\<close>: on success the stored Redkey has the phase of the active config, reports
  the generation of the reconcile's snapshot as observed, and keeps its spec and generation; the
  topology on record is overwritten by a config that is applied, positive and of a storage cluster,
  and by nothing else, so it is never cleared. A failure writes nothing and needs an outage or a
  deleted Redkey, however many conflicts were retried.
\<close>

theorem aggregateStatus_writes:
  assumes "status_writer r api outage" and "wfStore (api w)"
    and "selectActiveConfig configs = Some c"
  shows "wp (aggregateStatus r cluster configs)
    (\<lambda>cluster' w'. \<exists>old new.
       fmlookup (s_Redkeys (api w)) (NamespacedName cluster) = Some old \<and>
       api w' = s_Redkeys_update (fmupd (NamespacedName cluster) new) (api w) \<and>
       rk_Spec new = rk_Spec old \<and> Generation (rk_Meta new) = Generation (rk_Meta old) \<and>
       cluster' = cluster\<lparr>rk_Status := rk_Status new\<rparr> \<and>
       st_ObservedGeneration (rk_Status new) = Generation (rk_Meta cluster) \<and>
       st_Replicas (rk_Status new) = sp_Primaries (rk_Spec old) \<and>
       st_Phase (rk_Status new) =
         (if hasConfigError c then PhaseError else if isConfigReady c then PhaseReady
          else PhaseConfiguring) \<and>
       recordedTopology (rk_Status new) =
         (if recordsTopology old c
          then (cs_Primaries (rc_Spec c), cs_ReplicasPerPrimary (rc_Spec c))
          else recordedTopology (rk_Status old)))
    (\<lambda>_ w'. api w' = api w \<and>
       (outage \<or> fmlookup (s_Redkeys (api w)) (NamespacedName cluster) = None)) w"
proof -
  have lib: "status_lib r" using assms(1) by (simp add: status_writer_def)
  show ?thesis
  proof (rule status_writer.wp_aggregateStatus [OF assms])
    fix latest now y w'
    assume "fmlookup (s_Redkeys (api w)) (NamespacedName cluster) = Some latest"
      and "withStatus latest (aggregatedStatus r now (Generation (rk_Meta cluster)) c latest) y"
      and "api w' = s_Redkeys_update (fmupd (NamespacedName cluster) y) (api w)"
    then show "\<exists>old new.
       fmlookup (s_Redkeys (api w)) (NamespacedName cluster) = Some old \<and>
       api w' = s_Redkeys_update (fmupd (NamespacedName cluster) new) (api w) \<and>
       rk_Spec new = rk_Spec old \<and> Generation (rk_Meta new) = Generation (rk_Meta old) \<and>
       cluster\<lparr>rk_Status := rk_Status y\<rparr> = cluster\<lparr>rk_Status := rk_Status new\<rparr> \<and>
       st_ObservedGeneration (rk_Status new) = Generation (rk_Meta cluster) \<and>
       st_Replicas (rk_Status new) = sp_Primaries (rk_Spec old) \<and>
       st_Phase (rk_Status new) =
         (if hasConfigError c then PhaseError else if isConfigReady c then PhaseReady
          else PhaseConfiguring) \<and>
       recordedTopology (rk_Status new) =
         (if recordsTopology old c
          then (cs_Primaries (rc_Spec c), cs_ReplicasPerPrimary (rc_Spec c))
          else recordedTopology (rk_Status old))"
      using recordedTopology_aggregated [of r now "Generation (rk_Meta cluster)" c latest]
      by (intro exI [of _ latest] exI [of _ y])
        (simp add: withStatus_def status_lib.phase_aggregateConditions [OF lib])
  qed auto
qed

theorem aggregateStatus_writes_witness:
  "\<exists>cluster' w'. aggregateStatus memReconciler sampleRedkey [sampleConfig 1 ConfigPhaseApplied ClusterStatusReady]
       (memWith [sampleRedkey] []) = (Inr cluster', w') \<and>
     st_Phase (rk_Status cluster') = PhaseReady \<and> recordedTopology (rk_Status cluster') = (3, 0)"
proof -
  let ?cs = "[sampleConfig 1 ConfigPhaseApplied ClusterStatusReady]"
  let ?w = "memWith [sampleRedkey] []"
  obtain res w' where run: "aggregateStatus memReconciler sampleRedkey ?cs ?w = (res, w')"
    by (cases "aggregateStatus memReconciler sampleRedkey ?cs ?w")
  have key: "metaKey (rk_Meta sampleRedkey) = (''ns'', ''demo'')"
    by (simp add: sampleRedkey_def metaKey_def)
  have "selectActiveConfig ?cs = Some (sampleConfig 1 ConfigPhaseApplied ClusterStatusReady)"
    by (simp add: selectActiveConfig_def)
  from aggregateStatus_writes [OF mem_writer.status_writer_axioms _ this, of ?w sampleRedkey] run
  show ?thesis
    by (cases res) (auto simp: wp_def key hasConfigError_def isConfigReady_def isTerminalConfigPhase_def
        status_names recordsTopology_def sampleSpec_def sampleConfig_def fmlookup_of_list)
qed

subsection \<open>One config per generation\<close>

lemma isNewConfig_matches:
  "isNewConfig cluster h y \<Longrightarrow>
   configMatches (Namespace (rk_Meta cluster)) (clusterSelector cluster) y"
  by (auto simp: isNewConfig_def configMatches_def clusterSelector_def metaKey_def)

lemma isNewConfig_covers: "isNewConfig cluster h y \<Longrightarrow> \<not> needsNewConfig cluster (Some y)"
  by (subst needsNewConfig_generation) (auto simp: isNewConfig_def)

lemma configsView_append:
  assumes view: "configsView cluster st cs" and y: "configMatches (Namespace (rk_Meta cluster)) (clusterSelector cluster) y"
    and greater: "\<And>c. c \<in> set cs \<Longrightarrow> sint (configSeq c) < sint (configSeq y)"
    and view': "configsView cluster (s_Configs_update (\<lambda>cs. cs @ [y]) st) cs'"
  obtains ys where "cs' = ys @ [y]" and "mset ys = mset cs"
proof -
  have m: "mset cs' = add_mset y (mset cs)"
    using view view' y by (simp add: configsView_def clusterConfigs_def)
  then obtain ys z where ys: "cs' = ys @ [z]"
    by (cases cs' rule: rev_cases) auto
  have "y \<in> set (ys @ [z])" and z: "z \<in> insert y (set cs)"
    using m ys by (metis set_mset_mset set_mset_add_mset_insert insertI1,
        metis in_set_conv_decomp set_mset_mset set_mset_add_mset_insert)
  moreover have "sorted (map (\<lambda>c. sint (configSeq c)) (ys @ [z]))"
    using view' ys by (simp add: configsView_def)
  ultimately have "sint (configSeq y) \<le> sint (configSeq z)" by (auto simp: sorted_append)
  with z greater have "z = y" by force
  with m ys show ?thesis by (intro that [of ys]) simp_all
qed

text \<open>The latest config, as the code takes it from the sorted list.\<close>

definition latestOf :: "RedkeyConfig list \<Rightarrow> RedkeyConfig option" where
  "latestOf cs = (if cs = [] then None else Some (last cs))"

lemma nextSequence_greater_all:
  assumes "sorted (map (\<lambda>c. sint (configSeq c)) cs)" and "c \<in> set cs"
    and "\<And>c. c \<in> set cs \<Longrightarrow> sint (configSeq c) < 2 ^ 63 - 1"
  shows "sint (configSeq c) < sint (nextSequence (latestOf cs))"
proof -
  obtain ys z where ys: "cs = ys @ [z]" using assms(2) by (cases cs rule: rev_cases) auto
  with assms have "sint (configSeq c) \<le> sint (configSeq z)" by (auto simp: sorted_append)
  moreover have "sint (nextSequence (Some z)) = sint (configSeq z) + 1"
    by (rule nextSequence_greater) (use assms(3) ys in auto)
  ultimately show ?thesis by (simp add: latestOf_def ys)
qed

text \<open>
  C13. Creating the config for the current generation settles it: listing again, the last config is
  the new one, it comes after every earlier one, none of them is lost, and \<^verbatim>\<open>needsNewConfig\<close> no longer
  asks for another. This holds while sequence numbers stay below the largest 64-bit integer and no
  other object has the new name; without an outage it cannot fail.
\<close>

theorem create_settles_generation:
  assumes "operator_libs r api outage" and "configsView cluster (api w) cs"
    and "\<forall>c \<in> set cs. sint (configSeq c) < 2 ^ 63 - 1"
    and "configKey (buildConfig cluster (latestOf cs)) \<notin> configKey ` set (s_Configs (api w))"
  shows "wp (bindE (createNewConfig r cluster (latestOf cs)) (\<lambda>_. listConfigs r cluster))
    (\<lambda>cs' w'. \<exists>ys y. cs' = ys @ [y] \<and> mset ys = mset cs \<and> isNewConfig cluster (latestOf cs) y \<and>
       (\<forall>c \<in> set ys. sint (configSeq c) < sint (configSeq y)) \<and>
       \<not> needsNewConfig cluster (Some (last cs')))
    (\<lambda>_ _. outage) w"
  unfolding wp_bindE
proof (rule operator_libs.wp_createNewConfig [OF assms(1)])
  fix y w1
  assume y: "isNewConfig cluster (latestOf cs) y"
    and w1: "api w1 = s_Configs_update (\<lambda>cs. cs @ [y]) (api w)"
  from y have seq: "configSeq y = nextSequence (latestOf cs)" by (simp add: isNewConfig_def)
  have greater: "sint (configSeq c) < sint (configSeq y)" if "c \<in> set cs" for c
    unfolding seq
    by (rule nextSequence_greater_all) (use assms(2,3) that in \<open>auto simp: configsView_def\<close>)
  show "wp (listConfigs r cluster)
      (\<lambda>cs' w'. \<exists>ys y. cs' = ys @ [y] \<and> mset ys = mset cs \<and> isNewConfig cluster (latestOf cs) y \<and>
         (\<forall>c \<in> set ys. sint (configSeq c) < sint (configSeq y)) \<and>
         \<not> needsNewConfig cluster (Some (last cs'))) (\<lambda>_ _. outage) w1"
  proof (rule operator_libs.wp_listConfigs [OF assms(1)])
    fix cs' w2
    assume "configsView cluster (api w1) cs'"
    then obtain ys where ys: "cs' = ys @ [y]" "mset ys = mset cs"
      using configsView_append [OF assms(2) isNewConfig_matches [OF y] greater] w1 by auto
    moreover from ys(2) have "set ys = set cs" by (metis set_mset_mset)
    ultimately show "\<exists>ys y. cs' = ys @ [y] \<and> mset ys = mset cs \<and> isNewConfig cluster (latestOf cs) y \<and>
         (\<forall>c \<in> set ys. sint (configSeq c) < sint (configSeq y)) \<and>
         \<not> needsNewConfig cluster (Some (last cs'))"
      using y greater isNewConfig_covers [OF y] by auto
  qed
qed (use assms(4) in auto)

theorem create_settles_generation_witness:
  "\<exists>cs' w'. bindE (createNewConfig memReconciler sampleRedkey None) (\<lambda>_. listConfigs memReconciler sampleRedkey)
      (memWith [sampleRedkey] []) = (Inr cs', w') \<and> length cs' = 1 \<and>
      \<not> needsNewConfig sampleRedkey (Some (last cs'))"
proof -
  let ?m = "bindE (createNewConfig memReconciler sampleRedkey None) (\<lambda>_. listConfigs memReconciler sampleRedkey)"
  obtain res w' where run: "?m (memWith [sampleRedkey] []) = (res, w')"
    by (cases "?m (memWith [sampleRedkey] [])")
  have "configsView sampleRedkey (m_Store (memWith [sampleRedkey] [])) []"
    by (simp add: configsView_def clusterConfigs_def)
  from create_settles_generation [OF mem_libs.operator_libs_axioms this] run
  show ?thesis by (cases res) (auto simp: wp_def latestOf_def)
qed

text \<open>
  \<^verbatim>\<open>createNewConfig\<close> adds exactly one config, an exact copy of the cluster's topology under the
  next sequence number, owned by the cluster, labelled with it and not yet processed; when the
  name is already taken (a stale cache) it changes nothing and still succeeds.
\<close>

theorem createNewConfig_effect:
  assumes "operator_libs r api outage"
  shows "wp (createNewConfig r cluster h)
    (\<lambda>_ w'. if configKey (buildConfig cluster h) \<in> configKey ` set (s_Configs (api w)) then api w' = api w
       else \<exists>y. isNewConfig cluster h y \<and> api w' = s_Configs_update (\<lambda>cs. cs @ [y]) (api w))
    (\<lambda>_ w'. outage \<and> api w' = api w) w"
  by (rule operator_libs.wp_createNewConfig [OF assms]) auto

theorem createNewConfig_effect_witness:
  "wp (createNewConfig memReconciler sampleRedkey None)
    (\<lambda>_ w'. length (s_Configs (m_Store w')) = 1) (\<lambda>_ _. False) (memWith [sampleRedkey] [])"
  by (rule wp_mono [OF createNewConfig_effect [OF mem_libs.operator_libs_axioms]]) auto

text \<open>
  Sequence numbers grow by one; past the largest 64-bit integer the counter wraps to the smallest.
\<close>

theorem nextSequence_bounds:
  "nextSequence None = 1 \<and>
   sint (nextSequence (Some c)) =
     (if sint (configSeq c) = 2 ^ 63 - 1 then - (2 ^ 63) else sint (configSeq c) + 1)"
proof (cases "sint (configSeq c) = 2 ^ 63 - 1")
  case True
  have "configSeq c = word_of_int (sint (configSeq c))" by simp
  then have "configSeq c = word_of_int (2 ^ 63 - 1)" unfolding True .
  with True show ?thesis by (simp add: nextSequence_def)
next
  case False
  then show ?thesis
    using nextSequence_greater [of c] sint_int64_bounds(2) [of "configSeq c"]
    by (simp add: nextSequence_def)
qed

end
