(* ===== verification/Scale_Zero.thy ===== *)
theory Scale_Zero
  imports Config
begin

section \<open>Scaling to zero (\<^verbatim>\<open>internal/controller/redkey_scale_zero.go\<close>)\<close>

text \<open>
  The reconciliation of a cluster with no primaries: the four cases of
  \<^verbatim>\<open>reconcileScaleToZero\<close>, the deletion of the operator's own objects and the status of a cluster
  that is scaled to zero.
\<close>

text \<open>\<^verbatim>\<open>ctrl.Result\<close>; zero is no requeue.\<close>

record Result =
  RequeueAfter :: int

definition emptyResult :: Result where
  "emptyResult = \<lparr>RequeueAfter = 0\<rparr>"

definition requeue :: "('w, 'z) RedkeyReconciler_scheme \<Rightarrow> Result" where
  "requeue r = \<lparr>RequeueAfter = ResyncInterval r\<rparr>"

subsection \<open>Deleting what the operator owns\<close>

text \<open>A delete that takes a missing object as done and wraps any other error.\<close>

definition deleteOrGone :: "string \<Rightarrow> ('w, unit) io \<Rightarrow> ('w, unit) io" where
  "deleteOrGone msg del =
     bindE (attemptE del) (\<lambda>res.
     case res of
       Inl e \<Rightarrow> if IsNotFound e then returnE () else throwE (Wrapped msg e)
     | Inr _ \<Rightarrow> returnE ())"

definition deleteRobinDeployment ::
  "('w, 'z) RedkeyReconciler_scheme \<Rightarrow> Redkey \<Rightarrow> ('w, unit) io" where
  "deleteRobinDeployment r cluster =
     deleteOrGone (''deleting Robin Deployment '' @ robinName cluster)
       (kDelete (deployments r) (Namespace (rk_Meta cluster), robinName cluster))"

text \<open>The kind in the error message is that of the object's type metadata, which is not set.\<close>

definition deleteRBAC :: "('w, 'z) RedkeyReconciler_scheme \<Rightarrow> Redkey \<Rightarrow> ('w, unit) io" where
  "deleteRBAC r cluster =
     forE [kDelete (roleBindings r), kDelete (roles r), kDelete (serviceAccounts r)]
       (\<lambda>del. deleteOrGone (''deleting RBAC resource /'' @ robinName cluster)
          (del (Namespace (rk_Meta cluster), robinName cluster)))"

definition deleteAllConfigs :: "('w, 'z) RedkeyReconciler_scheme \<Rightarrow> Redkey \<Rightarrow> ('w, unit) io" where
  "deleteAllConfigs r cluster =
     bindE (attemptE (listRedkeyConfigs r (Namespace (rk_Meta cluster)) (clusterSelector cluster))) (\<lambda>res.
     case res of
       Inl e \<Rightarrow> throwE (Wrapped ''listing configs for deletion'' e)
     | Inr items \<Rightarrow>
         forE items (\<lambda>c. deleteOrGone (''deleting config '' @ Name (rc_Meta c))
           (kDelete (redkeyConfigs r) (configKey c))))"

subsection \<open>The status of a cluster scaled to zero\<close>

definition scaledToZeroStatus ::
  "('w, 'z) RedkeyReconciler_scheme \<Rightarrow> int \<Rightarrow> Redkey \<Rightarrow> RedkeyStatus" where
  "scaledToZeroStatus r now cluster =
     (let st = rk_Status cluster;
          c1 = setStatusCondition r now (st_Conditions st)
            (mkCondition ''Ready'' ConditionTrue ''ScaledToZero'' []);
          c2 = setStatusCondition r now c1
            (mkCondition ''ConfigPending'' ConditionFalse ''ScaledToZero'' []);
          c3 = setStatusCondition r now c2
            (mkCondition ''Error'' ConditionFalse ''ScaledToZero'' [])
      in st\<lparr>st_Replicas := 0, st_Phase := PhaseReady, st_Status := [],
           st_Substatus := zeroSubstatus, st_Nodes := Some fmempty, st_LastUpdatedAt := Some now,
           st_ObservedGeneration := Generation (rk_Meta cluster), st_Conditions := c3\<rparr>)"

text \<open>The update answers with the stored object, which replaces the caller's copy.\<close>

definition updateStatusScaledToZero ::
  "('w, 'z) RedkeyReconciler_scheme \<Rightarrow> Redkey \<Rightarrow> ('w, Redkey) io" where
  "updateStatusScaledToZero r cluster =
     bindE (nowE r) (\<lambda>now.
     updateRedkeyStatus r (cluster\<lparr>rk_Status := scaledToZeroStatus r now cluster\<rparr>))"

subsection \<open>The four cases\<close>

definition reconcileScaleToZero ::
  "('w, 'z) RedkeyReconciler_scheme \<Rightarrow> Redkey \<Rightarrow> ('w, Result \<times> Redkey) io" where
  "reconcileScaleToZero r cluster =
     bindE (listConfigs r cluster) (\<lambda>configs.
     if configs = [] then
       bindE (updateStatusScaledToZero r cluster) (\<lambda>cluster'. returnE (requeue r, cluster'))
     else
       (let latestConfig = last configs in
        if cs_Primaries (rc_Spec latestConfig) \<noteq> 0 then
          bindE (ensureRBAC r cluster) (\<lambda>_.
          bindE (ensureRobinDeployment r cluster) (\<lambda>_.
          bindE (createNewConfig r cluster (Some latestConfig)) (\<lambda>_.
          returnE (requeue r, cluster))))
        else if configPhase latestConfig = ConfigPhaseApplied then
          bindE (deleteRobinDeployment r cluster) (\<lambda>_.
          bindE (deleteRBAC r cluster) (\<lambda>_.
          bindE (deleteAllConfigs r cluster) (\<lambda>_.
          bindE (updateStatusScaledToZero r cluster) (\<lambda>cluster'.
          returnE (requeue r, cluster')))))
        else
          bindE (ensureRBAC r cluster) (\<lambda>_.
          bindE (ensureRobinDeployment r cluster) (\<lambda>_.
          bindE (aggregateStatus r cluster configs) (\<lambda>cluster'.
          returnE (requeue r, cluster'))))))"

subsection \<open>Deleting leaves nothing behind\<close>

lemma wp_deleteOrGone_eq [wp_simps]:
  "wp (deleteOrGone msg m) Q E =
     wp m (\<lambda>_. Q ()) (\<lambda>e. if IsNotFound e then Q () else E (Wrapped msg e))"
  by (simp add: deleteOrGone_def wp_simps cong: if_cong)

context kind_api
begin

lemma wp_deleteOrGone:
  assumes noop: "fmlookup (proj (api w)) k = None \<Longrightarrow> upd (fmdrop k) (api w) = api w"
    and step: "\<And>w'. api w' = upd (fmdrop k) (api w) \<Longrightarrow> Q () w'"
    and err: "\<And>e w'. outage \<Longrightarrow> api w' = api w \<Longrightarrow> E e w'"
  shows "wp (deleteOrGone msg (kDelete K k)) Q E w"
  unfolding wp_deleteOrGone_eq by (rule wp_delete) (use noop step err in auto)

end

definition dropRBAC :: "nsname \<Rightarrow> store \<Rightarrow> store" where
  "dropRBAC k st = s_ServiceAccounts_update (fmdrop k) (s_Roles_update (fmdrop k)
     (s_RoleBindings_update (fmdrop k) st))"

lemma clusterConfigs_dropped:
  "clusterConfigs cluster (dropConfigs (configKey ` set (clusterConfigs cluster st)) st) = []"
  by (auto simp: clusterConfigs_def dropConfigs_def filter_empty_conv)

lemma wfStore_drops [simp]:
  "wfStore st \<Longrightarrow> wfStore (s_Deployments_update (fmdrop k) st)"
  "wfStore st \<Longrightarrow> wfStore (dropRBAC k st)"
  "wfStore st \<Longrightarrow> wfStore (dropConfigs K st)"
  by (simp_all add: wfStore_def dropRBAC_def dropConfigs_def)

text \<open>Nothing but deletions, of configs and of Robin's objects.\<close>

definition onlyDeleted :: "store \<Rightarrow> store \<Rightarrow> bool" where
  "onlyDeleted st st' \<longleftrightarrow> s_Redkeys st' = s_Redkeys st \<and> (wfStore st \<longrightarrow> wfStore st') \<and>
     (\<exists>K. s_Configs st' = s_Configs (dropConfigs K st))"

lemma dropConfigs_none [simp]: "dropConfigs {} st = st"
  by (simp add: dropConfigs_def)

lemma onlyDeleted_sameConfigs:
  "s_Redkeys st' = s_Redkeys st \<Longrightarrow> s_Configs st' = s_Configs st \<Longrightarrow> (wfStore st \<Longrightarrow> wfStore st') \<Longrightarrow> onlyDeleted st st'"
  by (auto simp: onlyDeleted_def intro!: exI [of _ "{}"])

lemma onlyDeleted_refl [simp]: "onlyDeleted st st"
  by (simp add: onlyDeleted_sameConfigs)

lemma onlyDeleted_drops [simp]:
  "onlyDeleted st (s_Deployments_update (fmdrop k) st)" "onlyDeleted st (dropRBAC k st)" "onlyDeleted st (dropConfigs K st)"
proof -
  show "onlyDeleted st (s_Deployments_update (fmdrop k) st)" "onlyDeleted st (dropRBAC k st)"
    by (rule onlyDeleted_sameConfigs; simp add: dropRBAC_def wfStore_def)+
  show "onlyDeleted st (dropConfigs K st)"
    unfolding onlyDeleted_def by (intro conjI impI exI [of _ K]) (simp_all add: dropConfigs_def wfStore_def)
qed

lemma onlyDeleted_trans: "onlyDeleted a b \<Longrightarrow> onlyDeleted b c \<Longrightarrow> onlyDeleted a c"
proof -
  assume a: "onlyDeleted a b" and b: "onlyDeleted b c"
  from a b obtain K L where "s_Configs b = s_Configs (dropConfigs K a)" "s_Configs c = s_Configs (dropConfigs L b)"
    unfolding onlyDeleted_def by blast
  then have "s_Configs c = s_Configs (dropConfigs (K \<union> L) a)" by (simp add: dropConfigs_def conj_commute)
  with a b show "onlyDeleted a c" unfolding onlyDeleted_def by auto
qed

context operator_libs
begin

lemma wp_deleteRobinDeployment:
  assumes "\<And>w'. api w' = s_Deployments_update (fmdrop (robinKey cluster)) (api w) \<Longrightarrow> Q () w'"
    and "\<And>e w'. outage \<Longrightarrow> api w' = api w \<Longrightarrow> E e w'"
  shows "wp (deleteRobinDeployment r cluster) Q E w"
  unfolding deleteRobinDeployment_def
proof (rule dep.wp_deleteOrGone)
  show "s_Deployments_update (fmdrop (robinKey cluster)) (api w) = api w"
    if "fmlookup (s_Deployments (api w)) (robinKey cluster) = None"
    using that by (cases "api w") (simp add: fmdrop_absent)
qed (use assms in auto)

lemma wp_deleteRBAC:
  assumes step: "\<And>w'. api w' = dropRBAC (robinKey cluster) (api w) \<Longrightarrow> Q () w'"
    and err: "\<And>e w'. outage \<Longrightarrow> onlyDeleted (api w) (api w') \<Longrightarrow> E e w'"
  shows "wp (deleteRBAC r cluster) Q E w"
proof -
  let ?del = "\<lambda>del. deleteOrGone (''deleting RBAC resource /'' @ robinName cluster) (del (robinKey cluster))"
  have "wp (?del (kDelete (serviceAccounts r))) Q E w'"
    if "api w' = s_Roles_update (fmdrop (robinKey cluster)) (s_RoleBindings_update (fmdrop (robinKey cluster)) (api w))"
    for w'
  proof (rule sa.wp_deleteOrGone)
    show "s_ServiceAccounts_update (fmdrop (robinKey cluster)) (api w') = api w'"
      if "fmlookup (s_ServiceAccounts (api w')) (robinKey cluster) = None"
      using that by (cases "api w'") (simp add: fmdrop_absent)
  qed (use that in \<open>auto simp: dropRBAC_def wfStore_def intro!: step err onlyDeleted_sameConfigs\<close>)
  moreover have "wp (?del (kDelete (roles r))) (\<lambda>_. wp (?del (kDelete (serviceAccounts r))) Q E) E w'"
    if "api w' = s_RoleBindings_update (fmdrop (robinKey cluster)) (api w)" for w'
  proof (rule role.wp_deleteOrGone)
    show "s_Roles_update (fmdrop (robinKey cluster)) (api w') = api w'"
      if "fmlookup (s_Roles (api w')) (robinKey cluster) = None"
      using that by (cases "api w'") (simp add: fmdrop_absent)
  qed (use that calculation in \<open>auto simp: wfStore_def intro!: err onlyDeleted_sameConfigs\<close>)
  moreover have "s_RoleBindings_update (fmdrop (robinKey cluster)) (api w) = api w"
    if "fmlookup (s_RoleBindings (api w)) (robinKey cluster) = None"
    using that by (cases "api w") (simp add: fmdrop_absent)
  ultimately show ?thesis
    by (simp add: deleteRBAC_def wp_bindE)
      (rule rb.wp_deleteOrGone, auto intro!: err onlyDeleted_sameConfigs)
qed

lemma wp_deleteConfigs:
  assumes "\<And>w'. api w' = dropConfigs (configKey ` set items) (api w) \<Longrightarrow> Q () w'"
    and "\<And>e K w'. outage \<Longrightarrow> K \<subseteq> configKey ` set items \<Longrightarrow> api w' = dropConfigs K (api w) \<Longrightarrow> E e w'"
  shows "wp (forE items (\<lambda>c. deleteOrGone (msg c) (kDelete (redkeyConfigs r) (configKey c)))) Q E w"
  using assms
proof (induction items arbitrary: w)
  case Nil
  then show ?case by (simp add: wp_simps)
next
  case (Cons c cs)
  have rest: "wp (forE cs (\<lambda>c. deleteOrGone (msg c) (kDelete (redkeyConfigs r) (configKey c)))) Q E w'"
    if "\<And>K. dropConfigs K (api w') = dropConfigs (insert (configKey c) K) (api w)" for w'
  proof (rule Cons.IH)
    fix w'' assume "api w'' = dropConfigs (configKey ` set cs) (api w')"
    then show "Q () w''" using Cons.prems(1) that by simp
  next
    fix e K w''
    assume outage "K \<subseteq> configKey ` set cs" "api w'' = dropConfigs K (api w')"
    then show "E e w''" using Cons.prems(2) [of "insert (configKey c) K" w'' e] that by auto
  qed
  have "wp (kDelete (redkeyConfigs r) (configKey c))
     (\<lambda>_. wp (forE cs (\<lambda>c. deleteOrGone (msg c) (kDelete (redkeyConfigs r) (configKey c)))) Q E)
     (\<lambda>e. if IsNotFound e
          then wp (forE cs (\<lambda>c. deleteOrGone (msg c) (kDelete (redkeyConfigs r) (configKey c)))) Q E
          else E (Wrapped (msg c) e)) w"
  proof (rule wp_config_delete, goal_cases)
    case (1 w')
    then show ?case by (intro rest) (simp add: dropConfigs_insert)
  next
    case (2 e w')
    then have "wp (forE cs (\<lambda>c. deleteOrGone (msg c) (kDelete (redkeyConfigs r) (configKey c)))) Q E w'"
      by (intro rest) (simp add: dropConfigs_absent)
    with 2 show ?case by simp
  next
    case (3 e w')
    with Cons.prems(2) [of "{}" w'] show ?case by simp
  qed
  then show ?case
    by (simp add: wp_bindE wp_deleteOrGone_eq)
qed

lemma wp_deleteAllConfigs:
  assumes step: "\<And>w'. api w' = dropConfigs (configKey ` set (clusterConfigs cluster (api w))) (api w) \<Longrightarrow> Q () w'"
    and err: "\<And>e K w'. outage \<Longrightarrow> api w' = dropConfigs K (api w) \<Longrightarrow> E e w'"
  shows "wp (deleteAllConfigs r cluster) Q E w"
proof -
  have "wp (listRedkeyConfigs r (Namespace (rk_Meta cluster)) (clusterSelector cluster))
      (\<lambda>items. wp (forE items (\<lambda>c. deleteOrGone (''deleting config '' @ Name (rc_Meta c))
         (kDelete (redkeyConfigs r) (configKey c)))) Q E)
      (\<lambda>e. E (Wrapped ''listing configs for deletion'' e)) w"
  proof (rule wp_list)
    fix cs w'
    assume w': "api w' = api w" and m: "mset cs =
      mset (filter (configMatches (Namespace (rk_Meta cluster)) (clusterSelector cluster)) (s_Configs (api w)))"
    then have "set cs = set (clusterConfigs cluster (api w))"
      unfolding clusterConfigs_def by (metis set_mset_mset)
    then show "wp (forE cs (\<lambda>c. deleteOrGone (''deleting config '' @ Name (rc_Meta c))
         (kDelete (redkeyConfigs r) (configKey c)))) Q E w'"
      using w' by (intro wp_deleteConfigs) (auto intro: step err)
  qed (use err [of _ "{}"] in simp)
  then show ?thesis by (simp add: deleteAllConfigs_def wp_simps)
qed

lemma wp_updateStatusScaledToZero:
  assumes step: "\<And>old now y w'. fmlookup (s_Redkeys (api w)) (metaKey (rk_Meta cluster)) = Some old \<Longrightarrow>
      withStatus old (scaledToZeroStatus r now cluster) y \<Longrightarrow>
      api w' = s_Redkeys_update (fmupd (metaKey (rk_Meta cluster)) y) (api w) \<Longrightarrow> Q y w'"
    and err: "\<And>e w'. api w' = api w \<Longrightarrow>
      outage \<or> (\<forall>old. fmlookup (s_Redkeys (api w)) (metaKey (rk_Meta cluster)) = Some old \<longrightarrow>
        ResourceVersion (rk_Meta old) \<noteq> ResourceVersion (rk_Meta cluster)) \<Longrightarrow> E e w'"
  shows "wp (updateStatusScaledToZero r cluster) Q E w"
proof -
  have "wp (updateRedkeyStatus r (cluster\<lparr>rk_Status := scaledToZeroStatus r now cluster\<rparr>)) Q E w'"
    if "api w' = api w" for now w'
    by (rule wp_status) (use that in \<open>auto intro: step err\<close>)
  then show ?thesis
    by (simp add: updateStatusScaledToZero_def wp_bindE wp_def [of "nowE r"] nowE_def)
qed

end

subsection \<open>The four cases\<close>

lemma metaKey_NamespacedName [simp]: "metaKey (rk_Meta cluster) = NamespacedName cluster"
  by (simp add: metaKey_def NamespacedName_def)

lemma configsView_unique:
  assumes "configsView cluster st cs" and "configsView cluster st cs'" and "distinct (map configSeq cs)"
  shows "cs' = cs"
proof -
  have "inj_on (\<lambda>c. sint (configSeq c)) (set cs)" and "distinct cs"
    using assms(3) by (auto simp: distinct_map inj_on_def sint_eq_iff)
  then have "distinct (map (\<lambda>c. sint (configSeq c)) cs)" by (simp add: distinct_map)
  with assms(1,2) have "cs = cs'"
    by (intro sorted_key_unique [of cs cs' "\<lambda>c. sint (configSeq c)"]) (auto simp: configsView_def)
  then show ?thesis by simp
qed

lemma scaledToZeroStatus_sel [simp]:
  "st_Replicas (scaledToZeroStatus r now cluster) = 0"
  "st_Phase (scaledToZeroStatus r now cluster) = PhaseReady"
  "st_Status (scaledToZeroStatus r now cluster) = []"
  "st_ObservedGeneration (scaledToZeroStatus r now cluster) = Generation (rk_Meta cluster)"
  "recordedTopology (scaledToZeroStatus r now cluster) = recordedTopology (rk_Status cluster)"
  by (simp_all add: scaledToZeroStatus_def Let_def)

text \<open>The stored Redkey of a cluster scaled to zero.\<close>

definition scaledToZero :: "Redkey \<Rightarrow> Redkey \<Rightarrow> store \<Rightarrow> bool" where
  "scaledToZero cluster cluster' st \<longleftrightarrow>
     fmlookup (s_Redkeys st) (NamespacedName cluster) = Some cluster' \<and>
     st_Replicas (rk_Status cluster') = 0 \<and> st_Phase (rk_Status cluster') = PhaseReady \<and>
     st_Status (rk_Status cluster') = [] \<and>
     st_ObservedGeneration (rk_Status cluster') = Generation (rk_Meta cluster) \<and>
     recordedTopology (rk_Status cluster') = recordedTopology (rk_Status cluster)"

text \<open>A status write keeps everything else of the Redkey it found.\<close>

definition statusWritten :: "Redkey \<Rightarrow> store \<Rightarrow> Redkey \<Rightarrow> bool" where
  "statusWritten cluster st y \<longleftrightarrow>
     (\<exists>old. fmlookup (s_Redkeys st) (NamespacedName cluster) = Some old \<and> withStatus old (rk_Status y) y)"

text \<open>The caller's copy is the stored object: nobody changed it since it was read.\<close>

definition current :: "Redkey \<Rightarrow> store \<Rightarrow> bool" where
  "current cluster st \<longleftrightarrow> (\<exists>old. fmlookup (s_Redkeys st) (NamespacedName cluster) = Some old \<and>
     ResourceVersion (rk_Meta old) = ResourceVersion (rk_Meta cluster))"

context operator_libs
begin

lemma wp_scaledToZero:
  assumes "current cluster (api w)"
    and step: "\<And>y w'. scaledToZero cluster y (api w') \<Longrightarrow> statusWritten cluster (api w) y \<Longrightarrow>
      api w' = s_Redkeys_update (fmupd (NamespacedName cluster) y) (api w) \<Longrightarrow> Q y w'"
    and err: "\<And>e w'. outage \<Longrightarrow> api w' = api w \<Longrightarrow> E e w'"
  shows "wp (updateStatusScaledToZero r cluster) Q E w"
  by (rule wp_updateStatusScaledToZero)
    (use assms(1) in \<open>auto simp: current_def scaledToZero_def statusWritten_def withStatus_def intro!: step err\<close>)

lemma wp_listConfigs_unique:
  assumes "configsView cluster (api w) cs" and "distinct (map configSeq cs)"
    and "\<And>w'. api w' = api w \<Longrightarrow> Q cs w'" and "\<And>e w'. outage \<Longrightarrow> api w' = api w \<Longrightarrow> E e w'"
  shows "wp (listConfigs r cluster) Q E w"
proof (rule wp_listConfigs)
  fix cs' w' assume "api w' = api w" and "configsView cluster (api w) cs'"
  then show "Q cs' w'" using configsView_unique [OF assms(1) _ assms(2)] assms(3) by blast
qed (use assms(4) in auto)

text \<open>Robin is kept running: both handlers in sequence.\<close>

lemma wp_keepRobin:
  assumes wf: "wfStore (api w)"
    and norev: "mapGet (derefMap (sp_Annotations (rk_Spec cluster))) deploymentRevisionAnnotation = None"
    and step: "\<And>w'. rbacOk cluster (api w') \<Longrightarrow> deploymentOk r cluster (api w') \<Longrightarrow> wfStore (api w') \<Longrightarrow>
      s_Redkeys (api w') = s_Redkeys (api w) \<Longrightarrow> s_Configs (api w') = s_Configs (api w) \<Longrightarrow> wp m Q E w'"
    and err: "\<And>e w'. outage \<Longrightarrow> wfStore (api w') \<Longrightarrow> s_Redkeys (api w') = s_Redkeys (api w) \<Longrightarrow>
      s_Configs (api w') = s_Configs (api w) \<Longrightarrow> E e w'"
  shows "wp (bindE (ensureRBAC r cluster) (\<lambda>_. bindE (ensureRobinDeployment r cluster) (\<lambda>_. m))) Q E w"
  unfolding wp_bindE
proof (rule wp_ensureRBAC [OF wf])
  fix w1 assume 1: "rbacOk cluster (api w1)" "wfStore (api w1)" "sameBut (api w) (api w1)"
  show "wp (ensureRobinDeployment r cluster) (\<lambda>_. wp m Q E) E w1"
  proof (rule wp_ensureRobinDeployment [OF 1(2) norev])
    fix w2 assume 2: "deploymentOk r cluster (api w2)" "wfStore (api w2)"
      "onlyDeployment cluster (api w1) (api w2)"
    from 2(3) 1 have "rbacOk cluster (api w2)"
      by (auto simp: onlyDeployment_def rbacOk_def saOk_def roleOk_def bindingOk_def)
    with 1 2 show "wp m Q E w2" by (intro step) (auto simp: sameBut_def onlyDeployment_def)
  qed (use 1 err in \<open>auto simp: sameBut_def\<close>)
qed (use wf err in \<open>auto simp: sameBut_def\<close>)

end

context operator_libs
begin

lemma wp_bind_listConfigs:
  assumes "configsView cluster (api w) cs" and "distinct (map configSeq cs)"
    and "\<And>w'. api w' = api w \<Longrightarrow> wp (f cs) Q E w'" and "\<And>e w'. outage \<Longrightarrow> api w' = api w \<Longrightarrow> E e w'"
  shows "wp (bindE (listConfigs r cluster) f) Q E w"
  unfolding wp_bindE by (rule wp_listConfigs_unique [OF assms(1,2)]) (use assms(3,4) in auto)

lemma wp_scaleToZero_idle:
  assumes "clusterConfigs cluster (api w) = []" and "current cluster (api w)"
    and step: "\<And>y w'. scaledToZero cluster y (api w') \<Longrightarrow> statusWritten cluster (api w) y \<Longrightarrow>
      api w' = s_Redkeys_update (fmupd (NamespacedName cluster) y) (api w) \<Longrightarrow> Q (requeue r, y) w'"
    and err: "\<And>e w'. outage \<Longrightarrow> api w' = api w \<Longrightarrow> E e w'"
  shows "wp (reconcileScaleToZero r cluster) Q E w"
  unfolding reconcileScaleToZero_def
proof (rule wp_bind_listConfigs [where cs = "[]"], goal_cases)
  case (3 w')
  have "wp (updateStatusScaledToZero r cluster) (\<lambda>y. Q (requeue r, y)) E w'"
    by (rule wp_scaledToZero) (use 3 assms(2) in \<open>auto intro: step err\<close>)
  then show ?case by (simp add: wp_simps)
qed (use assms(1) err in \<open>auto simp: configsView_def\<close>)

lemma wp_scaleToZero_request:
  assumes wf: "wfStore (api w)"
    and norev: "mapGet (derefMap (sp_Annotations (rk_Spec cluster))) deploymentRevisionAnnotation = None"
    and view: "configsView cluster (api w) cs" "distinct (map configSeq cs)" "cs \<noteq> []"
    and latest: "cs_Primaries (rc_Spec (last cs)) \<noteq> 0"
    and step: "\<And>w'. rbacOk cluster (api w') \<Longrightarrow> deploymentOk r cluster (api w') \<Longrightarrow> wfStore (api w') \<Longrightarrow>
      s_Redkeys (api w') = s_Redkeys (api w) \<Longrightarrow>
      (if configKey (buildConfig cluster (Some (last cs))) \<in> configKey ` set (s_Configs (api w))
       then s_Configs (api w') = s_Configs (api w)
       else \<exists>y. isNewConfig cluster (Some (last cs)) y \<and> s_Configs (api w') = s_Configs (api w) @ [y]) \<Longrightarrow>
      Q (requeue r, cluster) w'"
    and err: "\<And>e w'. outage \<Longrightarrow> wfStore (api w') \<Longrightarrow> s_Redkeys (api w') = s_Redkeys (api w) \<Longrightarrow>
      s_Configs (api w') = s_Configs (api w) \<Longrightarrow> E e w'"
  shows "wp (reconcileScaleToZero r cluster) Q E w"
  unfolding reconcileScaleToZero_def
proof (rule wp_bind_listConfigs [OF view(1,2)], goal_cases)
  case (1 w')
  have "wp (bindE (ensureRBAC r cluster) (\<lambda>_. bindE (ensureRobinDeployment r cluster) (\<lambda>_.
      bindE (createNewConfig r cluster (Some (last cs))) (\<lambda>_. returnE (requeue r, cluster))))) Q E w'"
  proof (rule wp_keepRobin)
    fix w1
    assume w1: "rbacOk cluster (api w1)" "deploymentOk r cluster (api w1)" "wfStore (api w1)"
      "s_Redkeys (api w1) = s_Redkeys (api w')" "s_Configs (api w1) = s_Configs (api w')"
    show "wp (bindE (createNewConfig r cluster (Some (last cs))) (\<lambda>_. returnE (requeue r, cluster))) Q E w1"
      unfolding wp_simps
    proof (rule wp_createNewConfig)
      fix y w2
      assume "configKey (buildConfig cluster (Some (last cs))) \<notin> configKey ` set (s_Configs (api w1))"
        "isNewConfig cluster (Some (last cs)) y" "api w2 = s_Configs_update (\<lambda>cs. cs @ [y]) (api w1)"
      then show "Q (requeue r, cluster) w2"
        using w1 1
        by (intro step) (auto simp: rbacOk_def saOk_def roleOk_def bindingOk_def deploymentOk_def wfStore_def)
    qed (use w1 1 in \<open>auto intro!: step err\<close>)
  qed (use 1 wf norev err in auto)
  with view(3) latest show ?case by simp
qed (use wf err in auto)

lemma wp_scaleToZero_teardown:
  assumes view: "configsView cluster (api w) cs" "distinct (map configSeq cs)" "cs \<noteq> []"
    and latest: "cs_Primaries (rc_Spec (last cs)) = 0" "configPhase (last cs) = ConfigPhaseApplied"
    and current: "current cluster (api w)"
    and step: "\<And>y w'. scaledToZero cluster y (api w') \<Longrightarrow> statusWritten cluster (api w) y \<Longrightarrow>
      api w' = s_Redkeys_update (fmupd (NamespacedName cluster) y)
        (dropConfigs (configKey ` set (clusterConfigs cluster (api w)))
          (dropRBAC (robinKey cluster) (s_Deployments_update (fmdrop (robinKey cluster)) (api w)))) \<Longrightarrow>
      Q (requeue r, y) w'"
    and err: "\<And>e w'. outage \<Longrightarrow> onlyDeleted (api w) (api w') \<Longrightarrow> E e w'"
  shows "wp (reconcileScaleToZero r cluster) Q E w"
  unfolding reconcileScaleToZero_def
proof (rule wp_bind_listConfigs [OF view(1,2)], goal_cases)
  case (1 w0)
  have configs: "clusterConfigs cluster (dropRBAC k (s_Deployments_update f st)) = clusterConfigs cluster st"
    for k f st by (simp add: clusterConfigs_def dropRBAC_def)
  let ?st = "dropRBAC (robinKey cluster) (s_Deployments_update (fmdrop (robinKey cluster)) (api w))"
  have bare: "onlyDeleted (api w) ?st" by (rule onlyDeleted_trans [OF onlyDeleted_drops(1,2)])
  let ?st' = "dropConfigs (configKey ` set (clusterConfigs cluster (api w))) ?st"
  have all: "onlyDeleted (api w) ?st'" by (rule onlyDeleted_trans [OF bare onlyDeleted_drops(3)])
  have st': "s_Redkeys ?st' = s_Redkeys (api w)" by (simp add: dropConfigs_def dropRBAC_def)
  have status: "wp (updateStatusScaledToZero r cluster) (\<lambda>y. Q (requeue r, y)) E w'" if w': "api w' = ?st'" for w'
  proof (rule wp_scaledToZero, goal_cases)
    case 1
    show ?case using current by (simp add: current_def w' st')
  next
    case (2 y w'')
    then show ?case by (intro step) (simp_all add: statusWritten_def w' st')
  next
    case (3 e w'')
    then show ?case by (intro err) (simp_all add: w' all)
  qed
  have delete: "wp (deleteAllConfigs r cluster) (\<lambda>_. wp (updateStatusScaledToZero r cluster) (\<lambda>y. Q (requeue r, y)) E) E w'"
    if w': "api w' = ?st" for w'
  proof (rule wp_deleteAllConfigs, goal_cases)
    case (1 w'')
    then show ?case by (intro status) (simp add: w' configs)
  next
    case (2 e K w'')
    then show ?case using onlyDeleted_trans [OF bare onlyDeleted_drops(3)] by (intro err) (simp_all add: w')
  qed
  have "wp (deleteRobinDeployment r cluster) (\<lambda>_. wp (deleteRBAC r cluster) (\<lambda>_.
      wp (deleteAllConfigs r cluster) (\<lambda>_. wp (updateStatusScaledToZero r cluster)
        (\<lambda>y. Q (requeue r, y)) E) E) E) E w0"
  proof (rule wp_deleteRobinDeployment, goal_cases)
    case dep: (1 w')
    show ?case
    proof (rule wp_deleteRBAC, goal_cases)
      case (1 w'')
      then show ?case by (intro delete) (simp add: dep \<open>api w0 = api w\<close>)
    next
      case (2 e w'')
      then show ?case
        using onlyDeleted_trans [OF onlyDeleted_drops(1)] by (intro err) (auto simp: dep \<open>api w0 = api w\<close>)
    qed
  qed (use 1 err in auto)
  with view(3) latest show ?case by (simp add: wp_simps)
qed (use err in auto)

end

context status_writer
begin

lemma wp_scaleToZero_wait:
  assumes wf: "wfStore (api w)"
    and norev: "mapGet (derefMap (sp_Annotations (rk_Spec cluster))) deploymentRevisionAnnotation = None"
    and view: "configsView cluster (api w) cs" "distinct (map configSeq cs)" "cs \<noteq> []"
    and latest: "cs_Primaries (rc_Spec (last cs)) = 0" "configPhase (last cs) \<noteq> ConfigPhaseApplied"
    and present: "fmlookup (s_Redkeys (api w)) (NamespacedName cluster) = Some old"
    and active: "selectActiveConfig cs = Some c"
    and step: "\<And>now y w'. rbacOk cluster (api w') \<Longrightarrow> deploymentOk r cluster (api w') \<Longrightarrow> wfStore (api w') \<Longrightarrow>
      s_Configs (api w') = s_Configs (api w) \<Longrightarrow>
      withStatus old (aggregatedStatus r now (Generation (rk_Meta cluster)) c old) y \<Longrightarrow>
      s_Redkeys (api w') = fmupd (NamespacedName cluster) y (s_Redkeys (api w)) \<Longrightarrow>
      Q (requeue r, cluster\<lparr>rk_Status := rk_Status y\<rparr>) w'"
    and err: "\<And>e w'. outage \<Longrightarrow> wfStore (api w') \<Longrightarrow> s_Redkeys (api w') = s_Redkeys (api w) \<Longrightarrow>
      s_Configs (api w') = s_Configs (api w) \<Longrightarrow> E e w'"
  shows "wp (reconcileScaleToZero r cluster) Q E w"
  unfolding reconcileScaleToZero_def
proof (rule wp_bind_listConfigs [OF view(1,2)], goal_cases)
  case (1 w')
  have "wp (bindE (ensureRBAC r cluster) (\<lambda>_. bindE (ensureRobinDeployment r cluster) (\<lambda>_.
      bindE (aggregateStatus r cluster cs) (\<lambda>cluster'. returnE (requeue r, cluster'))))) Q E w'"
  proof (rule wp_keepRobin)
    fix w1
    assume w1: "rbacOk cluster (api w1)" "deploymentOk r cluster (api w1)" "wfStore (api w1)"
      "s_Redkeys (api w1) = s_Redkeys (api w')" "s_Configs (api w1) = s_Configs (api w')"
    show "wp (bindE (aggregateStatus r cluster cs) (\<lambda>cluster'. returnE (requeue r, cluster'))) Q E w1"
      unfolding wp_simps
    proof (rule wp_aggregateStatus [OF w1(3) active])
      fix latest now y w2
      assume "fmlookup (s_Redkeys (api w1)) (NamespacedName cluster) = Some latest"
        and "withStatus latest (aggregatedStatus r now (Generation (rk_Meta cluster)) c latest) y"
        and "api w2 = s_Redkeys_update (fmupd (NamespacedName cluster) y) (api w1)"
      then show "Q (requeue r, cluster\<lparr>rk_Status := rk_Status y\<rparr>) w2"
        using w1 1 present keyedD [of "\<lambda>x. metaKey (rk_Meta x)" "s_Redkeys (api w1)"]
        by (intro step) (auto simp: rbacOk_def saOk_def roleOk_def bindingOk_def deploymentOk_def wfStore_def
            withStatus_def)
    qed (use w1 1 present in \<open>auto intro!: err\<close>)
  qed (use 1 wf norev err in auto)
  with view(3) latest show ?case by simp
qed (use wf err in auto)

end

subsection \<open>Properties\<close>

text \<open>
  C10. A cluster with no primaries and no configs only has its status written: Ready with no
  replicas at the generation that was read, with the topology on record kept. No object is created.
\<close>

theorem scale_to_zero_idle:
  assumes "operator_libs r api outage" and "clusterConfigs cluster (api w) = []"
    and "current cluster (api w)"
  shows "wp (reconcileScaleToZero r cluster)
    (\<lambda>(res, cluster') w'. res = requeue r \<and> scaledToZero cluster cluster' (api w') \<and>
       api w' = s_Redkeys_update (fmupd (NamespacedName cluster) cluster') (api w))
    (\<lambda>_ w'. outage \<and> api w' = api w) w"
  by (rule operator_libs.wp_scaleToZero_idle [OF assms]) auto


text \<open>
  C8. Once Robin has applied the config without primaries, the operator removes everything it owns:
  afterwards no Deployment, ServiceAccount, Role or RoleBinding of Robin and no config of the cluster
  is left, and the status is that of a cluster scaled to zero, with the topology on record kept.
  An error needs an outage and does not touch the stored Redkey.
\<close>

theorem scale_to_zero_teardown:
  assumes "operator_libs r api outage"
    and "configsView cluster (api w) cs" and "distinct (map configSeq cs)" and "cs \<noteq> []"
    and "cs_Primaries (rc_Spec (last cs)) = 0" and "configPhase (last cs) = ConfigPhaseApplied"
    and "current cluster (api w)"
  shows "wp (reconcileScaleToZero r cluster)
    (\<lambda>(res, cluster') w'. res = requeue r \<and> scaledToZero cluster cluster' (api w') \<and>
       clusterConfigs cluster (api w') = [] \<and>
       fmlookup (s_Deployments (api w')) (robinKey cluster) = None \<and>
       fmlookup (s_ServiceAccounts (api w')) (robinKey cluster) = None \<and>
       fmlookup (s_Roles (api w')) (robinKey cluster) = None \<and>
       fmlookup (s_RoleBindings (api w')) (robinKey cluster) = None)
    (\<lambda>_ w'. outage \<and> s_Redkeys (api w') = s_Redkeys (api w)) w"
proof (rule operator_libs.wp_scaleToZero_teardown [OF assms], goal_cases)
  case (1 y w')
  have "clusterConfigs cluster (s_Redkeys_update f (dropConfigs K (dropRBAC k (s_Deployments_update g st)))) =
      clusterConfigs cluster (dropConfigs K st)" for f K k g st
    by (simp add: clusterConfigs_def dropConfigs_def dropRBAC_def)
  with 1 show ?case
    by (simp add: clusterConfigs_dropped) (simp add: dropConfigs_def dropRBAC_def)
qed (auto simp: onlyDeleted_def)

text \<open>
  While Robin is still working on the config without primaries, its objects are kept as desired,
  no config is created or deleted, and the status mirrors the active config.
\<close>

theorem scale_to_zero_waits:
  assumes "status_writer r api outage" and "wfStore (api w)"
    and "mapGet (derefMap (sp_Annotations (rk_Spec cluster))) deploymentRevisionAnnotation = None"
    and "configsView cluster (api w) cs" and "distinct (map configSeq cs)" and "cs \<noteq> []"
    and "cs_Primaries (rc_Spec (last cs)) = 0" and "configPhase (last cs) \<noteq> ConfigPhaseApplied"
    and "fmlookup (s_Redkeys (api w)) (NamespacedName cluster) = Some old"
    and "selectActiveConfig cs = Some c"
  shows "wp (reconcileScaleToZero r cluster)
    (\<lambda>(res, cluster') w'. res = requeue r \<and> rbacOk cluster (api w') \<and> deploymentOk r cluster (api w') \<and>
       s_Configs (api w') = s_Configs (api w) \<and>
       st_Status (rk_Status cluster') = cst_Status (rc_Status c) \<and>
       recordedTopology (rk_Status cluster') =
         (if recordsTopology old c then (cs_Primaries (rc_Spec c), cs_ReplicasPerPrimary (rc_Spec c))
          else recordedTopology (rk_Status old)))
    (\<lambda>_ w'. outage \<and> s_Redkeys (api w') = s_Redkeys (api w) \<and> s_Configs (api w') = s_Configs (api w)) w"
proof (rule status_writer.wp_scaleToZero_wait [OF assms], goal_cases)
  case (1 now y w')
  then have y: "rk_Status y = aggregatedStatus r now (Generation (rk_Meta cluster)) c old"
    by (simp add: withStatus_def)
  from 1 recordedTopology_aggregated [of r now "Generation (rk_Meta cluster)" c old] show ?case
    by (simp add: y)
qed auto

subsection \<open>Witnesses\<close>

text \<open>The sample cluster scaled to zero, and the config that asks Robin for it.\<close>

definition zeroRedkey :: Redkey where
  "zeroRedkey = sampleRedkey\<lparr>rk_Meta := (rk_Meta sampleRedkey)\<lparr>Generation := 2\<rparr>,
     rk_Spec := sampleSpec\<lparr>sp_Primaries := 0\<rparr>\<rparr>"

definition zeroConfig :: "string \<Rightarrow> RedkeyConfig" where
  "zeroConfig phase = sampleConfig 2 phase ClusterStatusScalingToZero
     \<lparr>rc_Spec := (rc_Spec (sampleConfig 2 phase ClusterStatusScalingToZero))\<lparr>cs_Primaries := 0\<rparr>\<rparr>"

lemma zeroRedkey_sel [simp]:
  "NamespacedName zeroRedkey = (''ns'', ''demo'')"
  "Namespace (rk_Meta zeroRedkey) = ''ns''" "Name (rk_Meta zeroRedkey) = ''demo''"
  "sp_Annotations (rk_Spec zeroRedkey) = None"
  by (simp_all add: zeroRedkey_def sampleRedkey_def sampleSpec_def NamespacedName_def)

lemma zeroConfig_sel [simp]:
  "cs_Primaries (rc_Spec (zeroConfig ph)) = 0" "configPhase (zeroConfig ph) = ph"
  "configSeq (zeroConfig ph) = 2"
  by (simp_all add: zeroConfig_def)

lemma sample_matches:
  "configMatches ''ns'' (clusterSelector zeroRedkey) (sampleConfig n ph st)"
  "configMatches ''ns'' (clusterSelector zeroRedkey) (zeroConfig ph)"
  by (simp_all add: configMatches_def clusterSelector_def zeroConfig_def sampleConfig_def fmpred_iff
      ClusterLabel_def fmlookup_of_list)

lemma sample_views:
  "configsView zeroRedkey (m_Store (memWith rks [sampleConfig 1 ph st])) [sampleConfig 1 ph st]"
  "configsView zeroRedkey (m_Store (memWith rks [sampleConfig 1 ph st, zeroConfig ph']))
     [sampleConfig 1 ph st, zeroConfig ph']"
  by (simp_all add: configsView_def clusterConfigs_def sample_matches)

lemma current_sample: "current zeroRedkey (m_Store (memWith [zeroRedkey] cs))"
  by (simp add: current_def fmlookup_of_list)

theorem scale_to_zero_idle_witness:
  "wp (reconcileScaleToZero memReconciler zeroRedkey)
    (\<lambda>(res, cluster') w'. st_Phase (rk_Status cluster') = PhaseReady \<and> s_Configs (m_Store w') = [])
    (\<lambda>_ _. False) (memWith [zeroRedkey] [])"
  by (rule wp_mono [OF scale_to_zero_idle [OF mem_libs.operator_libs_axioms _ current_sample]])
    (auto simp: clusterConfigs_def scaledToZero_def)


theorem scale_to_zero_teardown_witness:
  "wp (reconcileScaleToZero memReconciler zeroRedkey)
    (\<lambda>(res, cluster') w'. clusterConfigs zeroRedkey (m_Store w') = [] \<and>
       fmlookup (s_Deployments (m_Store w')) (''ns'', ''demo-robin'') = None)
    (\<lambda>_ _. False)
    (memWith [zeroRedkey] [sampleConfig 1 ConfigPhaseApplied ClusterStatusReady, zeroConfig ConfigPhaseApplied])"
  by (rule wp_mono [OF scale_to_zero_teardown [OF mem_libs.operator_libs_axioms sample_views(2) _ _ _ _
        current_sample]])
    (auto simp: robinName_def)

theorem scale_to_zero_waits_witness:
  "wp (reconcileScaleToZero memReconciler zeroRedkey)
    (\<lambda>(res, cluster') w'. recordedTopology (rk_Status cluster') = (3, 0) \<and>
       length (s_Configs (m_Store w')) = 2)
    (\<lambda>_ _. False)
    (memWith [zeroRedkey] [sampleConfig 1 ConfigPhaseApplied ClusterStatusReady, zeroConfig ConfigPhasePending])"
proof -
  have active: "selectActiveConfig [sampleConfig 1 ConfigPhaseApplied ClusterStatusReady, zeroConfig ConfigPhasePending] =
      Some (sampleConfig 1 ConfigPhaseApplied ClusterStatusReady)"
    by (simp add: selectActiveConfig_def phase_names)
  show ?thesis
    by (rule wp_mono [OF scale_to_zero_waits [OF mem_writer.status_writer_axioms _ _ sample_views(2)
          _ _ _ _ _ active, where old = zeroRedkey]])
      (auto simp: phase_names fmlookup_of_list recordsTopology_def zeroRedkey_def sampleSpec_def sampleConfig_def)
qed

end
