(* ===== verification/Handler_Frames.thy ===== *)
theory Handler_Frames
  imports Scale_Zero
begin

section \<open>What the handlers leave alone\<close>

text \<open>
  A predicate on the world that every request of some kind keeps is kept by the handlers that make only such
  requests. There is one locale for each group of requests, and what it assumes of the client and the metrics is
  all that the handlers of the group use.
\<close>

definition kindKeeps :: "('w \<Rightarrow> bool) \<Rightarrow> ('w, 'a) KindClient \<Rightarrow> bool" where
  "kindKeeps P K \<longleftrightarrow> (\<forall>k. keeps P (kGet K k)) \<and> (\<forall>x. keeps P (kCreate K x)) \<and>
     (\<forall>b x. keeps P (kPatch K b x)) \<and> (\<forall>k. keeps P (kDelete K k))"

lemma kindKeepsD:
  assumes "kindKeeps P K"
  shows "keeps P (kGet K k)" "keeps P (kCreate K x)" "keeps P (kPatch K b x)" "keeps P (kDelete K k)"
  using assms unfolding kindKeeps_def by blast+

lemma keeps_retryRuns: "keeps P m \<Longrightarrow> keeps P (retryRuns n m)"
proof (rule keepsI)
  fix s res s'
  assume "keeps P m" and "P s" and "retryRuns n m s = (res, s')"
  then show "P s'"
  proof (induction n arbitrary: s)
    case (Suc n)
    then show ?case
      by (auto dest: keepsD split: prod.splits sum.splits go_error.splits)
  qed (auto dest: keepsD)
qed

subsection \<open>The objects of Robin\<close>

locale robin_frame =
  fixes r :: "('w, 'z) RedkeyReconciler_scheme" and P :: "'w \<Rightarrow> bool"
  assumes keeps_kinds: "kindKeeps P (serviceAccounts r)" "kindKeeps P (roles r)" "kindKeeps P (roleBindings r)"
      "kindKeeps P (deployments r)"
    and keeps_change: "P w \<Longrightarrow> P (counterInc r redkeyRobinDeploymentChanges ls w)"
begin

lemmas kind_keeps =
  keeps_kinds [THEN kindKeepsD(1)] keeps_kinds [THEN kindKeepsD(2)]
  keeps_kinds [THEN kindKeepsD(3)] keeps_kinds [THEN kindKeepsD(4)]

lemma keeps_ensure: "keeps P (ensureRBAC r cluster)" "keeps P (ensureRobinDeployment r cluster)"
  unfolding ensureRBAC_def ensureServiceAccount_def ensureRole_def ensureRoleBinding_def
    ensureRobinDeployment_def Let_def
  by (intro keeps_rules kind_keeps; simp add: keeps_change)+

lemma keeps_delete: "keeps P (deleteRBAC r cluster)" "keeps P (deleteRobinDeployment r cluster)"
  unfolding deleteRBAC_def deleteRobinDeployment_def deleteOrGone_def Let_def
  by (auto intro!: keeps_rules kind_keeps)

end

subsection \<open>The status of the Redkey\<close>

locale status_frame = retry_lib "retryOnConflict r"
  for r :: "('w, 'z) RedkeyReconciler_scheme" +
  fixes P :: "'w \<Rightarrow> bool"
  assumes keeps_get: "keeps P (getRedkey r k)" and keeps_update: "keeps P (updateRedkeyStatus r x)"
    and keeps_clock: "P w \<Longrightarrow> P (snd (timeNow r w))"
begin

lemma keeps_nowE: "keeps P (nowE r)"
  by (simp add: keeps_def nowE_def keeps_clock)

lemma keeps_retry: "keeps P m \<Longrightarrow> keeps P (retryOnConflict r m)"
  by (metis keeps_def keeps_retryRuns retry_runs)

lemma keeps_status: "keeps P (aggregateStatus r cluster cs)" "keeps P (updateStatusScaledToZero r cluster)"
  unfolding aggregateStatus_def aggregateAttempt_def updateStatusScaledToZero_def
  by (intro keeps_rules keeps_retry keeps_get keeps_update keeps_nowE)+

end

subsection \<open>The configs\<close>

locale config_frame =
  fixes r :: "('w, 'z) RedkeyReconciler_scheme" and P :: "'w \<Rightarrow> bool"
  assumes keeps_list: "keeps P (listRedkeyConfigs r ns m)"
    and keeps_create: "keeps P (kCreate (redkeyConfigs r) c)" and keeps_remove: "keeps P (kDelete (redkeyConfigs r) k)"
    and keeps_counted: "P w \<Longrightarrow> P (counterInc r redkeyConfigCreations ls w)"
      "P w \<Longrightarrow> P (counterInc r redkeyCleanupDeletedConfigs ls w)"
begin

lemma keeps_configs: "keeps P (listConfigs r cluster)" "keeps P (createNewConfig r cluster h)"
  unfolding listConfigs_def createNewConfig_def Let_def
  by (intro keeps_rules keeps_list keeps_create; simp add: keeps_counted)+

lemma keeps_cleanupLoop: "keeps P (cleanupLoop r pre kept)"
proof (induction pre)
  case (Cons c cs)
  then show ?case unfolding cleanupLoop.simps by (intro keeps_rules keeps_remove) (simp_all add: keeps_counted)
qed (simp add: keeps_rules)

lemma keeps_removal: "keeps P (cleanupSupersededConfigs r cs)" "keeps P (deleteAllConfigs r cluster)"
  unfolding cleanupSupersededConfigs_def deleteAllConfigs_def deleteOrGone_def
  by (intro keeps_rules keeps_cleanupLoop keeps_list keeps_remove)+

end

subsection \<open>The metrics\<close>

locale metrics_frame =
  fixes r :: "('w, 'z) RedkeyReconciler_scheme" and obs :: "'w \<Rightarrow> 'b"
  assumes metrics_obs [simp]: "obs (counterInc r v ls w) = obs w" "obs (gaugeSet r v ls g w) = obs w"
      "obs (deletePartialMatch r v m w) = obs w" "obs (histObserve r v ls d w) = obs w"
      "obs (snd (timeNow r w)) = obs w"
begin

lemma obs_setStates [simp]: "obs (setStates r v k c vs w) = obs w"
  by (induction vs arbitrary: w) simp_all

lemma obs_record [simp]: "obs (world (recordRedkeyMetrics r cluster cfg s)) = obs (world s)"
  by (simp add: recordRedkeyMetrics_def Let_def split_beta observe_def markInProgress_def enteredReady_def
      finishOperation_def startOperation_def onWorld_def observeSince_def split: option.split)

lemma obs_stageError [simp]: "obs (world (stageError r st s)) = obs (world s)"
  by (simp add: stageError_def onWorld_def)

lemma obs_deleteMetrics [simp]: "obs (world (deleteRedkeyMetrics r key s)) = obs (world s)"
  by (simp add: deleteRedkeyMetrics_def opForget_def readyForget_def onWorld_def)

end

context kube_api
begin

lemma metrics_kept: "metrics_frame r api"
  by unfold_locales simp_all

end

sublocale kube_api \<subseteq> frame: metrics_frame r api
  by (rule metrics_kept)

subsection \<open>All of them\<close>

locale handler_frame = robin_frame r P + status_frame r P + config_frame r P
  for r :: "('w, 'z) RedkeyReconciler_scheme" and P :: "'w \<Rightarrow> bool"
begin

lemma keeps_scaleToZero: "keeps P (reconcileScaleToZero r cluster)"
  unfolding reconcileScaleToZero_def Let_def
  by (intro keeps_rules keeps_ensure keeps_delete keeps_status keeps_configs keeps_removal)

end

end
