(* ===== verification/Controller.thy ===== *)
theory Controller
  imports Handler_Frames
begin

section \<open>The reconciler (\<^verbatim>\<open>internal/controller/redkey_controller.go\<close>)\<close>

text \<open>
  The reconcile function, which composes the handlers of the other theories, and the options of
  the controller.
\<close>

subsection \<open>Reconcile\<close>

text \<open>\<^verbatim>\<open>if err := m; err != nil { stageErrors(stage).Inc(); return err }\<close>\<close>

definition stage ::
  "('w, 'z) RedkeyReconciler_scheme \<Rightarrow> string \<Rightarrow> ('w, 'a) io \<Rightarrow> ('w rstate, 'a) io" where
  "stage r name m = onErrorE (inWorld m) (stageError r name)"

text \<open>The configs after the possible creation of a new one.\<close>

definition syncConfigs ::
  "('w, 'z) RedkeyReconciler_scheme \<Rightarrow> Redkey \<Rightarrow> ('w rstate, RedkeyConfig list) io" where
  "syncConfigs r cluster =
     bindE (stage r ''list_configs'' (listConfigs r cluster)) (\<lambda>configs.
     let highestSeq = latestOf configs in
     if configs = [] \<or> needsNewConfig cluster highestSeq then
       bindE (stage r ''create_new_config'' (createNewConfig r cluster highestSeq)) (\<lambda>_.
       stage r ''list_configs'' (listConfigs r cluster))
     else returnE configs)"

text \<open>Cleanup returns its slice together with its error.\<close>

definition cleanupStage ::
  "('w, 'z) RedkeyReconciler_scheme \<Rightarrow> RedkeyConfig list \<Rightarrow> ('w rstate, RedkeyConfig list) io" where
  "cleanupStage r configs =
     bindE (inWorld (cleanupSupersededConfigs r configs)) (\<lambda>(kept, err).
     case err of
       None \<Rightarrow> returnE kept
     | Some e \<Rightarrow> bindE (modifyE (stageError r ''cleanup_superseded_configs'')) (\<lambda>_. throwE e))"

definition reconcileCluster ::
  "('w, 'z) RedkeyReconciler_scheme \<Rightarrow> Redkey \<Rightarrow> ('w rstate, Result) io" where
  "reconcileCluster r cluster =
     bindE (stage r ''ensure_rbac'' (ensureRBAC r cluster)) (\<lambda>_.
     bindE (stage r ''ensure_robin_deployment'' (ensureRobinDeployment r cluster)) (\<lambda>_.
     bindE (syncConfigs r cluster) (\<lambda>configs.
     bindE (if configs = [] then returnE (configs, cluster)
            else bindE (cleanupStage r configs) (\<lambda>kept.
                 bindE (stage r ''aggregate_status'' (aggregateStatus r cluster kept)) (\<lambda>cluster'.
                 returnE (kept, cluster')))) (\<lambda>(configs', cluster').
     bindE (modifyE (recordRedkeyMetrics r cluster' (selectActiveConfig configs'))) (\<lambda>_.
     returnE (requeue r))))))"

definition Reconcile ::
  "('w, 'z) RedkeyReconciler_scheme \<Rightarrow> nsname \<Rightarrow> ('w rstate, Result) io" where
  "Reconcile r req =
     bindE (attemptE (inWorld (getRedkey r req))) (\<lambda>res.
     case res of
       Inl e \<Rightarrow>
         if IsNotFound e then
           bindE (modifyE (deleteRedkeyMetrics r req)) (\<lambda>_. returnE emptyResult)
         else bindE (modifyE (stageError r ''get_cluster'')) (\<lambda>_. throwE e)
     | Inr cluster \<Rightarrow>
         if sp_Primaries (rk_Spec cluster) = 0 then
           bindE (stage r ''scale_to_zero'' (reconcileScaleToZero r cluster)) (\<lambda>(res, cluster').
           bindE (modifyE (recordRedkeyMetrics r cluster' None)) (\<lambda>_. returnE res))
         else reconcileCluster r cluster)"

subsection \<open>Controller options\<close>

text \<open>
  \<open>None\<close> leaves the field at its zero value, for which controller-runtime runs one worker.
\<close>

definition controllerOptions :: "('w, 'z) RedkeyReconciler_scheme \<Rightarrow> go_int option" where
  "controllerOptions r =
     (if 0 < sint (MaxConcurrentReconciles r) then Some (MaxConcurrentReconciles r) else None)"

subsection \<open>What a handler leaves alone\<close>

lemma kindLeaves_keeps: "kindLeaves (\<lambda>w. (f w, obs w, h w)) K \<Longrightarrow> kindKeeps (\<lambda>w. g (obs w) = c) K"
  by (simp add: kindLeaves_def kindKeeps_def leaves_def keeps_def)

lemma leaves_keeps: "leaves (\<lambda>w. (f w, obs w, h w)) m \<Longrightarrow> keeps (\<lambda>w. g (obs w) = c) m"
  by (simp add: leaves_def keeps_def)

locale error_accounting = prom_client r gauge counter samples + retry_lib "retryOnConflict r"
  for r :: "('w, 'z) RedkeyReconciler_scheme"
    and gauge :: "'w \<Rightarrow> MetricVec \<Rightarrow> string list \<Rightarrow> int option"
    and counter :: "'w \<Rightarrow> MetricVec \<Rightarrow> string list \<Rightarrow> nat"
    and samples :: "'w \<Rightarrow> MetricVec \<Rightarrow> string list \<Rightarrow> int list"
begin

abbreviation stageCount :: "'w \<Rightarrow> string list \<Rightarrow> nat" where
  "stageCount w \<equiv> counter w redkeyReconcileStageErrors"

lemma stageCount_counterInc [simp]:
  "stageCount (counterInc r redkeyRobinDeploymentChanges ls w) = stageCount w"
  "stageCount (counterInc r redkeyConfigCreations ls w) = stageCount w"
  "stageCount (counterInc r redkeyCleanupDeletedConfigs ls w) = stageCount w"
  by (simp_all add: fun_eq_iff vec_defs)

lemma stage_frame: "handler_frame r (\<lambda>w. stageCount w = c)"
  by unfold_locales
    (auto simp del: counter_inc intro!: redkey_leaves [THEN leaves_keeps] kind_leaves [THEN kindLeaves_keeps]
      kindKeepsD(2,4) [OF kindLeaves_keeps [OF kind_leaves(1)]])

lemma stage_leaves:
  "leaves stageCount (ensureRBAC r cluster)" "leaves stageCount (ensureRobinDeployment r cluster)"
  "leaves stageCount (listConfigs r cluster)" "leaves stageCount (createNewConfig r cluster h)"
  "leaves stageCount (aggregateStatus r cluster cs)" "leaves stageCount (cleanupSupersededConfigs r cs)"
  "leaves stageCount (reconcileScaleToZero r cluster)" "leaves stageCount (getRedkey r k)"
  unfolding leaves_iff
  by (intro allI handler_frame.keeps_scaleToZero [OF stage_frame]
      robin_frame.keeps_ensure [OF handler_frame.axioms(1) [OF stage_frame]]
      status_frame.keeps_status(1) [OF handler_frame.axioms(2) [OF stage_frame]]
      status_frame.keeps_get [OF handler_frame.axioms(2) [OF stage_frame]]
      config_frame.keeps_configs [OF handler_frame.axioms(3) [OF stage_frame]]
      config_frame.keeps_removal(1) [OF handler_frame.axioms(3) [OF stage_frame]])+

end

lemma wp_stage [wp_simps]:
  "wp (stage r name m) Q E =
     (\<lambda>s. wp m (\<lambda>x w'. Q x (s\<lparr>world := w'\<rparr>)) (\<lambda>e w'. E e (stageError r name (s\<lparr>world := w'\<rparr>))) (world s))"
  by (simp add: stage_def wp_simps)

definition stages :: "string list" where
  "stages = [''get_cluster'', ''scale_to_zero'', ''ensure_rbac'', ''ensure_robin_deployment'',
     ''list_configs'', ''create_new_config'', ''cleanup_superseded_configs'', ''aggregate_status'']"

context error_accounting
begin

text \<open>What an error has done to the stage counters, and what a success has not.\<close>

abbreviation errorCounted :: "'w rstate \<Rightarrow> 'w rstate \<Rightarrow> bool" where
  "errorCounted s s' \<equiv> \<exists>st \<in> set stages. \<forall>ls. stageCount (world s') ls =
     stageCount (world s) ls + (if ls = [st] then 1 else 0)"

abbreviation noneCounted :: "'w rstate \<Rightarrow> 'w rstate \<Rightarrow> bool" where
  "noneCounted s s' \<equiv> stageCount (world s') = stageCount (world s)"

text \<open>A computation that counts each of its errors once.\<close>

definition accounted :: "('w rstate, 'a) io \<Rightarrow> bool" where
  "accounted m \<longleftrightarrow> (\<forall>s. wp m (\<lambda>_ s'. noneCounted s s') (\<lambda>_ s'. errorCounted s s') s)"

lemma accountedI:
  "(\<And>s. wp m (\<lambda>_ s'. noneCounted s s') (\<lambda>_ s'. errorCounted s s') s) \<Longrightarrow> accounted m"
  by (simp add: accounted_def)

lemma accounted_bindE:
  assumes "accounted m" and "\<And>x. accounted (f x)"
  shows "accounted (bindE m f)"
proof (rule accountedI)
  fix s
  show "wp (bindE m f) (\<lambda>_ s'. noneCounted s s') (\<lambda>_ s'. errorCounted s s') s"
    unfolding wp_bindE
  proof (rule wp_mono)
    show "wp m (\<lambda>_ s'. noneCounted s s') (\<lambda>_ s'. errorCounted s s') s"
      using assms(1) by (simp add: accounted_def)
    fix x s' assume eq: "noneCounted s s'"
    have "wp (f x) (\<lambda>_ t. noneCounted s' t) (\<lambda>_ t. errorCounted s' t) s'"
      using assms(2) by (simp add: accounted_def)
    then show "wp (f x) (\<lambda>_ t. noneCounted s t) (\<lambda>_ t. errorCounted s t) s'"
      unfolding eq .
  qed auto
qed

lemma accounted_stage:
  assumes "leaves stageCount m" and "st \<in> set stages"
  shows "accounted (stage r st m)"
proof (rule accountedI)
  fix s
  show "wp (stage r st m) (\<lambda>_ s'. noneCounted s s') (\<lambda>_ s'. errorCounted s s') s"
    unfolding wp_stage
    by (rule wp_leaves [OF assms(1)]) (use assms(2) in \<open>auto simp: stageError_def intro!: bexI [of _ st]\<close>)
qed

lemma accounted_returnE: "accounted (returnE x)"
  by (simp add: accounted_def wp_simps)

lemma accounted_throw:
  "st \<in> set stages \<Longrightarrow> accounted (bindE (modifyE (stageError r st)) (\<lambda>_. throwE e))"
  by (auto simp: accounted_def wp_simps stageError_def intro!: bexI [of _ st])

lemma accounted_record: "accounted (modifyE (recordRedkeyMetrics r cluster cfg))"
proof -
  have "redkeyReconcileStageErrors \<noteq> redkeyOperationTotal" by (simp add: vec_defs)
  then show ?thesis
    by (simp add: accounted_def wp_simps fun_eq_iff counter_observe split: option.split)
qed

lemma accounted_delete: "accounted (modifyE (deleteRedkeyMetrics r key))"
  by (simp add: accounted_def wp_simps deleteRedkeyMetrics_def opForget_def readyForget_def)

lemma accounted_inWorld:
  assumes "leaves stageCount m" and "\<And>w e w'. m w \<noteq> (Inl e, w')"
  shows "accounted (inWorld m)"
proof (rule accountedI)
  fix s :: "'w rstate"
  obtain x w' where run: "m (world s) = (Inr x, w')"
    using assms(2) by (cases "m (world s)") (metis obj_sumE)
  with assms(1) have "stageCount w' = stageCount (world s)" by (metis leaves_def snd_conv)
  with run show "wp (inWorld m) (\<lambda>_ s'. noneCounted s s') (\<lambda>_ s'. errorCounted s s') s"
    by (simp add: wp_inWorld wp_def)
qed

lemmas accounted_rules = accounted_bindE accounted_stage accounted_returnE accounted_throw
  accounted_record accounted_delete

end

text \<open>Cleanup reports its error next to the configs, never as the result of the call.\<close>

lemma cleanupLoop_total: "\<exists>x w'. cleanupLoop r pre keep w = (Inr x, w')"
proof (induction pre arbitrary: w)
  case Nil
  then show ?case by (simp add: returnE_def)
next
  case (Cons c cs)
  obtain res w' where "kDelete (redkeyConfigs r) (configKey c) w = (res, w')"
    by (cases "kDelete (redkeyConfigs r) (configKey c) w")
  with Cons.IH show ?case
    by (cases res) (simp_all add: bindE_def attemptE_def modifyE_def returnE_def)
qed

lemma cleanup_total: "cleanupSupersededConfigs r cs w \<noteq> (Inl e, w')"
  using cleanupLoop_total [of r _ _ w]
  by (auto simp: cleanupSupersededConfigs_def returnE_def split: option.split)
   (metis Inl_Inr_False prod.inject)

context error_accounting
begin

lemma accounted_cleanupStage: "accounted (cleanupStage r configs)"
  unfolding cleanupStage_def
proof (rule accounted_bindE)
  show "accounted (inWorld (cleanupSupersededConfigs r configs))"
    by (rule accounted_inWorld) (auto simp: stage_leaves cleanup_total)
  show "accounted (case x of (kept, err) \<Rightarrow> case err of None \<Rightarrow> returnE kept
      | Some e \<Rightarrow> bindE (modifyE (stageError r ''cleanup_superseded_configs'')) (\<lambda>_. throwE e))" for x
    by (auto simp: stages_def intro: accounted_rules split: prod.split option.split)
qed

lemma accounted_syncConfigs: "accounted (syncConfigs r cluster)"
  by (auto simp: syncConfigs_def Let_def stages_def intro!: accounted_rules stage_leaves)

lemma accounted_reconcileCluster: "accounted (reconcileCluster r cluster)"
  unfolding reconcileCluster_def
  by (intro accounted_bindE)
    (auto simp: stages_def intro!: accounted_rules accounted_cleanupStage accounted_syncConfigs stage_leaves)

lemma accounted_Reconcile: "accounted (Reconcile r req)"
proof -
  have get: "wp (attemptE (inWorld (getRedkey r req))) (\<lambda>_ s'. noneCounted s s') E s" for s E
    unfolding wp_simps by (rule wp_leaves [OF stage_leaves(8)]) simp_all
  show ?thesis
    unfolding Reconcile_def
    by (rule accounted_bindE)
      (auto simp: accounted_def [of "attemptE _"] get stages_def split: sum.split
        intro!: accounted_rules accounted_reconcileCluster stage_leaves)
qed

end

interpretation mem_errors: error_accounting memReconciler gaugeOf countOf samplesOf
  by (simp add: error_accounting_def mem_client.prom_client_axioms mem_retry.retry_lib_axioms)

interpretation mem_frame: handler_frame memReconciler "\<lambda>w. countOf w redkeyReconcileStageErrors = c" for c
  by (rule mem_errors.stage_frame)

text \<open>
  C11. Every failed reconcile increments exactly one stage-error counter, by one, and a reconcile that
  succeeds increments none, whichever stage fails and whatever the handlers did before.
\<close>

theorem reconcile_counts_errors:
  assumes "error_accounting r gauge counter samples"
  shows "wp (Reconcile r req)
    (\<lambda>_ s'. counter (world s') redkeyReconcileStageErrors = counter (world s) redkeyReconcileStageErrors)
    (\<lambda>_ s'. \<exists>st \<in> set stages. \<forall>ls. counter (world s') redkeyReconcileStageErrors ls =
       counter (world s) redkeyReconcileStageErrors ls + (if ls = [st] then 1 else 0)) s"
  using error_accounting.accounted_Reconcile [OF assms] error_accounting.accounted_def [OF assms]
  by blast

definition brokenReconciler :: "mem RedkeyReconciler" where
  "brokenReconciler = memReconciler\<lparr>getRedkey := \<lambda>k w. (Inl (OtherError ''timeout''), w)\<rparr>"

lemma broken_errors: "error_accounting brokenReconciler gaugeOf countOf samplesOf"
proof -
  have "prom_lib brokenReconciler gaugeOf countOf samplesOf"
    by unfold_locales (auto simp: brokenReconciler_def fun_eq_iff)
  moreover have "leaves (\<lambda>w. (gaugeOf w, countOf w, samplesOf w)) (getRedkey brokenReconciler k)" for k
    by (simp add: leaves_def brokenReconciler_def)
  ultimately have "prom_client brokenReconciler gaugeOf countOf samplesOf"
    using mem_client.redkey_leaves mem_client.kind_leaves
    by (simp add: prom_client_def prom_client_axioms_def) (simp add: brokenReconciler_def)
  then show ?thesis
    using mem_retry.retry_lib_axioms by (simp add: error_accounting_def) (simp add: brokenReconciler_def)
qed

theorem reconcile_counts_errors_witness:
  "\<exists>e s'. Reconcile brokenReconciler (''ns'', ''demo'') (freshState (memWith [] [])) = (Inl e, s') \<and>
     (\<exists>st \<in> set stages. countOf (world s') redkeyReconcileStageErrors [st] = 1)"
proof -
  let ?s = "freshState (memWith [] [])"
  obtain e s' where run: "Reconcile brokenReconciler (''ns'', ''demo'') ?s = (Inl e, s')"
    by (simp add: Reconcile_def brokenReconciler_def bindE_def attemptE_def inWorld_def modifyE_def throwE_def)
  have "countOf (memWith [] []) v ls = 0" for v ls by (simp add: countOf_def memWith_def)
  with reconcile_counts_errors [OF broken_errors, of "(''ns'', ''demo'')" ?s] run show ?thesis
    by (auto simp: wp_def)
qed

end
