(* ===== verification/Convergence.thy ===== *)
theory Convergence
  imports Controller
begin

section \<open>What a reconcile does to the sequence of configs\<close>

text \<open>
  The abstract specification: a cluster's configs are a log of entries. A reconcile publishes an
  entry for a generation that is not covered yet and prunes what lies before the last applied entry.
  The reconciler is shown to refine it, and to reach a state that further reconciles keep.
\<close>

subsection \<open>The abstract log\<close>

record LogEntry =
  le_Seq :: int
  le_Generation :: "int option"
  le_Topology :: "int32 \<times> int32"
  le_Phase :: string

type_synonym log = "LogEntry list"

definition covers :: "int \<Rightarrow> LogEntry \<Rightarrow> bool" where
  "covers gen e = (case le_Generation e of None \<Rightarrow> False | Some g \<Rightarrow> gen \<le> g)"

definition nextSeq :: "log \<Rightarrow> int" where
  "nextSeq l = (if l = [] then 1 else le_Seq (last l) + 1)"

definition publish :: "int \<Rightarrow> int \<Rightarrow> int32 \<times> int32 \<Rightarrow> log \<Rightarrow> log" where
  "publish observed gen topology l =
     (if l = [] \<or> \<not> covers gen (last l) \<and> observed < gen
      then l @ [\<lparr>le_Seq = nextSeq l, le_Generation = Some gen, le_Topology = topology, le_Phase = []\<rparr>]
      else l)"

fun prune :: "log \<Rightarrow> log" where
  "prune [] = []"
| "prune (e # es) =
     (if filter (\<lambda>x. le_Phase x = ConfigPhaseApplied) es = [] then e # es else prune es)"

lemma prune_suffix: "\<exists>pre. l = pre @ prune l"
proof (induction l)
  case (Cons e es)
  then obtain pre where "es = pre @ prune es" by blast
  then have "e # es = (e # pre) @ prune es" by simp
  then show ?case by (metis append_Nil prune.simps(2))
qed simp

lemma prune_Nil_iff [simp]: "prune l = [] \<longleftrightarrow> l = []"
  by (induction l) auto

lemma prune_idem [simp]: "prune (prune l) = prune l"
  by (induction l) auto

lemma last_prune [simp]: "l \<noteq> [] \<Longrightarrow> last (prune l) = last l"
  by (metis last_appendR prune_Nil_iff prune_suffix)

lemma publish_settled:
  "publish observed gen topology (prune (publish observed' gen topology' l)) =
     prune (publish observed' gen topology' l)"
  if "gen \<le> observed \<or> observed = observed'"
proof -
  have "publish observed' gen topology' l \<noteq> []" by (simp add: publish_def)
  moreover have "covers gen (last (publish observed' gen topology' l)) \<or> gen \<le> observed'"
    by (auto simp: publish_def covers_def)
  ultimately show ?thesis
    using that by (auto simp: publish_def [of observed])
qed

text \<open>The implementation finds the last applied config by its index.\<close>

lemma prune_drop:
  assumes "filter (\<lambda>x. le_Phase x = ConfigPhaseApplied) (drop (Suc k) l) = []"
    and "k < length l" and "le_Phase (l ! k) = ConfigPhaseApplied"
  shows "prune l = drop k l"
  using assms
proof (induction l arbitrary: k)
  case (Cons e es)
  show ?case
  proof (cases k)
    case 0
    with Cons.prems show ?thesis by simp
  next
    case (Suc j)
    with Cons.prems have "es ! j \<in> set es" "le_Phase (es ! j) = ConfigPhaseApplied" by auto
    then have "filter (\<lambda>x. le_Phase x = ConfigPhaseApplied) es \<noteq> []" by (auto simp: filter_empty_conv)
    with Cons.IH [of j] Cons.prems Suc show ?thesis by simp
  qed
qed simp

lemma prune_none:
  "filter (\<lambda>x. le_Phase x = ConfigPhaseApplied) l = [] \<Longrightarrow> prune l = l"
  by (cases l) (auto split: if_splits)

subsection \<open>Configs as log entries\<close>

definition logEntry :: "RedkeyConfig \<Rightarrow> LogEntry" where
  "logEntry c = \<lparr>le_Seq = sint (configSeq c),
     le_Generation = map_option sint (ParseInt (configGeneration c)),
     le_Topology = (cs_Primaries (rc_Spec c), cs_ReplicasPerPrimary (rc_Spec c)),
     le_Phase = configPhase c\<rparr>"

lemma logEntry_sel [simp]:
  "le_Seq (logEntry c) = sint (configSeq c)" "le_Phase (logEntry c) = configPhase c"
  by (simp_all add: logEntry_def)

lemma needsNewConfig_covers:
  "needsNewConfig cluster (Some c) \<longleftrightarrow>
     \<not> covers (sint (Generation (rk_Meta cluster))) (logEntry c) \<and>
     sint (st_ObservedGeneration (rk_Status cluster)) < sint (Generation (rk_Meta cluster))"
  by (auto simp: needsNewConfig_def covers_def logEntry_def split: option.split)

lemma filter_applied_log:
  "filter (\<lambda>x. le_Phase x = ConfigPhaseApplied) (map logEntry cs) =
     map logEntry (filter (\<lambda>c. configPhase c = ConfigPhaseApplied) cs)"
  by (simp add: filter_map comp_def)

lemma prune_log:
  "map logEntry (drop (case lastAppliedIndex cs of None \<Rightarrow> 0 | Some k \<Rightarrow> k) cs) = prune (map logEntry cs)"
proof (cases "lastAppliedIndex cs")
  case None
  then have "filter (\<lambda>c. configPhase c = ConfigPhaseApplied) cs = []"
    using lastAppliedIndex_None by blast
  with None show ?thesis by (simp add: prune_none filter_applied_log)
next
  case (Some k)
  note k = lastAppliedIndex_Some [OF Some]
  have "prune (map logEntry cs) = drop k (map logEntry cs)"
    by (rule prune_drop) (use k in \<open>simp_all add: drop_map filter_applied_log\<close>)
  with Some show ?thesis by (simp add: drop_map)
qed

lemma logEntry_new:
  assumes "isNewConfig cluster h y"
  shows "logEntry y = \<lparr>le_Seq = sint (nextSequence h),
    le_Generation = Some (sint (Generation (rk_Meta cluster))),
    le_Topology = (sp_Primaries (rk_Spec cluster), sp_ReplicasPerPrimary (rk_Spec cluster)), le_Phase = []\<rparr>"
  using assms
  by (simp add: logEntry_def isNewConfig_def configGeneration_def zeroConfigStatus_def)

text \<open>What the log of a cluster becomes when its spec is published.\<close>

definition publishSpec :: "Redkey \<Rightarrow> log \<Rightarrow> log" where
  "publishSpec cluster =
     publish (sint (st_ObservedGeneration (rk_Status cluster))) (sint (Generation (rk_Meta cluster)))
       (sp_Primaries (rk_Spec cluster), sp_ReplicasPerPrimary (rk_Spec cluster))"

lemma publishSpec_new:
  assumes "isNewConfig cluster (latestOf cs) y" and "\<And>c. c \<in> set cs \<Longrightarrow> sint (configSeq c) < 2 ^ 63 - 1"
    and "cs = [] \<or> needsNewConfig cluster (latestOf cs)"
  shows "publishSpec cluster (map logEntry cs) = map logEntry (cs @ [y])"
proof (cases "cs = []")
  case True
  with assms(1) show ?thesis
    by (simp add: publishSpec_def publish_def nextSeq_def logEntry_new latestOf_def nextSequence_def)
next
  case False
  then have l: "latestOf cs = Some (last cs)" by (simp add: latestOf_def)
  have "sint (nextSequence (Some (last cs))) = sint (configSeq (last cs)) + 1"
    by (rule nextSequence_greater) (use False assms(2) in auto)
  with False l assms(1,3) show ?thesis
    by (simp add: publishSpec_def publish_def nextSeq_def logEntry_new needsNewConfig_covers last_map)
qed

lemma publishSpec_same:
  "cs \<noteq> [] \<Longrightarrow> \<not> needsNewConfig cluster (latestOf cs) \<Longrightarrow>
   publishSpec cluster (map logEntry cs) = map logEntry cs"
  by (auto simp: publishSpec_def publish_def latestOf_def needsNewConfig_covers last_map)

subsection \<open>What a reconcile does to the stored objects\<close>

definition wfConfigs :: "store \<Rightarrow> bool" where
  "wfConfigs st \<longleftrightarrow> distinct (map configKey (s_Configs st))"

lemma view_keys:
  assumes "configsView cluster st cs" and "wfConfigs st"
  shows "distinct (map configKey cs)"
proof -
  have "distinct (map configKey (clusterConfigs cluster st))"
    using assms(2) by (simp add: wfConfigs_def clusterConfigs_def distinct_map_filter)
  moreover have "mset (map configKey cs) = mset (map configKey (clusterConfigs cluster st))"
    using assms(1) by (simp add: configsView_def)
  ultimately show ?thesis by (metis mset_eq_imp_distinct_iff)
qed

lemma filter_drop_keys:
  assumes "distinct (map f xs)"
  shows "filter (\<lambda>x. f x \<notin> f ` set (take i xs)) xs = drop i xs"
proof -
  have "distinct (map f (take i xs @ drop i xs))" using assms by simp
  then have "f ` set (take i xs) \<inter> f ` set (drop i xs) = {}" by (simp del: append_take_drop_id)
  then have "filter (\<lambda>x. f x \<notin> f ` set (take i xs)) (take i xs @ drop i xs) = drop i xs"
    unfolding filter_append by (auto simp: filter_empty_conv filter_id_conv simp del: append_take_drop_id)
  then show ?thesis by simp
qed

lemma view_drop:
  assumes "configsView cluster st cs" and "wfConfigs st"
  shows "configsView cluster (dropConfigs (configKey ` set (take i cs)) st) (drop i cs)"
proof -
  let ?P = "\<lambda>c. configKey c \<notin> configKey ` set (take i cs)"
  have "mset (clusterConfigs cluster (dropConfigs (configKey ` set (take i cs)) st)) =
      filter_mset ?P (mset (clusterConfigs cluster st))"
    by (simp add: clusterConfigs_def dropConfigs_def filter_filter_mset conj_commute flip: mset_filter)
  also have "\<dots> = mset (filter ?P cs)" using assms(1) by (simp add: configsView_def)
  also have "\<dots> = mset (drop i cs)" by (simp add: filter_drop_keys [OF view_keys [OF assms]])
  finally show ?thesis using assms(1) by (simp add: configsView_def sorted_wrt_drop flip: drop_map)
qed

lemma wfConfigs_drop [simp]: "wfConfigs st \<Longrightarrow> wfConfigs (dropConfigs K st)"
  by (simp add: wfConfigs_def dropConfigs_def distinct_map_filter)

text \<open>The parts of the store a handler of the configs may change.\<close>

definition onlyConfigs :: "store \<Rightarrow> store \<Rightarrow> bool" where
  "onlyConfigs st st' \<longleftrightarrow> st' = st\<lparr>s_Configs := s_Configs st'\<rparr>"

lemma onlyConfigs_simps [simp]:
  "onlyConfigs st st" "onlyConfigs st (s_Configs_update f st)" "onlyConfigs st (dropConfigs K st)"
  by (simp_all add: onlyConfigs_def dropConfigs_def)

lemma onlyConfigs_trans: "onlyConfigs a b \<Longrightarrow> onlyConfigs b c \<Longrightarrow> onlyConfigs a c"
  unfolding onlyConfigs_def by (cases a; cases b; cases c) simp

lemma onlyConfigs_sel:
  assumes "onlyConfigs st st'"
  shows "s_Redkeys st' = s_Redkeys st" "s_Deployments st' = s_Deployments st"
    "rbacOk cluster st' = rbacOk cluster st" "deploymentOk r cluster st' = deploymentOk r cluster st"
    "wfStore st' = wfStore st"
  by (subst assms [unfolded onlyConfigs_def];
      simp add: rbacOk_def saOk_def roleOk_def bindingOk_def deploymentOk_def wfStore_def)+

text \<open>The sorted list of configs that a reconcile works on.\<close>

definition configLog :: "Redkey \<Rightarrow> store \<Rightarrow> RedkeyConfig list \<Rightarrow> bool" where
  "configLog cluster st cs \<longleftrightarrow>
     configsView cluster st cs \<and> distinct (map configSeq cs) \<and> wfConfigs st"

text \<open>
  Publishing needs a sequence number below the largest 64-bit integer and a name that is free.
\<close>

definition canPublish :: "Redkey \<Rightarrow> RedkeyConfig list \<Rightarrow> store \<Rightarrow> bool" where
  "canPublish cluster cs st \<longleftrightarrow>
     (cs = [] \<or> needsNewConfig cluster (latestOf cs) \<longrightarrow>
        (\<forall>c \<in> set cs. sint (configSeq c) < 2 ^ 63 - 1) \<and>
        configKey (buildConfig cluster (latestOf cs)) \<notin> configKey ` set (s_Configs st))"

text \<open>The configs a reconcile may add: at most the one it publishes.\<close>

definition configsGrow :: "Redkey \<Rightarrow> RedkeyConfig list \<Rightarrow> store \<Rightarrow> store \<Rightarrow> bool" where
  "configsGrow cluster cs st st' \<longleftrightarrow> set (s_Configs st') \<subseteq> set (s_Configs st) \<or>
     (cs = [] \<or> needsNewConfig cluster (latestOf cs)) \<and>
     (\<exists>y. isNewConfig cluster (latestOf cs) y \<and> set (s_Configs st') \<subseteq> insert y (set (s_Configs st)))"

text \<open>What a reconcile that fails may have done to the Redkeys and the configs by then.\<close>

definition interrupted :: "Redkey \<Rightarrow> RedkeyConfig list \<Rightarrow> store \<Rightarrow> store \<Rightarrow> bool" where
  "interrupted cluster cs st st' \<longleftrightarrow> wfStore st' \<and> s_Redkeys st' = s_Redkeys st \<and> wfConfigs st' \<and>
     configsGrow cluster cs st st'"

lemma configsGrow_same: "s_Configs st' = s_Configs st \<Longrightarrow> configsGrow cluster cs st st'"
  by (simp add: configsGrow_def)

lemma configsGrow_from: "s_Configs st1 = s_Configs st \<Longrightarrow> configsGrow cluster cs st st' = configsGrow cluster cs st1 st'"
  by (simp add: configsGrow_def)

lemma configsGrow_drop: "configsGrow cluster cs st st' \<Longrightarrow> configsGrow cluster cs st (dropConfigs K st')"
  by (auto simp: configsGrow_def dropConfigs_def)

lemma configLog_wf: "configLog cluster st cs \<Longrightarrow> wfConfigs st"
  by (simp add: configLog_def)

lemma configLog_append:
  assumes log: "configLog cluster st cs" and y: "isNewConfig cluster (latestOf cs) y"
    and fresh: "configKey (buildConfig cluster (latestOf cs)) \<notin> configKey ` set (s_Configs st)"
    and bound: "\<And>c. c \<in> set cs \<Longrightarrow> sint (configSeq c) < 2 ^ 63 - 1"
  shows "configLog cluster (s_Configs_update (\<lambda>cs. cs @ [y]) st) (cs @ [y])"
proof -
  from y have seq: "configSeq y = nextSequence (latestOf cs)" and key: "configKey y = configKey (buildConfig cluster (latestOf cs))"
    by (simp_all add: isNewConfig_def)
  have greater: "sint (configSeq c) < sint (configSeq y)" if "c \<in> set cs" for c
    unfolding seq by (rule nextSequence_greater_all) (use log that bound in \<open>auto simp: configLog_def configsView_def\<close>)
  then have "configSeq y \<notin> configSeq ` set cs" by force
  moreover have "configsView cluster (s_Configs_update (\<lambda>cs. cs @ [y]) st) (cs @ [y])"
    using log greater isNewConfig_matches [OF y]
    by (force simp: configLog_def configsView_def clusterConfigs_def sorted_append intro: less_imp_le)
  ultimately show ?thesis
    using log fresh key by (auto simp: configLog_def wfConfigs_def)
qed

lemma configLog_drop:
  assumes "configLog cluster st cs"
  shows "configLog cluster (dropConfigs (configKey ` set (take i cs)) st) (drop i cs)"
  using assms view_drop [of cluster st cs i] by (simp add: configLog_def distinct_drop flip: drop_map)

context operator_libs
begin

lemma wp_syncConfigs:
  assumes log: "configLog cluster (api (world s)) cs"
    and can: "canPublish cluster cs (api (world s))"
    and step: "\<And>cs' s'. configLog cluster (api (world s')) cs' \<Longrightarrow> onlyConfigs (api (world s)) (api (world s')) \<Longrightarrow>
      map logEntry cs' = publishSpec cluster (map logEntry cs) \<Longrightarrow>
      configsGrow cluster cs (api (world s)) (api (world s')) \<Longrightarrow>
      (cs \<noteq> [] \<Longrightarrow> \<not> needsNewConfig cluster (latestOf cs) \<Longrightarrow> api (world s') = api (world s)) \<Longrightarrow> Q cs' s'"
    and err: "\<And>e s'. outage \<Longrightarrow> onlyConfigs (api (world s)) (api (world s')) \<Longrightarrow> wfConfigs (api (world s')) \<Longrightarrow>
      configsGrow cluster cs (api (world s)) (api (world s')) \<Longrightarrow> E e s'"
  shows "wp (syncConfigs r cluster) Q E s"
proof -
  have view: "configsView cluster (api (world s)) cs" "distinct (map configSeq cs)"
    using log by (simp_all add: configLog_def)
  have bound: "\<And>c. c \<in> set cs \<Longrightarrow> sint (configSeq c) < 2 ^ 63 - 1"
    and fresh: "configKey (buildConfig cluster (latestOf cs)) \<notin> configKey ` set (s_Configs (api (world s)))"
    if "cs = [] \<or> needsNewConfig cluster (latestOf cs)"
    using can that unfolding canPublish_def by blast+
  have same: "E e (stageError r st (s\<lparr>world := w'\<rparr>))" if "outage" "api w' = api (world s)" for e st w'
    using that log by (intro err) (simp_all add: configsGrow_same configLog_def)
  have create: "wp (createNewConfig r cluster (latestOf cs)) (\<lambda>_ w'. wp (listConfigs r cluster)
      (\<lambda>x w''. Q x (s\<lparr>world := w''\<rparr>)) (\<lambda>e w''. E e (stageError r ''list_configs'' (s\<lparr>world := w''\<rparr>))) w')
      (\<lambda>e w'. E e (stageError r ''create_new_config'' (s\<lparr>world := w'\<rparr>))) w1"
    if new: "cs = [] \<or> needsNewConfig cluster (latestOf cs)" and w1: "api w1 = api (world s)" for w1
  proof (rule wp_createNewConfig)
    fix y w2
    assume y: "isNewConfig cluster (latestOf cs) y" and w2: "api w2 = s_Configs_update (\<lambda>cs. cs @ [y]) (api w1)"
    have l: "configLog cluster (api w2) (cs @ [y])"
      unfolding w2 w1 by (rule configLog_append [OF log y fresh [OF new] bound [OF new]])
    show "wp (listConfigs r cluster) (\<lambda>x w''. Q x (s\<lparr>world := w''\<rparr>))
        (\<lambda>e w''. E e (stageError r ''list_configs'' (s\<lparr>world := w''\<rparr>))) w2"
    proof (rule wp_listConfigs_unique [where cs = "cs @ [y]"])
      fix w3 assume "api w3 = api w2"
      then show "Q (cs @ [y]) (s\<lparr>world := w3\<rparr>)"
        using l w1 w2 new y publishSpec_new [OF y bound [OF new] new]
        by (intro step) (auto simp: configsGrow_def)
    next
      fix e w3 assume "outage" "api w3 = api w2"
      then show "E e (stageError r ''list_configs'' (s\<lparr>world := w3\<rparr>))"
        using l w1 w2 new y by (intro err) (auto simp: configsGrow_def configLog_def)
    qed (use l in \<open>auto simp: configLog_def\<close>)
  qed (use fresh [OF new] w1 same in auto)
  show ?thesis
    unfolding syncConfigs_def wp_bindE wp_stage
  proof (rule wp_listConfigs_unique [OF view])
    fix w1 assume w1: "api w1 = api (world s)"
    show "wp (let highestSeq = latestOf cs in
        if cs = [] \<or> needsNewConfig cluster highestSeq
        then bindE (stage r ''create_new_config'' (createNewConfig r cluster highestSeq))
          (\<lambda>_. stage r ''list_configs'' (listConfigs r cluster))
        else returnE cs) Q E (s\<lparr>world := w1\<rparr>)"
    proof (cases "cs = [] \<or> needsNewConfig cluster (latestOf cs)")
      case True
      with create [OF True w1] show ?thesis by (simp add: Let_def wp_simps)
    next
      case False
      then have "Q cs (s\<lparr>world := w1\<rparr>)"
        using log w1 by (intro step) (auto simp: publishSpec_same configsGrow_def)
      with False show ?thesis by (simp add: Let_def wp_simps)
    qed
  qed (use same in auto)
qed

lemma wp_cleanupStage:
  assumes log: "configLog cluster (api (world s)) cs"
    and step: "\<And>i s'. configLog cluster (api (world s')) (drop i cs) \<Longrightarrow>
      map logEntry (drop i cs) = prune (map logEntry cs) \<Longrightarrow>
      api (world s') = dropConfigs (configKey ` set (take i cs)) (api (world s)) \<Longrightarrow> Q (drop i cs) s'"
    and err: "\<And>e K s'. outage \<Longrightarrow> api (world s') = dropConfigs K (api (world s)) \<Longrightarrow> E e s'"
  shows "wp (cleanupStage r cs) Q E s"
  unfolding cleanupStage_def wp_simps
proof (rule wp_cleanupSupersededConfigs)
  fix i w'
  assume i: "case lastAppliedIndex cs of None \<Rightarrow> i = 0 | Some k \<Rightarrow> i = k"
    and w': "api w' = dropConfigs (configKey ` set (take i cs)) (api (world s))"
  from i have "map logEntry (drop i cs) = prune (map logEntry cs)"
    using prune_log [of cs] by (cases "lastAppliedIndex cs") auto
  then have "Q (drop i cs) (s\<lparr>world := w'\<rparr>)"
    using configLog_drop [OF log, of i] w' by (intro step) simp_all
  then show "wp (case (drop i cs, None) of (kept, err) \<Rightarrow> case err of None \<Rightarrow> returnE kept
      | Some e \<Rightarrow> bindE (modifyE (stageError r ''cleanup_superseded_configs'')) (\<lambda>_. throwE e))
      Q E (s\<lparr>world := w'\<rparr>)" by (simp add: wp_simps)
qed (auto simp: wp_simps intro: err)

end

text \<open>A log that a reconcile would not change.\<close>

definition settledLog :: "Redkey \<Rightarrow> log \<Rightarrow> bool" where
  "settledLog cluster l \<longleftrightarrow> l \<noteq> [] \<and> publishSpec cluster l = l \<and> prune l = l"

lemma settledLog_not_needs:
  assumes "settledLog cluster (map logEntry cs)"
  shows "cs \<noteq> []" "\<not> needsNewConfig cluster (latestOf cs)"
  using assms
  by (auto simp: settledLog_def publishSpec_def publish_def latestOf_def needsNewConfig_covers last_map
      split: if_splits)

lemma drop_same_length: "map f (drop i xs) = map f xs \<Longrightarrow> take i xs = []"
  by (metis (no_types, lifting) diff_is_0_eq diff_diff_cancel drop_eq_Nil length_0_conv length_drop length_map
      length_take min.absorb2 nat_le_linear take_eq_Nil)

lemma publishSpec_ne [simp]: "publishSpec cluster l \<noteq> []"
  by (simp add: publishSpec_def publish_def)

definition robinOk :: "('w, 'z) RedkeyReconciler_scheme \<Rightarrow> Redkey \<Rightarrow> store \<Rightarrow> bool" where
  "robinOk r cluster st \<longleftrightarrow> rbacOk cluster st \<and> deploymentOk r cluster st"

lemma robinOk_cong:
  "s_ServiceAccounts st' = s_ServiceAccounts st \<Longrightarrow> s_Roles st' = s_Roles st \<Longrightarrow>
   s_RoleBindings st' = s_RoleBindings st \<Longrightarrow> s_Deployments st' = s_Deployments st \<Longrightarrow>
   robinOk r cluster st' = robinOk r cluster st"
  by (simp add: robinOk_def rbacOk_def saOk_def roleOk_def bindingOk_def deploymentOk_def)

lemma robinOk_onlyConfigs: "onlyConfigs st st' \<Longrightarrow> robinOk r cluster st' = robinOk r cluster st"
  by (simp add: robinOk_def onlyConfigs_sel)

context operator_libs
begin

lemma wp_robinStages:
  assumes wf: "wfStore (api (world s))"
    and norev: "mapGet (derefMap (sp_Annotations (rk_Spec cluster))) deploymentRevisionAnnotation = None"
    and step: "\<And>s'. robinOk r cluster (api (world s')) \<Longrightarrow> wfStore (api (world s')) \<Longrightarrow>
      s_Redkeys (api (world s')) = s_Redkeys (api (world s)) \<Longrightarrow>
      s_Configs (api (world s')) = s_Configs (api (world s)) \<Longrightarrow>
      (robinOk r cluster (api (world s)) \<Longrightarrow> api (world s') = api (world s)) \<Longrightarrow> wp m Q E s'"
    and err: "\<And>e s'. outage \<Longrightarrow> wfStore (api (world s')) \<Longrightarrow> s_Redkeys (api (world s')) = s_Redkeys (api (world s)) \<Longrightarrow>
      s_Configs (api (world s')) = s_Configs (api (world s)) \<Longrightarrow> E e s'"
  shows "wp (bindE (stage r ''ensure_rbac'' (ensureRBAC r cluster)) (\<lambda>_.
    bindE (stage r ''ensure_robin_deployment'' (ensureRobinDeployment r cluster)) (\<lambda>_. m))) Q E s"
  unfolding wp_bindE wp_stage
proof (rule wp_ensureRBAC [OF wf])
  fix w1
  assume 1: "rbacOk cluster (api w1)" "wfStore (api w1)" "sameBut (api (world s)) (api w1)"
    "rbacOk cluster (api (world s)) \<Longrightarrow> api w1 = api (world s)"
  have "wp (ensureRobinDeployment r cluster) (\<lambda>_ w'. wp m Q E (s\<lparr>world := w'\<rparr>))
      (\<lambda>e w'. E e (stageError r ''ensure_robin_deployment'' (s\<lparr>world := w'\<rparr>))) w1"
  proof (rule wp_ensureRobinDeployment [OF 1(2) norev])
    fix w2
    assume 2: "deploymentOk r cluster (api w2)" "wfStore (api w2)" "onlyDeployment cluster (api w1) (api w2)"
      "deploymentOk r cluster (api w1) \<Longrightarrow> api w2 = api w1"
    from 2(3) 1(1) have rbac: "rbacOk cluster (api w2)"
      by (auto simp: onlyDeployment_def rbacOk_def saOk_def roleOk_def bindingOk_def)
    show "wp m Q E (s\<lparr>world := w2\<rparr>)"
      by (rule step) (use 1 2 rbac in \<open>auto simp: robinOk_def sameBut_def onlyDeployment_def\<close>)
  qed (use 1 in \<open>auto simp: sameBut_def intro!: err\<close>)
  then show "wp (ensureRobinDeployment r cluster) (\<lambda>_ w'. wp m Q E (s\<lparr>world := w1, world := w'\<rparr>))
      (\<lambda>e w'. E e (stageError r ''ensure_robin_deployment'' (s\<lparr>world := w1, world := w'\<rparr>)))
      (world (s\<lparr>world := w1\<rparr>))" by simp
qed (auto simp: sameBut_def intro!: err)

end

text \<open>What a successful reconcile has done to the store.\<close>

definition reconciled ::
  "('w, 'z) RedkeyReconciler_scheme \<Rightarrow> Redkey \<Rightarrow> Redkey \<Rightarrow> RedkeyConfig list \<Rightarrow> int \<Rightarrow> RedkeyConfig \<Rightarrow>
   Redkey \<Rightarrow> store \<Rightarrow> store \<Rightarrow> RedkeyConfig list \<Rightarrow> bool" where
  "reconciled r cluster old cs now c new st st' cs' \<longleftrightarrow>
     wfStore st' \<and> robinOk r cluster st' \<and> configLog cluster st' cs' \<and>
     map logEntry cs' = prune (publishSpec cluster (map logEntry cs)) \<and>
     selectActiveConfig cs' = Some c \<and>
     withStatus old (aggregatedStatus r now (Generation (rk_Meta cluster)) c old) new \<and>
     s_Redkeys st' = fmupd (NamespacedName cluster) new (s_Redkeys st) \<and>
     configsGrow cluster cs st st' \<and>
     (robinOk r cluster st \<and> settledLog cluster (map logEntry cs) \<longrightarrow>
        st' = s_Redkeys_update (fmupd (NamespacedName cluster) new) st)"

lemma reconciledI:
  assumes robin: "robinOk r cluster st1" "robinOk r cluster st2"
    and sync: "map logEntry cs2 = publishSpec cluster (map logEntry cs)" "configsGrow cluster cs st1 st2"
      "cs \<noteq> [] \<Longrightarrow> \<not> needsNewConfig cluster (latestOf cs) \<Longrightarrow> st2 = st1"
    and active: "selectActiveConfig (drop i cs2) = Some c"
    and pruned: "map logEntry (drop i cs2) = prune (map logEntry cs2)"
    and status: "withStatus old (aggregatedStatus r now (Generation (rk_Meta cluster)) c old) new"
    and log: "configLog cluster st3 (drop i cs2)"
    and st3: "st3 = s_Redkeys_update (fmupd (NamespacedName cluster) new) (dropConfigs (configKey ` set (take i cs2)) st2)"
    and wf: "wfStore st2" and stored: "fmlookup (s_Redkeys st2) (NamespacedName cluster) = Some old"
    and redkeys: "s_Redkeys st2 = s_Redkeys st"
    and configs: "s_Configs st1 = s_Configs st"
    and idle: "robinOk r cluster st \<Longrightarrow> st1 = st"
  shows "reconciled r cluster old cs now c new st st3 (drop i cs2)"
proof -
  have "robinOk r cluster st3 = robinOk r cluster st2"
    by (rule robinOk_cong) (simp_all add: st3 dropConfigs_def)
  moreover have "st3 = s_Redkeys_update (fmupd (NamespacedName cluster) new) st"
    if "robinOk r cluster st" "settledLog cluster (map logEntry cs)"
  proof -
    have "map logEntry cs2 = map logEntry cs" using that(2) sync(1) by (simp add: settledLog_def)
    with that(2) pruned have "map logEntry (drop i cs2) = map logEntry cs2" by (simp add: settledLog_def)
    then have "take i cs2 = []" by (rule drop_same_length)
    with st3 sync(3) [OF settledLog_not_needs [OF that(2)]] idle [OF that(1)] show ?thesis by simp
  qed
  moreover have "wfStore st3"
    using wf keyedD [of "\<lambda>x. metaKey (rk_Meta x)" "s_Redkeys st2", OF _ stored] status
    by (simp add: st3 wfStore_def dropConfigs_def withStatus_def)
  moreover have "configsGrow cluster cs st st3"
    using sync(2) configs by (auto simp: configsGrow_def st3 dropConfigs_def)
  ultimately show ?thesis
    using robin sync(1) active pruned status log redkeys st3
    by (auto simp: reconciled_def dropConfigs_def)
qed

context status_writer
begin

text \<open>The reconcile from the cleanup on.\<close>

abbreviation finishReconcile :: "Redkey \<Rightarrow> RedkeyConfig list \<Rightarrow> ('w rstate, Result) io" where
  "finishReconcile cluster cs \<equiv> bindE (bindE (cleanupStage r cs) (\<lambda>kept.
      bindE (stage r ''aggregate_status'' (aggregateStatus r cluster kept)) (\<lambda>cluster'.
      returnE (kept, cluster')))) (\<lambda>(configs', cluster').
      bindE (modifyE (recordRedkeyMetrics r cluster' (selectActiveConfig configs'))) (\<lambda>_.
      returnE (requeue r)))"

lemma wp_finishReconcile:
  assumes wf: "wfStore (api (world s))" and log: "configLog cluster (api (world s)) cs" "cs \<noteq> []"
    and stored: "fmlookup (s_Redkeys (api (world s))) (NamespacedName cluster) = Some old"
    and step: "\<And>i c now new s'. selectActiveConfig (drop i cs) = Some c \<Longrightarrow>
      map logEntry (drop i cs) = prune (map logEntry cs) \<Longrightarrow>
      withStatus old (aggregatedStatus r now (Generation (rk_Meta cluster)) c old) new \<Longrightarrow>
      configLog cluster (api (world s')) (drop i cs) \<Longrightarrow>
      api (world s') = s_Redkeys_update (fmupd (NamespacedName cluster) new)
        (dropConfigs (configKey ` set (take i cs)) (api (world s))) \<Longrightarrow> Q (requeue r) s'"
    and err: "\<And>e K s'. outage \<Longrightarrow> api (world s') = dropConfigs K (api (world s)) \<Longrightarrow> E e s'"
  shows "wp (finishReconcile cluster cs) Q E s"
  unfolding wp_bindE
proof (rule wp_cleanupStage [OF log(1)])
  fix i and s1 :: "'w rstate"
  assume l: "configLog cluster (api (world s1)) (drop i cs)" "map logEntry (drop i cs) = prune (map logEntry cs)"
    and s1: "api (world s1) = dropConfigs (configKey ` set (take i cs)) (api (world s))"
  have "drop i cs \<noteq> []" using l(2) log(2) by (metis map_is_Nil_conv prune_Nil_iff)
  then obtain c where c: "selectActiveConfig (drop i cs) = Some c"
    using selectActiveConfig_None_iff by fastforce
  have only: "onlyConfigs (api (world s)) (api (world s1))" by (simp add: s1)
  have wf1: "wfStore (api (world s1))" and st1: "s_Redkeys (api (world s1)) = s_Redkeys (api (world s))"
    using wf onlyConfigs_sel [OF only] by simp_all
  have "wp (aggregateStatus r cluster (drop i cs)) (\<lambda>x w'. Q (requeue r)
      (recordRedkeyMetrics r x (selectActiveConfig (drop i cs)) (s1\<lparr>world := w'\<rparr>)))
      (\<lambda>e w'. E e (stageError r ''aggregate_status'' (s1\<lparr>world := w'\<rparr>))) (world s1)"
  proof (rule wp_aggregateStatus [OF wf1 c])
    fix latest now y w'
    assume "fmlookup (s_Redkeys (api (world s1))) (NamespacedName cluster) = Some latest"
      and "withStatus latest (aggregatedStatus r now (Generation (rk_Meta cluster)) c latest) y"
      and w': "api w' = s_Redkeys_update (fmupd (NamespacedName cluster) y) (api (world s1))"
    moreover from w' l(1) have "configLog cluster (api w') (drop i cs)"
      by (simp add: configLog_def configsView_def clusterConfigs_def wfConfigs_def)
    ultimately show "Q (requeue r) (recordRedkeyMetrics r (cluster\<lparr>rk_Status := rk_Status y\<rparr>)
        (selectActiveConfig (drop i cs)) (s1\<lparr>world := w'\<rparr>))"
      using stored st1 s1 l(2) c by (intro step [of i c now y]) simp_all
  qed (use stored st1 s1 in \<open>auto intro!: err\<close>)
  then show "wp (stage r ''aggregate_status'' (aggregateStatus r cluster (drop i cs)))
      (\<lambda>x. wp (returnE (drop i cs, x)) (\<lambda>x. wp (case x of (configs', cluster') \<Rightarrow>
        bindE (modifyE (recordRedkeyMetrics r cluster' (selectActiveConfig configs'))) (\<lambda>_. returnE (requeue r)))
        Q E) E) E s1" by (simp add: wp_simps)
qed (rule err)

lemma wp_reconcileCluster:
  assumes wf: "wfStore (api (world s))"
    and norev: "mapGet (derefMap (sp_Annotations (rk_Spec cluster))) deploymentRevisionAnnotation = None"
    and stored: "fmlookup (s_Redkeys (api (world s))) (NamespacedName cluster) = Some old"
    and log: "configLog cluster (api (world s)) cs"
    and can: "canPublish cluster cs (api (world s))"
    and step: "\<And>cs' c now new s'. reconciled r cluster old cs now c new (api (world s)) (api (world s')) cs' \<Longrightarrow>
      Q (requeue r) s'"
    and err: "\<And>e s'. outage \<Longrightarrow> interrupted cluster cs (api (world s)) (api (world s')) \<Longrightarrow> E e s'"
  shows "wp (reconcileCluster r cluster) Q E s"
  unfolding reconcileCluster_def
proof (rule wp_robinStages [OF wf norev], goal_cases)
  case 1: (1 s1)
  have log1: "configLog cluster (api (world s1)) cs"
    using log 1(4) by (simp add: configLog_def configsView_def clusterConfigs_def wfConfigs_def)
  have can1: "canPublish cluster cs (api (world s1))"
    using can 1(4) by (simp add: canPublish_def)
  have stored1: "fmlookup (s_Redkeys (api (world s1))) (NamespacedName cluster) = Some old"
    using stored 1(3) by simp
  show ?case
    unfolding wp_bindE [of "syncConfigs r cluster"]
  proof (rule wp_syncConfigs [OF log1 can1], goal_cases)
    case 2: (1 cs2 s2)
    note sel = onlyConfigs_sel [OF 2(2)]
    have ne: "cs2 \<noteq> []" using 2(3) publishSpec_ne by (metis map_is_Nil_conv)
    have stored2: "fmlookup (s_Redkeys (api (world s2))) (NamespacedName cluster) = Some old"
      using stored1 sel by simp
    have robin2: "robinOk r cluster (api (world s2))"
      using 1(1) by (simp add: robinOk_onlyConfigs [OF 2(2)])
    have "wp (finishReconcile cluster cs2) Q E s2"
    proof (rule wp_finishReconcile [OF _ 2(1) ne stored2], goal_cases)
      case 3: (2 i c now new s3)
      show ?case
        by (rule step, rule reconciledI [OF 1(1) robin2 2(3-5) 3(1-5) _ stored2]) (use 1 sel in simp_all)
    next
      case (3 e K s3)
      then show ?case
        using 1 sel 2(4) configLog_wf [OF 2(1)]
        by (intro err) (auto simp: interrupted_def configsGrow_drop configsGrow_from [OF 1(4)],
          simp add: dropConfigs_def)
    qed (use 1(2) sel in auto)
    with ne show ?case by simp
  next
    case (2 e s2)
    then show ?case
      using 1 onlyConfigs_sel [OF 2(2)] by (intro err) (auto simp: interrupted_def configsGrow_from [OF 1(4)])
  qed
next
  case (2 e s1)
  then show ?case
    using configLog_wf [OF log] by (intro err) (auto simp: interrupted_def configsGrow_same wfConfigs_def)
qed

end

subsection \<open>Settled clusters\<close>

text \<open>The desired objects depend on a Redkey's key and spec only.\<close>

definition sameTarget :: "Redkey \<Rightarrow> Redkey \<Rightarrow> bool" where
  "sameTarget a b \<longleftrightarrow> metaKey (rk_Meta a) = metaKey (rk_Meta b) \<and> rk_Spec a = rk_Spec b"

lemma sameTarget_names:
  assumes "sameTarget a b"
  shows "Name (rk_Meta a) = Name (rk_Meta b)" "Namespace (rk_Meta a) = Namespace (rk_Meta b)" "rk_Spec a = rk_Spec b"
  using assms by (simp_all add: sameTarget_def metaKey_def)

lemma robinOk_sameTarget:
  assumes "sameTarget a b"
  shows "robinOk r a st = robinOk r b st"
proof -
  note n = sameTarget_names [OF assms]
  have base: "robinName a = robinName b" "robinBaseLabels a = robinBaseLabels b"
    "robinBaseContainer a = robinBaseContainer b" "robinDefaultEnvVars a = robinDefaultEnvVars b"
    by (simp_all add: robinName_def robinBaseLabels_def robinBaseContainer_def robinDefaultEnvVars_def n)
  have "robinBasePodSpec a = robinBasePodSpec b" "robinContainer a = robinContainer b"
    by (simp_all only: robinBasePodSpec_def robinContainer_def base n)
  then have "buildDesiredRobinDeployment a = buildDesiredRobinDeployment b"
    by (simp only: buildDesiredRobinDeployment_def robinPodSpec_def base n)
  then show ?thesis
    by (simp add: robinOk_def rbacOk_def saOk_def roleOk_def bindingOk_def deploymentOk_def metaOk_def
        desiredRoleBinding_def robinName_def robinBaseLabels_def n)
qed

lemma configLog_sameTarget: "sameTarget a b \<Longrightarrow> configLog a st cs = configLog b st cs"
  by (simp add: configLog_def configsView_def clusterConfigs_def clusterSelector_def sameTarget_names)

text \<open>A Redkey whose workload a reconcile would leave as it is.\<close>

definition settled :: "('w, 'z) RedkeyReconciler_scheme \<Rightarrow> nsname \<Rightarrow> store \<Rightarrow> bool" where
  "settled r key st \<longleftrightarrow> wfStore st \<and>
     (\<exists>cluster cs. fmlookup (s_Redkeys st) key = Some cluster \<and> sp_Primaries (rk_Spec cluster) \<noteq> 0 \<and>
        mapGet (derefMap (sp_Annotations (rk_Spec cluster))) deploymentRevisionAnnotation = None \<and>
        robinOk r cluster st \<and> configLog cluster st cs \<and> settledLog cluster (map logEntry cs))"

text \<open>What a settled Redkey keeps: everything but the stored Redkeys.\<close>

definition sameWorkload :: "store \<Rightarrow> store \<Rightarrow> bool" where
  "sameWorkload st st' \<longleftrightarrow> st' = st\<lparr>s_Redkeys := s_Redkeys st'\<rparr>"

lemma sameWorkload_trans: "sameWorkload a b \<Longrightarrow> sameWorkload b c \<Longrightarrow> sameWorkload a c"
  unfolding sameWorkload_def by (cases a; cases b; cases c) simp

primrec reconciles :: "('w, 'z) RedkeyReconciler_scheme \<Rightarrow> nsname \<Rightarrow> nat \<Rightarrow> ('w rstate, unit) io" where
  "reconciles r key 0 = returnE ()"
| "reconciles r key (Suc n) = bindE (Reconcile r key) (\<lambda>_. reconciles r key n)"

lemma reconciled_settled:
  assumes rec: "reconciled r cluster cluster cs now c new st st' cs'"
    and key: "NamespacedName cluster = key" and pos: "sp_Primaries (rk_Spec cluster) \<noteq> 0"
    and norev: "mapGet (derefMap (sp_Annotations (rk_Spec cluster))) deploymentRevisionAnnotation = None"
  shows "settled r key st'"
proof -
  have ws: "withStatus cluster (aggregatedStatus r now (Generation (rk_Meta cluster)) c cluster) new"
    and l: "map logEntry cs' = prune (publishSpec cluster (map logEntry cs))"
    using rec by (simp_all add: reconciled_def)
  have t: "sameTarget new cluster" using ws by (simp add: sameTarget_def withStatus_def)
  have "publishSpec new (map logEntry cs') = map logEntry cs'"
    unfolding l publishSpec_def
    by (subst publish_settled [symmetric]) (use ws in \<open>auto simp: withStatus_def sameTarget_names [OF t] publish_settled\<close>)
  then have "settledLog new (map logEntry cs')" by (simp add: settledLog_def l)
  with rec t ws pos norev key show ?thesis
    by (auto simp: settled_def reconciled_def withStatus_def robinOk_sameTarget [OF t]
        configLog_sameTarget [OF t] intro!: exI [of _ cs'])
qed

context status_writer
begin

lemma wp_Reconcile:
  assumes wf: "wfStore (api (world s))"
    and stored: "fmlookup (s_Redkeys (api (world s))) key = Some cluster"
    and pos: "sp_Primaries (rk_Spec cluster) \<noteq> 0"
    and norev: "mapGet (derefMap (sp_Annotations (rk_Spec cluster))) deploymentRevisionAnnotation = None"
    and log: "configLog cluster (api (world s)) cs" and can: "canPublish cluster cs (api (world s))"
    and step: "\<And>cs' c now new s'. reconciled r cluster cluster cs now c new (api (world s)) (api (world s')) cs' \<Longrightarrow>
      Q (requeue r) s'"
    and err: "\<And>e s'. outage \<Longrightarrow> interrupted cluster cs (api (world s)) (api (world s')) \<Longrightarrow> E e s'"
  shows "wp (Reconcile r key) Q E s"
proof -
  have key: "NamespacedName cluster = key"
    using wf stored by (auto simp: wfStore_def dest: keyedD)
  have body: "wp (reconcileCluster r cluster) Q E (s\<lparr>world := w'\<rparr>)" if "api w' = api (world s)" for w'
    by (rule wp_reconcileCluster [where old = cluster and cs = cs])
      (use wf stored norev log can that key in \<open>auto intro: step err\<close>)
  have "wp (getRedkey r key) (\<lambda>x w'. wp (case Inr x of Inl e \<Rightarrow> throwE e | Inr cluster \<Rightarrow>
       if sp_Primaries (rk_Spec cluster) = 0 then
           bindE (stage r ''scale_to_zero'' (reconcileScaleToZero r cluster)) (\<lambda>(res, cluster').
           bindE (modifyE (recordRedkeyMetrics r cluster' None)) (\<lambda>_. returnE res))
         else reconcileCluster r cluster) Q E (s\<lparr>world := w'\<rparr>))
     (\<lambda>e w'. \<not> IsNotFound e \<and> outage \<and> api w' = api (world s)) (world s)"
    by (rule wp_redkey_get) (use stored pos body in auto)
  moreover have "interrupted cluster cs (api (world s)) (api (world s))"
    using wf configLog_wf [OF log] by (simp add: interrupted_def configsGrow_same)
  ultimately show ?thesis
    unfolding Reconcile_def wp_simps
    by (elim wp_mono) (auto simp: wp_simps intro: err)
qed

end

context status_writer
begin

lemma wp_reconcile_settled:
  assumes "settled r key (api (world s))"
    and step: "\<And>s'. settled r key (api (world s')) \<Longrightarrow> sameWorkload (api (world s)) (api (world s')) \<Longrightarrow>
      Q (requeue r) s'"
    and err: "\<And>e s'. outage \<Longrightarrow> E e s'"
  shows "wp (Reconcile r key) Q E s"
proof -
  obtain cluster cs where wf: "wfStore (api (world s))"
    and c: "fmlookup (s_Redkeys (api (world s))) key = Some cluster" "sp_Primaries (rk_Spec cluster) \<noteq> 0"
      "mapGet (derefMap (sp_Annotations (rk_Spec cluster))) deploymentRevisionAnnotation = None"
    and l: "robinOk r cluster (api (world s))" "configLog cluster (api (world s)) cs"
      "settledLog cluster (map logEntry cs)"
    using assms(1) by (auto simp: settled_def)
  have key: "NamespacedName cluster = key" using wf c(1) by (auto simp: wfStore_def dest: keyedD)
  show ?thesis
  proof (rule wp_Reconcile [OF wf c l(2)])
    show "canPublish cluster cs (api (world s))"
      using settledLog_not_needs [OF l(3)] by (simp add: canPublish_def)
    fix cs' a now new and s' :: "'w rstate"
    assume rec: "reconciled r cluster cluster cs now a new (api (world s)) (api (world s')) cs'"
    then have "sameWorkload (api (world s)) (api (world s'))"
      using l by (simp add: reconciled_def sameWorkload_def)
    with reconciled_settled [OF rec key c(2,3)] show "Q (requeue r) s'" by (rule step)
  qed (rule err)
qed

lemma wp_reconciles_settled:
  assumes "settled r key (api (world s))"
  shows "wp (reconciles r key n)
    (\<lambda>_ s'. settled r key (api (world s')) \<and> sameWorkload (api (world s)) (api (world s')))
    (\<lambda>_ _. outage) s"
  using assms
proof (induction n arbitrary: s)
  case 0
  then show ?case by (simp add: wp_simps sameWorkload_def)
next
  case (Suc n)
  show ?case
    unfolding reconciles.simps wp_bindE
  proof (rule wp_reconcile_settled [OF Suc.prems])
    fix s1 :: "'w rstate"
    assume s1: "settled r key (api (world s1))" "sameWorkload (api (world s)) (api (world s1))"
    show "wp (reconciles r key n)
      (\<lambda>_ s'. settled r key (api (world s')) \<and> sameWorkload (api (world s)) (api (world s'))) (\<lambda>_ _. outage) s1"
      by (rule wp_mono [OF Suc.IH [OF s1(1)]]) (auto intro: sameWorkload_trans [OF s1(2)])
  qed
qed

end

text \<open>
  C1. \<^verbatim>\<open>Reconcile\<close> refines the abstract log: read as log entries in the order of their sequence
  numbers, the configs of a live Redkey become what publishing its spec and pruning what lies
  before the last applied entry give. The status it stores is that of the active config among them.
  Without an outage it cannot fail.
\<close>

theorem reconcile_refines_log:
  assumes "status_writer r api outage" and "wfStore (api (world s))"
    and "fmlookup (s_Redkeys (api (world s))) key = Some cluster" and "sp_Primaries (rk_Spec cluster) \<noteq> 0"
    and "mapGet (derefMap (sp_Annotations (rk_Spec cluster))) deploymentRevisionAnnotation = None"
    and "configLog cluster (api (world s)) cs" and "canPublish cluster cs (api (world s))"
  shows "wp (Reconcile r key)
    (\<lambda>res s'. res = requeue r \<and> (\<exists>cs' c now new. configLog cluster (api (world s')) cs' \<and>
       map logEntry cs' = prune (publishSpec cluster (map logEntry cs)) \<and>
       selectActiveConfig cs' = Some c \<and> fmlookup (s_Redkeys (api (world s'))) key = Some new \<and>
       rk_Spec new = rk_Spec cluster \<and>
       rk_Status new = aggregatedStatus r now (Generation (rk_Meta cluster)) c cluster))
    (\<lambda>_ _. outage) s"
proof -
  have "NamespacedName cluster = key" using assms(2,3) by (auto simp: wfStore_def dest: keyedD)
  then show ?thesis
    by (intro status_writer.wp_Reconcile [OF assms])
      (auto simp: reconciled_def withStatus_def)
qed

text \<open>
  C2. One successful reconcile settles a live Redkey: however often the request is processed again,
  the configs, the RBAC objects and the Deployment stay exactly as the first reconcile left them
  and only the Redkey's own status is written. Failures need an outage.
\<close>

theorem reconcile_settles:
  assumes "status_writer r api outage" and "wfStore (api (world s))"
    and "fmlookup (s_Redkeys (api (world s))) key = Some cluster" and "sp_Primaries (rk_Spec cluster) \<noteq> 0"
    and "mapGet (derefMap (sp_Annotations (rk_Spec cluster))) deploymentRevisionAnnotation = None"
    and "configLog cluster (api (world s)) cs" and "canPublish cluster cs (api (world s))"
  shows "wp (Reconcile r key)
    (\<lambda>_ s'. \<forall>n. wp (reconciles r key n)
       (\<lambda>_ s''. sameWorkload (api (world s')) (api (world s''))) (\<lambda>_ _. outage) s')
    (\<lambda>_ _. outage) s"
proof (rule status_writer.wp_Reconcile [OF assms])
  have key: "NamespacedName cluster = key" using assms(2,3) by (auto simp: wfStore_def dest: keyedD)
  fix cs' c now new and s' :: "'a rstate"
  assume "reconciled r cluster cluster cs now c new (api (world s)) (api (world s')) cs'"
  then have "settled r key (api (world s'))" by (rule reconciled_settled [OF _ key assms(4,5)])
  then have each: "wp (reconciles r key n) (\<lambda>_ s''. settled r key (api (world s'')) \<and>
      sameWorkload (api (world s')) (api (world s''))) (\<lambda>_ _. outage) s'" for n
    by (rule status_writer.wp_reconciles_settled [OF assms(1)])
  show "\<forall>n. wp (reconciles r key n) (\<lambda>_ s''. sameWorkload (api (world s')) (api (world s'')))
      (\<lambda>_ _. outage) s'"
    by (intro allI) (rule wp_mono [OF each], auto)
qed

text \<open>A Redkey just created, for the first reconcile.\<close>

abbreviation firstState :: "mem rstate" where
  "firstState \<equiv> freshState (memWith [sampleRedkey] [])"

lemma first_state:
  "wfStore (m_Store (world firstState))"
  "fmlookup (s_Redkeys (m_Store (world firstState))) (''ns'', ''demo'') = Some sampleRedkey"
  "sp_Primaries (rk_Spec sampleRedkey) \<noteq> 0"
  "mapGet (derefMap (sp_Annotations (rk_Spec sampleRedkey))) deploymentRevisionAnnotation = None"
  "configLog sampleRedkey (m_Store (world firstState)) []"
  "canPublish sampleRedkey [] (m_Store (world firstState))"
  by (simp_all add: freshState_def sampleRedkey_def sampleSpec_def metaKey_def fmlookup_of_list configLog_def
      configsView_def clusterConfigs_def wfConfigs_def canPublish_def)

theorem reconcile_refines_log_witness:
  "wp (Reconcile memReconciler (''ns'', ''demo''))
    (\<lambda>_ s'. \<exists>c. configLog sampleRedkey (m_Store (world s')) [c] \<and> le_Seq (logEntry c) = 1 \<and>
       le_Topology (logEntry c) = (3, 0)) (\<lambda>_ _. False) firstState"
proof (rule wp_mono [OF reconcile_refines_log [OF mem_writer.status_writer_axioms first_state]], goal_cases)
  case (1 res s')
  then obtain cs' where "configLog sampleRedkey (m_Store (world s')) cs'"
    "map logEntry cs' = prune (publishSpec sampleRedkey [])" by auto
  then show ?case
    by (auto simp: publishSpec_def publish_def nextSeq_def sampleRedkey_def sampleSpec_def map_eq_Cons_conv
        simp del: logEntry_sel)
qed

theorem reconcile_settles_witness:
  "wp (Reconcile memReconciler (''ns'', ''demo''))
    (\<lambda>_ s'. wp (reconciles memReconciler (''ns'', ''demo'') 2)
       (\<lambda>_ s''. sameWorkload (m_Store (world s')) (m_Store (world s''))) (\<lambda>_ _. False) s')
    (\<lambda>_ _. False) firstState"
  by (rule wp_mono [OF reconcile_settles [OF mem_writer.status_writer_axioms first_state]]) blast+

text \<open>
  C12. A request for a Redkey that no longer exists drops every series and tracker entry of that
  Redkey, touches no stored object and asks for no requeue. It fails only on an outage, and then
  the stored objects are untouched as well.
\<close>

theorem reconcile_deleted:
  assumes "operator_libs r api outage" and "prom_lib r gauge counter samples"
    and "fmlookup (s_Redkeys (api (world s))) key = None"
  shows "wp (Reconcile r key)
    (\<lambda>res s'. res = emptyResult \<and> api (world s') = api (world s) \<and>
       (\<forall>v p. v = redkeyPhase \<or> v = redkeyConfigPhase \<or> v = redkeyOperationInProgress \<longrightarrow>
          gauge (world s') v [fst key, snd key, p] = None) \<and>
       fmlookup (opActive s') key = None \<and> fmlookup (lastPhase s') key = None)
    (\<lambda>_ s'. outage \<and> api (world s') = api (world s)) s"
    (is "wp _ ?Q ?E s")
proof -
  have k: "kube_api r api outage" using assms(1) by (simp add: operator_libs_def)
  note [simp] = metrics_frame.obs_deleteMetrics [OF kube_api.metrics_kept [OF k]]
    metrics_frame.obs_stageError [OF kube_api.metrics_kept [OF k]]
  have gone: "?Q emptyResult (deleteRedkeyMetrics r key (s\<lparr>world := w'\<rparr>))" if "api w' = api (world s)" for w'
    using that by (auto simp: deleteRedkeyMetrics_def opForget_def readyForget_def
        prom_lib.gauge_delete [OF assms(2)] kube_api.metrics_api [OF k] onWorld_def)
  have "wp (getRedkey r key) (\<lambda>_ _. False)
      (\<lambda>e w'. api w' = api (world s) \<and> (\<not> IsNotFound e \<longrightarrow> outage)) (world s)"
    by (rule kube_api.wp_redkey_get [OF k]) (use assms(3) in auto)
  then show ?thesis
    unfolding Reconcile_def wp_simps
    by (rule wp_mono) (use gone in \<open>auto simp: wp_simps\<close>)
qed

theorem reconcile_deleted_witness:
  "wp (Reconcile memReconciler (''ns'', ''demo'')) (\<lambda>res s'. res = emptyResult) (\<lambda>_ _. False)
     (freshState (memWith [] []))"
  by (rule wp_mono [OF reconcile_deleted [OF mem_libs.operator_libs_axioms mem_prom.prom_lib_axioms]])
    (auto simp: freshState_def)

end
