(* ===== verification/Admission.thy ===== *)
theory Admission
  imports Mem_World
begin

section \<open>Admission of Redkeys (the validation rules of \<^verbatim>\<open>api/v1beta1/redkey_types.go\<close>)\<close>

text \<open>
  The validation markers of the Redkey type, which the API server evaluates when a Redkey is created
  or changed. A field that \<^verbatim>\<open>omitempty\<close> leaves out of the serialised object counts as absent: \<^verbatim>\<open>has\<close> is
  then false, and a rule on the field that mentions \<^verbatim>\<open>oldSelf\<close> is skipped.
\<close>

subsection \<open>The rules\<close>

definition accessModeNames :: "string list" where
  "accessModeNames = [''ReadWriteOnce'', ''ReadOnlyMany'', ''ReadWriteMany'']"

text \<open>The rules on a spec by itself.\<close>

definition validSpec :: "RedkeySpec \<Rightarrow> bool" where
  "validSpec self \<longleftrightarrow>
     (sp_Ephemeral self \<or> sp_Storage self \<noteq> '''') \<and>
     \<not> (sp_Ephemeral self \<and> sp_Storage self \<noteq> '''') \<and>
     \<not> (\<not> sp_Ephemeral self \<and> sp_PurgeKeysOnRebalance self = Some True) \<and>
     (sp_Mode self \<noteq> ModeStandalone \<or> sint (sp_Primaries self) \<le> 1) \<and>
     (sp_Mode self \<noteq> ModeStandalone \<or> sp_ReplicasPerPrimary self = 0) \<and>
     (sp_Mode self = ModeCluster \<or> sp_Mode self = ModeStandalone) \<and>
     0 \<le> sint (sp_Primaries self) \<and>
     (\<forall>m \<in> set (sp_AccessModes self). m \<in> set accessModeNames)"

text \<open>The rules on a change of the spec.\<close>

definition validChange :: "RedkeySpec \<Rightarrow> RedkeySpec \<Rightarrow> bool" where
  "validChange oldSelf self \<longleftrightarrow>
     sp_Mode self = sp_Mode oldSelf \<and>
     sp_Ephemeral self = sp_Ephemeral oldSelf \<and>
     (sp_Storage self = '''' \<or> sp_Storage oldSelf = '''' \<or> sp_Storage self = sp_Storage oldSelf) \<and>
     sp_StorageClassName self = sp_StorageClassName oldSelf \<and>
     (sp_AccessModes self = [] \<or> sp_AccessModes oldSelf = [] \<or> sp_AccessModes self = sp_AccessModes oldSelf)"

text \<open>The two rules at the root, which see the status.\<close>

definition topologyLock :: "Redkey \<Rightarrow> Redkey \<Rightarrow> bool" where
  "topologyLock oldSelf self \<longleftrightarrow>
     (sp_Ephemeral (rk_Spec self) \<or> sp_Primaries (rk_Spec oldSelf) \<noteq> 0 \<or> sp_Primaries (rk_Spec self) = 0 \<or>
        st_LastAppliedPrimaries (rk_Status self) = 0 \<or>
        sp_Primaries (rk_Spec self) = st_LastAppliedPrimaries (rk_Status self)) \<and>
     (sp_Ephemeral (rk_Spec self) \<or> sp_Primaries (rk_Spec oldSelf) \<noteq> 0 \<or> sp_Primaries (rk_Spec self) = 0 \<or>
        st_LastAppliedPrimaries (rk_Status self) = 0 \<or>
        sp_ReplicasPerPrimary (rk_Spec self) =
          (if st_LastAppliedReplicasPerPrimary (rk_Status self) \<noteq> 0
           then st_LastAppliedReplicasPerPrimary (rk_Status self) else 0))"

text \<open>
  A user's update of the spec. The status belongs to a subresource, so the stored status stays and
  is what the rules see.
\<close>

definition admits :: "Redkey \<Rightarrow> RedkeySpec \<Rightarrow> bool" where
  "admits old spec \<longleftrightarrow>
     validSpec spec \<and> validChange (rk_Spec old) spec \<and> topologyLock old (old\<lparr>rk_Spec := spec\<rparr>)"

subsection \<open>What cannot change\<close>

lemma valid_storage: "validSpec s \<Longrightarrow> sp_Storage s = '''' \<longleftrightarrow> sp_Ephemeral s"
  by (auto simp: validSpec_def)

definition storageIdentity :: "RedkeySpec \<Rightarrow> string \<times> bool \<times> string \<times> string" where
  "storageIdentity s = (sp_Mode s, sp_Ephemeral s, sp_Storage s, sp_StorageClassName s)"

lemma change_identity:
  "validSpec s \<Longrightarrow> validSpec t \<Longrightarrow> validChange s t \<Longrightarrow> storageIdentity t = storageIdentity s"
  using valid_storage [of s] valid_storage [of t]
  unfolding storageIdentity_def validChange_def by auto

text \<open>The specs a Redkey can have, one update after the other.\<close>

inductive edits :: "Redkey \<Rightarrow> RedkeySpec \<Rightarrow> bool" for start where
  created: "validSpec (rk_Spec start) \<Longrightarrow> edits start (rk_Spec start)"
| updated: "edits start s \<Longrightarrow> rk_Spec old = s \<Longrightarrow> admits old t \<Longrightarrow> edits start t"

lemma edits_valid: "edits start s \<Longrightarrow> validSpec s"
  by (induction rule: edits.induct) (auto simp: admits_def)

text \<open>
  C33. However often a Redkey is updated, and whatever the operator writes to its status in between,
  its mode, whether it is ephemeral, its storage size and its storage class are those it was created
  with, although the rule on the storage size alone is skipped for an absent field.
\<close>

theorem storage_identity_immutable:
  assumes "edits start s"
  shows "storageIdentity s = storageIdentity (rk_Spec start)"
  using assms
proof (induction rule: edits.induct)
  case (updated s old t)
  then show ?case using edits_valid change_identity [of s t] by (auto simp: admits_def)
qed simp

lemma sample_valid: "validSpec sampleSpec"
  by (simp add: validSpec_def sampleSpec_def ModeCluster_def ModeStandalone_def accessModeNames_def)

theorem storage_identity_immutable_witness:
  "storageIdentity (sampleSpec\<lparr>sp_Primaries := 5\<rparr>) = storageIdentity sampleSpec"
proof -
  have "edits sampleRedkey (sampleSpec\<lparr>sp_Primaries := 5\<rparr>)"
  proof (rule edits.updated [of _ _ sampleRedkey])
    show "edits sampleRedkey sampleSpec"
      using edits.created [of sampleRedkey] sample_valid by (simp add: sampleRedkey_def)
    show "rk_Spec sampleRedkey = sampleSpec" by (simp add: sampleRedkey_def)
    show "admits sampleRedkey (sampleSpec\<lparr>sp_Primaries := 5\<rparr>)"
      using sample_valid
      by (simp add: admits_def validSpec_def validChange_def topologyLock_def sampleRedkey_def sampleSpec_def
          ModeCluster_def ModeStandalone_def)
  qed
  from storage_identity_immutable [OF this] show ?thesis by (simp add: sampleRedkey_def)
qed

subsection \<open>The number of nodes\<close>

lemma sint_scast_int32 [simp]: "sint (scast (w :: int32) :: go_int) = sint w"
  by (rule sint_up_scast) (simp add: is_up)

lemma sint_word_of_int32:
  "- (2 ^ 31) \<le> x \<Longrightarrow> x < 2 ^ 31 \<Longrightarrow> sint (word_of_int x :: int32) = x"
  by (simp add: sint_sbintrunc' signed_take_bit_int_eq_self)

text \<open>
  C39. \<^verbatim>\<open>NodesNeeded\<close> is the exact number of primaries and replicas as long as that number fits into 32
  bits, the width at which the code multiplies.
\<close>

theorem nodes_needed_exact:
  assumes "- (2 ^ 31) \<le> sint (sp_Primaries s) * (1 + sint (sp_ReplicasPerPrimary s))"
    and "sint (sp_Primaries s) * (1 + sint (sp_ReplicasPerPrimary s)) < 2 ^ 31"
  shows "sint (NodesNeeded s) = sint (sp_Primaries s) * (1 + sint (sp_ReplicasPerPrimary s))"
proof -
  have "sp_Primaries s + sp_Primaries s * sp_ReplicasPerPrimary s =
      word_of_int (sint (sp_Primaries s) * (1 + sint (sp_ReplicasPerPrimary s)))"
    by (simp add: distrib_left)
  with sint_word_of_int32 [OF assms] show ?thesis by (simp add: NodesNeeded_def)
qed

theorem nodes_needed_exact_witness: "sint (NodesNeeded (sampleSpec\<lparr>sp_ReplicasPerPrimary := 2\<rparr>)) = 9"
  using nodes_needed_exact [of "sampleSpec\<lparr>sp_ReplicasPerPrimary := 2\<rparr>"] by (simp add: sampleSpec_def)

text \<open>
  C40. Admission puts no bound on the replicas of a Redkey in cluster mode: any 32-bit number is
  accepted, also a negative one, and with minus one replica per primary no node is needed at all,
  however many primaries the spec asks for.
\<close>

theorem replicas_unbounded:
  assumes "validSpec s" and "sp_Mode s = ModeCluster"
  shows "validSpec (s\<lparr>sp_ReplicasPerPrimary := n\<rparr>) \<and> NodesNeeded (s\<lparr>sp_ReplicasPerPrimary := - 1\<rparr>) = 0"
  using assms by (simp add: validSpec_def NodesNeeded_def ModeCluster_def ModeStandalone_def)

theorem replicas_unbounded_witness:
  "validSpec (sampleSpec\<lparr>sp_ReplicasPerPrimary := - 1\<rparr>) \<and>
   NodesNeeded (sampleSpec\<lparr>sp_ReplicasPerPrimary := - 1\<rparr>) = 0 \<and> sp_Primaries sampleSpec = 3"
  using replicas_unbounded [OF sample_valid, of "- 1"] by (simp add: sampleSpec_def)

end
