(* ===== verification/Lifecycle.thy ===== *)
theory Lifecycle
  imports Convergence Admission
begin

section \<open>The life cycle of a Redkey\<close>

text \<open>
  The operator shares the API server with the users, who edit the spec of a Redkey, and with Robin,
  which reports progress in the status of the configs. The step relation interleaves the three in
  any order; a reconcile is one step. Its invariant shows that the hypotheses of the
  theorems on a single reconcile hold in every state the operator can meet.
\<close>

subsection \<open>Steps\<close>

text \<open>The Deployment controller's annotation is not the user's to set.\<close>

abbreviation noRevision :: "RedkeySpec \<Rightarrow> bool" where
  "noRevision s \<equiv> mapGet (derefMap (sp_Annotations s)) deploymentRevisionAnnotation = None"

text \<open>What the API server stores for an admitted edit: a new spec under the next generation.\<close>

definition edited :: "Redkey \<Rightarrow> RedkeySpec \<Rightarrow> Redkey \<Rightarrow> bool" where
  "edited old spec new \<longleftrightarrow> admits old spec \<and> spec \<noteq> rk_Spec old \<and> noRevision spec \<and>
     rk_Spec new = spec \<and> rk_Status new = rk_Status old \<and> metaKey (rk_Meta new) = metaKey (rk_Meta old) \<and>
     sint (Generation (rk_Meta new)) = sint (Generation (rk_Meta old)) + 1"

text \<open>What Robin may change of a config.\<close>

definition robinReport :: "RedkeyConfig \<Rightarrow> RedkeyConfig \<Rightarrow> bool" where
  "robinReport c c' \<longleftrightarrow> rc_Spec c' = rc_Spec c \<and> configKey c' = configKey c \<and>
     Labels (rc_Meta c') = Labels (rc_Meta c) \<and> Annotations (rc_Meta c') = Annotations (rc_Meta c)"

inductive lifeStep ::
  "('w, 'z) RedkeyReconciler_scheme \<Rightarrow> ('w \<Rightarrow> store) \<Rightarrow> nsname \<Rightarrow> 'w rstate \<Rightarrow> 'w rstate \<Rightarrow> bool"
  for r api key where
  edit: "fmlookup (s_Redkeys (api (world s))) key = Some old \<Longrightarrow> edited old spec new \<Longrightarrow>
    api (world s') = s_Redkeys_update (fmupd key new) (api (world s)) \<Longrightarrow> lifeStep r api key s s'"
| report: "s_Configs (api (world s)) = pre @ c # post \<Longrightarrow> robinReport c c' \<Longrightarrow>
    api (world s') = s_Configs_update (\<lambda>_. pre @ c' # post) (api (world s)) \<Longrightarrow> lifeStep r api key s s'"
| operate: "Reconcile r key s = (res, s') \<Longrightarrow> lifeStep r api key s s'"

inductive reachable ::
  "('w, 'z) RedkeyReconciler_scheme \<Rightarrow> ('w \<Rightarrow> store) \<Rightarrow> nsname \<Rightarrow> 'w rstate \<Rightarrow> 'w rstate \<Rightarrow> bool"
  for r api key s where
  start: "reachable r api key s s"
| more: "reachable r api key s s' \<Longrightarrow> lifeStep r api key s' s'' \<Longrightarrow> reachable r api key s s''"

subsection \<open>The invariant\<close>

definition generationOf :: "RedkeyConfig \<Rightarrow> int" where
  "generationOf c = (case ParseInt (configGeneration c) of None \<Rightarrow> 0 | Some g \<Rightarrow> sint g)"

abbreviation seqOf :: "RedkeyConfig \<Rightarrow> int" where
  "seqOf c \<equiv> sint (configSeq c)"

text \<open>
  A config of the cluster has the name of its sequence number, was made for a generation of the
  Redkey, has a sequence number no higher than that generation and, when it is for the current
  generation, the topology of the current spec.
\<close>

definition okConfig :: "Redkey \<Rightarrow> RedkeyConfig \<Rightarrow> bool" where
  "okConfig cluster c \<longleftrightarrow>
     configKey c = (Namespace (rk_Meta cluster), sprintfNameNum (Name (rk_Meta cluster)) (configSeq c)) \<and>
     ParseInt (configGeneration c) \<noteq> None \<and> seqOf c \<le> generationOf c \<and>
     generationOf c \<le> sint (Generation (rk_Meta cluster)) \<and>
     (generationOf c = sint (Generation (rk_Meta cluster)) \<longrightarrow>
        (cs_Primaries (rc_Spec c), cs_ReplicasPerPrimary (rc_Spec c)) =
        (sp_Primaries (rk_Spec cluster), sp_ReplicasPerPrimary (rk_Spec cluster)))"

text \<open>Configs are numbered in the order of their generations, and the names are the cluster's own.\<close>

definition okConfigs :: "Redkey \<Rightarrow> RedkeyConfig set \<Rightarrow> bool" where
  "okConfigs cluster C \<longleftrightarrow>
     (let mine = {c \<in> C. configMatches (Namespace (rk_Meta cluster)) (clusterSelector cluster) c} in
      (\<forall>c \<in> mine. okConfig cluster c) \<and>
      (\<forall>c \<in> mine. \<forall>d \<in> mine. seqOf c < seqOf d \<longrightarrow> generationOf c < generationOf d) \<and>
      (\<forall>c \<in> C. \<forall>i. configKey c = (Namespace (rk_Meta cluster), sprintfNameNum (Name (rk_Meta cluster)) i) \<longrightarrow> c \<in> mine))"

definition lifeInv :: "nsname \<Rightarrow> store \<Rightarrow> bool" where
  "lifeInv key st \<longleftrightarrow> wfStore st \<and> wfConfigs st \<and>
     (\<exists>cluster. fmlookup (s_Redkeys st) key = Some cluster \<and> noRevision (rk_Spec cluster) \<and>
        1 \<le> sint (Generation (rk_Meta cluster)) \<and> okConfigs cluster (set (s_Configs st)))"

lemma okConfigs_subset: "okConfigs cluster C \<Longrightarrow> D \<subseteq> C \<Longrightarrow> okConfigs cluster D"
  unfolding okConfigs_def Let_def by blast

lemma okConfigs_sameTarget:
  assumes "sameTarget a b" and "Generation (rk_Meta a) = Generation (rk_Meta b)"
  shows "okConfigs a C = okConfigs b C"
  by (simp add: okConfigs_def okConfig_def clusterSelector_def sameTarget_names [OF assms(1)] assms(2))

text \<open>A config made for the current generation when none of the others is.\<close>

lemma isNewConfig_generation:
  assumes "isNewConfig cluster h y"
  shows "ParseInt (configGeneration y) = Some (Generation (rk_Meta cluster))"
    "generationOf y = sint (Generation (rk_Meta cluster))" "configSeq y = nextSequence h"
    "configKey y = (Namespace (rk_Meta cluster), sprintfNameNum (Name (rk_Meta cluster)) (nextSequence h))"
    "(cs_Primaries (rc_Spec y), cs_ReplicasPerPrimary (rc_Spec y)) =
       (sp_Primaries (rk_Spec cluster), sp_ReplicasPerPrimary (rk_Spec cluster))"
  using assms
  by (simp_all add: isNewConfig_def configGeneration_def generationOf_def metaKey_def)

lemma okConfigs_insert:
  assumes ok: "okConfigs cluster C" and y: "isNewConfig cluster h y"
    and seq: "sint (nextSequence h) \<le> sint (Generation (rk_Meta cluster))"
    and old: "\<And>c. c \<in> C \<Longrightarrow> configMatches (Namespace (rk_Meta cluster)) (clusterSelector cluster) c \<Longrightarrow>
      seqOf c < sint (nextSequence h) \<and> generationOf c < sint (Generation (rk_Meta cluster))"
  shows "okConfigs cluster (insert y C)"
proof -
  note n = isNewConfig_generation [OF y] isNewConfig_matches [OF y]
  have "okConfig cluster y" using n seq by (simp add: okConfig_def)
  then show ?thesis
    using ok n old unfolding okConfigs_def Let_def by (auto dest: less_asym)
qed

subsection \<open>The configs in a state of the invariant\<close>

definition lifeState :: "store \<Rightarrow> Redkey \<Rightarrow> bool" where
  "lifeState st cluster \<longleftrightarrow> wfConfigs st \<and> 1 \<le> sint (Generation (rk_Meta cluster)) \<and>
     okConfigs cluster (set (s_Configs st))"

lemma lifeStateD:
  assumes "lifeState st cluster"
  shows "wfConfigs st" "1 \<le> sint (Generation (rk_Meta cluster))" "okConfigs cluster (set (s_Configs st))"
  using assms by (simp_all add: lifeState_def)

lemma view_set:
  assumes "configsView cluster st cs"
  shows "c \<in> set cs \<longleftrightarrow> c \<in> set (s_Configs st) \<and>
    configMatches (Namespace (rk_Meta cluster)) (clusterSelector cluster) c"
proof -
  have "set cs = set (clusterConfigs cluster st)" using assms by (metis configsView_def set_mset_mset)
  then show ?thesis by (auto simp: clusterConfigs_def)
qed

lemma view_ok: "lifeState st cluster \<Longrightarrow> configsView cluster st cs \<Longrightarrow> c \<in> set cs \<Longrightarrow> okConfig cluster c"
  using lifeStateD(3) [of st cluster] by (simp add: view_set okConfigs_def Let_def)

lemma view_distinct:
  assumes life: "lifeState st cluster" and view: "configsView cluster st cs"
  shows "distinct (map configSeq cs)"
proof -
  have "map configKey cs =
      map (\<lambda>i. (Namespace (rk_Meta cluster), sprintfNameNum (Name (rk_Meta cluster)) i)) (map configSeq cs)"
    using view_ok [OF life view] by (simp add: okConfig_def)
  with view_keys [OF view lifeStateD(1) [OF life]] show ?thesis by (metis distinct_map)
qed

lemma view_log: "lifeState st cluster \<Longrightarrow> configsView cluster st cs \<Longrightarrow> configLog cluster st cs"
  by (simp add: configLog_def view_distinct lifeStateD(1))

text \<open>The latest config is the one of the latest generation.\<close>

lemma view_latest:
  assumes life: "lifeState st cluster" and view: "configsView cluster st cs" and c: "c \<in> set cs"
  shows "generationOf c \<le> generationOf (last cs)"
proof -
  obtain ys z where ys: "cs = ys @ [z]" using c by (cases cs rule: rev_cases) auto
  show ?thesis
  proof (cases "c = z")
    case False
    have "configSeq z \<notin> configSeq ` set ys" using view_distinct [OF life view] ys by simp
    with False c ys view have "seqOf c \<le> seqOf z" "configSeq c \<noteq> configSeq z"
      by (auto simp: configsView_def sorted_append) (metis imageI)
    then have "seqOf c < seqOf z" by (simp add: order_less_le sint_eq_iff)
    with lifeStateD(3) [OF life] c ys view_set [OF view] have "generationOf c < generationOf z"
      by (auto simp: okConfigs_def Let_def)
    with ys show ?thesis by simp
  qed (simp add: ys)
qed

text \<open>A generation without a config can get one.\<close>

lemma view_next:
  assumes life: "lifeState st cluster" and view: "configsView cluster st cs"
    and new: "cs \<noteq> [] \<Longrightarrow> generationOf (last cs) < sint (Generation (rk_Meta cluster))"
  shows "sint (nextSequence (latestOf cs)) \<le> sint (Generation (rk_Meta cluster))"
    and "c \<in> set cs \<Longrightarrow> seqOf c < sint (nextSequence (latestOf cs)) \<and> seqOf c < 2 ^ 63 - 1 \<and>
      generationOf c < sint (Generation (rk_Meta cluster))"
    and "configKey (buildConfig cluster (latestOf cs)) \<notin> configKey ` set (s_Configs st)"
proof -
  have small: "seqOf c < 2 ^ 63 - 1 \<and> generationOf c < sint (Generation (rk_Meta cluster))" if "c \<in> set cs" for c
  proof -
    from that have "cs \<noteq> []" by auto
    with view_latest [OF life view that] new view_ok [OF life view that] sint_int64_bounds(2) [of "Generation (rk_Meta cluster)"]
    show ?thesis by (simp add: okConfig_def)
  qed
  have less: "seqOf c < sint (nextSequence (latestOf cs))" if "c \<in> set cs" for c
    by (rule nextSequence_greater_all) (use view that small in \<open>auto simp: configsView_def\<close>)
  show "sint (nextSequence (latestOf cs)) \<le> sint (Generation (rk_Meta cluster))"
  proof (cases "cs = []")
    case True
    with lifeStateD(2) [OF life] show ?thesis by (simp add: latestOf_def nextSequence_def)
  next
    case False
    then have l: "last cs \<in> set cs" by simp
    from small [OF l] nextSequence_greater [of "last cs"] new [OF False] view_ok [OF life view l] False show ?thesis
      by (simp add: latestOf_def okConfig_def)
  qed
  show "c \<in> set cs \<Longrightarrow> seqOf c < sint (nextSequence (latestOf cs)) \<and> seqOf c < 2 ^ 63 - 1 \<and>
      generationOf c < sint (Generation (rk_Meta cluster))"
    using less small by simp
  show "configKey (buildConfig cluster (latestOf cs)) \<notin> configKey ` set (s_Configs st)"
  proof
    let ?k = "(Namespace (rk_Meta cluster), sprintfNameNum (Name (rk_Meta cluster)) (nextSequence (latestOf cs)))"
    assume "configKey (buildConfig cluster (latestOf cs)) \<in> configKey ` set (s_Configs st)"
    then obtain c where c: "c \<in> set (s_Configs st)" "configKey c = ?k" by (auto simp: metaKey_def)
    with lifeStateD(3) [OF life] have "configMatches (Namespace (rk_Meta cluster)) (clusterSelector cluster) c" by (auto simp: okConfigs_def Let_def)
    with c view_set [OF view] have "c \<in> set cs" by simp
    with view_ok [OF life view] c(2) less show False by (force simp: okConfig_def)
  qed
qed

lemma needs_generation:
  assumes "lifeState st cluster" and "configsView cluster st cs" and "cs \<noteq> []" and "needsNewConfig cluster (latestOf cs)"
  shows "generationOf (last cs) < sint (Generation (rk_Meta cluster))"
  using assms view_ok [OF assms(1,2), of "last cs"]
  by (auto simp: latestOf_def needsNewConfig_covers covers_def logEntry_def generationOf_def okConfig_def
      split: option.splits)

lemma view_canPublish:
  assumes "lifeState st cluster" and "configsView cluster st cs"
  shows "canPublish cluster cs st"
  using view_next(2,3) [OF assms] needs_generation [OF assms] unfolding canPublish_def by blast

text \<open>Publishing keeps the configs in order.\<close>

lemma grow_ok:
  assumes life: "lifeState st cluster" and view: "configsView cluster st cs"
    and new: "cs \<noteq> [] \<Longrightarrow> generationOf (last cs) < sint (Generation (rk_Meta cluster))"
    and y: "isNewConfig cluster (latestOf cs) y"
  shows "okConfigs cluster (insert y (set (s_Configs st)))"
  by (rule okConfigs_insert [OF lifeStateD(3) [OF life] y view_next(1) [OF life view new]])
    (use view_set [OF view] view_next(2) [OF life view new] in auto)

lemma configsGrow_ok:
  assumes life: "lifeState st cluster" and view: "configsView cluster st cs"
    and grow: "configsGrow cluster cs st st'"
  shows "okConfigs cluster (set (s_Configs st'))"
proof (cases "set (s_Configs st') \<subseteq> set (s_Configs st)")
  case True
  with lifeStateD(3) [OF life] show ?thesis by (rule okConfigs_subset)
next
  case False
  with grow obtain y where y: "isNewConfig cluster (latestOf cs) y"
      "set (s_Configs st') \<subseteq> insert y (set (s_Configs st))"
    and needs: "cs = [] \<or> needsNewConfig cluster (latestOf cs)"
    unfolding configsGrow_def by blast
  have "cs \<noteq> [] \<Longrightarrow> generationOf (last cs) < sint (Generation (rk_Meta cluster))"
    using needs needs_generation [OF life view] by blast
  from grow_ok [OF life view this y(1)] y(2) show ?thesis by (rule okConfigs_subset)
qed

lemma configsView_sort: "configsView cluster st (sortConfigs (clusterConfigs cluster st))"
  by (simp add: configsView_def sorted_sortConfigs)

subsection \<open>Every step keeps the invariant\<close>

lemma lifeInvD:
  assumes "lifeInv key st" and "fmlookup (s_Redkeys st) key = Some cluster"
  shows "wfStore st" "lifeState st cluster" "noRevision (rk_Spec cluster)" "NamespacedName cluster = key"
  using assms by (auto simp: lifeInv_def lifeState_def wfStore_def dest: keyedD)

lemma lifeInvE:
  assumes "lifeInv key st"
  obtains cluster where "fmlookup (s_Redkeys st) key = Some cluster"
  using assms by (auto simp: lifeInv_def)

text \<open>Writing the status of the Redkey.\<close>

lemma lifeInvI:
  assumes "lifeState st cluster" and "noRevision (rk_Spec cluster)"
    and "wfStore st'" and "wfConfigs st'" and "okConfigs cluster (set (s_Configs st'))"
    and "fmlookup (s_Redkeys st') key = Some new" and "sameTarget new cluster"
    and "Generation (rk_Meta new) = Generation (rk_Meta cluster)"
  shows "lifeInv key st'"
  using assms okConfigs_sameTarget [OF assms(7,8)] lifeStateD(2) [OF assms(1)] sameTarget_names(3) [OF assms(7)]
  by (simp add: lifeInv_def)

lemma withStatus_sameTarget:
  "withStatus old st new \<Longrightarrow> sameTarget new old \<and> Generation (rk_Meta new) = Generation (rk_Meta old)"
  by (simp add: withStatus_def sameTarget_def)

lemma wfStore_fmupd:
  "wfStore st \<Longrightarrow> NamespacedName new = key \<Longrightarrow> wfStore (s_Redkeys_update (fmupd key new) st)"
  by (simp add: wfStore_def)

lemma life_written:
  assumes inv: "lifeInv key st" and c: "fmlookup (s_Redkeys st) key = Some cluster"
    and y: "withStatus cluster x y" and st': "s_Redkeys st' = fmupd key y (s_Redkeys st)"
    and wf: "wfStore st'" and grow: "wfConfigs st'" "okConfigs cluster (set (s_Configs st'))"
  shows "lifeInv key st'"
  using withStatus_sameTarget [OF y]
  by (intro lifeInvI [OF lifeInvD(2,3) [OF inv c] wf grow, where new = y]) (simp_all add: st')

lemma life_scaled:
  assumes inv: "lifeInv key st" and c: "fmlookup (s_Redkeys st) key = Some cluster"
    and y: "statusWritten cluster st y"
    and st1: "wfStore st1" "s_Redkeys st1 = s_Redkeys st" "wfConfigs st1" "set (s_Configs st1) \<subseteq> set (s_Configs st)"
  shows "lifeInv key (s_Redkeys_update (fmupd (NamespacedName cluster) y) st1)"
proof -
  note d = lifeInvD [OF inv c]
  from y c d(4) have ws: "withStatus cluster (rk_Status y) y" by (simp add: statusWritten_def)
  then have "NamespacedName y = key" using d(4) by (simp add: withStatus_def)
  then show ?thesis
    using okConfigs_subset [OF lifeStateD(3) [OF d(2)] st1(4)] st1 d(4)
    by (intro life_written [OF inv c ws]) (simp_all add: wfStore_fmupd wfConfigs_def)
qed

text \<open>A reconcile that fails part of the way has at most deleted configs or added one.\<close>

lemma life_kept:
  assumes inv: "lifeInv key st" and st': "wfStore st'" "s_Redkeys st' = s_Redkeys st" "wfConfigs st'"
    and sub: "set (s_Configs st') \<subseteq> set (s_Configs st)"
  shows "lifeInv key st'"
  using inv st' okConfigs_subset [OF _ sub] by (auto simp: lifeInv_def)

lemma life_deleted:
  assumes inv: "lifeInv key st" and del: "onlyDeleted st st'"
  shows "lifeInv key st'"
proof -
  obtain K where K: "s_Configs st' = s_Configs (dropConfigs K st)" using del by (auto simp: onlyDeleted_def)
  have "wfStore st" "wfConfigs st" using inv by (auto simp: lifeInv_def)
  with del K show ?thesis
    by (intro life_kept [OF inv]) (auto simp: onlyDeleted_def wfConfigs_def dropConfigs_def distinct_map_filter)
qed

lemma life_interrupted:
  assumes inv: "lifeInv key st" and c: "fmlookup (s_Redkeys st) key = Some cluster"
    and view: "configsView cluster st cs" and int: "interrupted cluster cs st st'"
  shows "lifeInv key st'"
proof -
  note d = lifeInvD [OF inv c]
  from int configsGrow_ok [OF d(2) view] c show ?thesis
    by (intro lifeInvI [OF d(2,3), where new = cluster]) (auto simp: interrupted_def sameTarget_def)
qed

text \<open>The config that asks for no primaries is for a generation of its own.\<close>

lemma zero_generation:
  assumes "lifeState st cluster" and "configsView cluster st cs" and "cs \<noteq> []"
    and "sp_Primaries (rk_Spec cluster) = 0" and "cs_Primaries (rc_Spec (last cs)) \<noteq> 0"
  shows "generationOf (last cs) < sint (Generation (rk_Meta cluster))"
  using view_ok [OF assms(1,2), of "last cs"] assms(3-5) by (auto simp: okConfig_def)

lemma life_requested:
  assumes inv: "lifeInv key st" and c: "fmlookup (s_Redkeys st) key = Some cluster"
    and view: "configsView cluster st cs" "cs \<noteq> []"
    and zero: "sp_Primaries (rk_Spec cluster) = 0" "cs_Primaries (rc_Spec (last cs)) \<noteq> 0"
    and st': "wfStore st'" "s_Redkeys st' = s_Redkeys st"
    and grow: "if configKey (buildConfig cluster (Some (last cs))) \<in> configKey ` set (s_Configs st)
       then s_Configs st' = s_Configs st
       else \<exists>y. isNewConfig cluster (Some (last cs)) y \<and> s_Configs st' = s_Configs st @ [y]"
  shows "lifeInv key st'"
proof -
  note d = lifeInvD [OF inv c]
  note less = zero_generation [OF d(2) view zero]
  have l: "latestOf cs = Some (last cs)" using view(2) by (simp add: latestOf_def)
  from view_next(3) [OF d(2) view(1) less] grow l obtain y where
    y: "isNewConfig cluster (latestOf cs) y" "s_Configs st' = s_Configs st @ [y]" by auto
  have "wfConfigs st'"
    using y view_next(3) [OF d(2) view(1) less] lifeStateD(1) [OF d(2)]
    by (auto simp: wfConfigs_def isNewConfig_def)
  moreover have "okConfigs cluster (set (s_Configs st'))"
    using grow_ok [OF d(2) view(1) less y(1)] y(2) by simp
  ultimately show ?thesis
    using st' c by (intro lifeInvI [OF d(2,3), where new = cluster]) (simp_all add: sameTarget_def)
qed

context status_writer
begin

lemma wp_life_zero:
  assumes inv: "lifeInv key (api w)" and c: "fmlookup (s_Redkeys (api w)) key = Some cluster"
    and zero: "sp_Primaries (rk_Spec cluster) = 0"
  shows "wp (reconcileScaleToZero r cluster) (\<lambda>_ w'. lifeInv key (api w')) (\<lambda>_ w'. outage \<and> lifeInv key (api w')) w"
proof -
  note d = lifeInvD [OF inv c]
  define cs where "cs = sortConfigs (clusterConfigs cluster (api w))"
  have view: "configsView cluster (api w) cs" unfolding cs_def by (rule configsView_sort)
  note dist = view_distinct [OF d(2) view]
  have cur: "current cluster (api w)" using c d(4) by (simp add: current_def)
  have cfg: "wfConfigs (api w)" using d(2) by (rule lifeStateD(1))
  have same: "lifeInv key st" if "wfStore st" "s_Redkeys st = s_Redkeys (api w)" "s_Configs st = s_Configs (api w)" for st
    by (rule life_kept [OF inv]) (use that cfg in \<open>simp_all add: wfConfigs_def\<close>)
  consider (idle) "cs = []" | (request) "cs \<noteq> []" "cs_Primaries (rc_Spec (last cs)) \<noteq> 0"
    | (teardown) "cs \<noteq> []" "cs_Primaries (rc_Spec (last cs)) = 0" "configPhase (last cs) = ConfigPhaseApplied"
    | (waiting) "cs \<noteq> []" "cs_Primaries (rc_Spec (last cs)) = 0" "configPhase (last cs) \<noteq> ConfigPhaseApplied"
    by blast
  then show ?thesis
  proof cases
    case idle
    then have "clusterConfigs cluster (api w) = []" by (simp add: cs_def)
    then show ?thesis
      by (rule wp_scaleToZero_idle [OF _ cur]) (simp_all add: life_scaled [OF inv c] d(1) cfg inv)
  next
    case request
    show ?thesis
      by (rule wp_scaleToZero_request [OF d(1,3) view dist request])
        (blast intro: life_requested [OF inv c view request(1) zero request(2)] same)+
  next
    case teardown
    have "wfStore (dropConfigs K (dropRBAC k (s_Deployments_update (fmdrop k) (api w))))"
      "wfConfigs (dropConfigs K (dropRBAC k (s_Deployments_update (fmdrop k) (api w))))"
      "set (s_Configs (dropConfigs K (dropRBAC k (s_Deployments_update (fmdrop k) (api w))))) \<subseteq> set (s_Configs (api w))"
      "s_Redkeys (dropConfigs K (dropRBAC k (s_Deployments_update (fmdrop k) (api w)))) = s_Redkeys (api w)" for K k
      using d(1) cfg by (auto simp: wfConfigs_def dropConfigs_def dropRBAC_def distinct_map_filter wfStore_def)
    then show ?thesis
      by (intro wp_scaleToZero_teardown [OF view dist teardown cur]) (simp_all add: life_scaled [OF inv c] life_deleted [OF inv])
  next
    case waiting
    then obtain a where a: "selectActiveConfig cs = Some a" using selectActiveConfig_None_iff by fastforce
    have l: "fmlookup (s_Redkeys (api w)) (NamespacedName cluster) = Some cluster" using c d(4) by simp
    show ?thesis
    proof (rule wp_scaleToZero_wait [OF d(1,3) view dist waiting l a])
      fix now y w'
      assume w': "wfStore (api w')" "s_Configs (api w') = s_Configs (api w)"
        "withStatus cluster (aggregatedStatus r now (Generation (rk_Meta cluster)) a cluster) y"
        "s_Redkeys (api w') = fmupd (NamespacedName cluster) y (s_Redkeys (api w))"
      show "lifeInv key (api w')"
        by (rule life_written [OF inv c w'(3)]) (use w' d cfg lifeStateD(3) [OF d(2)] in \<open>simp_all add: wfConfigs_def\<close>)
    qed (blast intro: same)
  qed
qed

lemma wp_life:
  assumes inv: "lifeInv key (api (world s))"
  shows "wp (Reconcile r key) (\<lambda>_ s'. lifeInv key (api (world s')))
    (\<lambda>_ s'. outage \<and> lifeInv key (api (world s'))) s"
proof -
  obtain cluster where c: "fmlookup (s_Redkeys (api (world s))) key = Some cluster" using inv by (rule lifeInvE)
  note d = lifeInvD [OF inv c]
  show ?thesis
  proof (cases "sp_Primaries (rk_Spec cluster) = 0")
    case True
    have zero: "wp (reconcileScaleToZero r cluster) (\<lambda>_ w'. lifeInv key (api w'))
        (\<lambda>_ w'. outage \<and> lifeInv key (api w')) w'"
      if "api w' = api (world s)" for w'
      by (rule wp_life_zero) (use that inv c True in simp_all)
    have "wp (getRedkey r key) (\<lambda>x w'. x = cluster \<and> api w' = api (world s)) 
        (\<lambda>e w'. \<not> IsNotFound e \<and> outage \<and> api w' = api (world s)) (world s)"
      by (rule wp_redkey_get) (use c in auto)
    then show ?thesis
      unfolding Reconcile_def wp_simps
      by (rule wp_mono) (auto simp: wp_simps True split_beta inv intro: wp_mono [OF zero])
  next
    case False
    have view: "configsView cluster (api (world s)) (sortConfigs (clusterConfigs cluster (api (world s))))"
      by (rule configsView_sort)
    show ?thesis
    proof (rule wp_Reconcile [OF d(1) c False d(3) view_log [OF d(2) view] view_canPublish [OF d(2) view]])
      fix cs' a now new and s' :: "'w rstate"
      assume rec: "reconciled r cluster cluster (sortConfigs (clusterConfigs cluster (api (world s)))) now a new
        (api (world s)) (api (world s')) cs'"
      show "lifeInv key (api (world s'))"
        by (rule life_written [OF inv c, where y = new])
          (use rec d(4) configsGrow_ok [OF d(2) view] in \<open>auto simp: reconciled_def configLog_def\<close>)
    qed (simp add: life_interrupted [OF inv c view])
  qed
qed

end

lemma okConfigs_edited:
  assumes "edited old spec new" and "okConfigs old C"
  shows "okConfigs new C"
proof -
  have n: "Namespace (rk_Meta new) = Namespace (rk_Meta old)" "Name (rk_Meta new) = Name (rk_Meta old)"
    "sint (Generation (rk_Meta new)) = sint (Generation (rk_Meta old)) + 1"
    using assms(1) by (simp_all add: edited_def NamespacedName_def)
  have "okConfig new c" if "okConfig old c" for c
    using that by (simp add: okConfig_def n)
  with assms(2) show ?thesis by (simp add: okConfigs_def clusterSelector_def n Let_def)
qed

lemma life_edit:
  assumes inv: "lifeInv key st" and old: "fmlookup (s_Redkeys st) key = Some old" and e: "edited old spec new"
  shows "lifeInv key (s_Redkeys_update (fmupd key new) st)"
proof -
  note d = lifeInvD [OF inv old]
  from e d(4) have "NamespacedName new = key" by (simp add: edited_def)
  with e d okConfigs_edited [OF e lifeStateD(3) [OF d(2)]] lifeStateD [OF d(2)] show ?thesis
    by (simp add: lifeInv_def wfStore_fmupd edited_def wfConfigs_def)
qed

lemma robinReport_same:
  assumes "robinReport c c'"
  shows "configMatches ns m c' = configMatches ns m c" "okConfig cluster c' = okConfig cluster c"
    "generationOf c' = generationOf c" "configSeq c' = configSeq c" "configKey c' = configKey c"
  using assms
  by (simp_all add: robinReport_def configMatches_def okConfig_def generationOf_def configGeneration_def metaKey_def)

lemma okConfigs_report:
  assumes "robinReport c c'" and ok: "okConfigs cluster (insert c C)"
  shows "okConfigs cluster (insert c' C)"
  using ok robinReport_same [OF assms(1)]
  unfolding okConfigs_def Let_def by (auto simp: Ball_def)

lemma life_report:
  assumes inv: "lifeInv key st" and c: "s_Configs st = pre @ c # post" and rep: "robinReport c c'"
  shows "lifeInv key (s_Configs_update (\<lambda>_. pre @ c' # post) st)"
proof -
  have "okConfigs cluster (set (s_Configs st)) \<Longrightarrow> okConfigs cluster (insert c' (set pre \<union> set post))" for cluster
    by (rule okConfigs_report [OF rep]) (simp add: c)
  with inv show ?thesis
    by (auto simp: lifeInv_def wfStore_def wfConfigs_def c robinReport_same(5) [OF rep])
qed

lemma life_step:
  assumes "status_writer r api outage" and "lifeStep r api key s s'" and inv: "lifeInv key (api (world s))"
  shows "lifeInv key (api (world s'))"
  using assms(2)
proof cases
  case (operate res)
  with status_writer.wp_life [OF assms(1) inv] show ?thesis by (cases res) (auto simp: wp_def)
qed (simp_all add: life_edit [OF inv] life_report [OF inv])

lemma life_reachable:
  assumes "status_writer r api outage" and "reachable r api key s s'" and "lifeInv key (api (world s))"
  shows "lifeInv key (api (world s'))"
  using assms(2,3) by (induction rule: reachable.induct) (auto intro: life_step [OF assms(1)])

subsection \<open>Properties of every reachable state\<close>

text \<open>A Redkey the operator has not seen yet, none of whose names is taken.\<close>

definition newRedkey :: "nsname \<Rightarrow> store \<Rightarrow> bool" where
  "newRedkey key st \<longleftrightarrow> wfStore st \<and> wfConfigs st \<and>
     (\<exists>cluster. fmlookup (s_Redkeys st) key = Some cluster \<and> noRevision (rk_Spec cluster) \<and>
        1 \<le> sint (Generation (rk_Meta cluster)) \<and>
        (\<forall>c \<in> set (s_Configs st). \<not> configMatches (Namespace (rk_Meta cluster)) (clusterSelector cluster) c \<and>
           (\<forall>i. configKey c \<noteq> (Namespace (rk_Meta cluster), sprintfNameNum (Name (rk_Meta cluster)) i))))"

lemma newRedkey_inv: "newRedkey key st \<Longrightarrow> lifeInv key st"
  by (auto simp: newRedkey_def lifeInv_def okConfigs_def Let_def)

text \<open>
  C3. From the creation of a Redkey on, whatever its users edit, whatever Robin reports, whenever
  the operator reconciles and wherever its requests fail, the configs of the cluster are numbered without repetition in the order
  of the generations they were made for, there is at most one of each generation, and one that was
  made for the current generation has the topology of the current spec.
\<close>

theorem lifecycle_ordered:
  assumes "status_writer r api outage" and "newRedkey key (api (world s0))" and "reachable r api key s0 s"
  shows "\<exists>cluster. fmlookup (s_Redkeys (api (world s))) key = Some cluster \<and>
    distinct (map configSeq (clusterConfigs cluster (api (world s)))) \<and>
    (\<forall>c \<in> set (clusterConfigs cluster (api (world s))). \<forall>d \<in> set (clusterConfigs cluster (api (world s))).
       seqOf c < seqOf d \<longleftrightarrow> generationOf c < generationOf d) \<and>
    (\<forall>c \<in> set (clusterConfigs cluster (api (world s))).
       generationOf c \<le> sint (Generation (rk_Meta cluster)) \<and>
       (generationOf c = sint (Generation (rk_Meta cluster)) \<longrightarrow>
          cs_Primaries (rc_Spec c) = sp_Primaries (rk_Spec cluster) \<and>
          cs_ReplicasPerPrimary (rc_Spec c) = sp_ReplicasPerPrimary (rk_Spec cluster)))"
proof -
  have inv: "lifeInv key (api (world s))"
    by (rule life_reachable [OF assms(1,3) newRedkey_inv [OF assms(2)]])
  obtain cluster where c: "fmlookup (s_Redkeys (api (world s))) key = Some cluster" using inv by (rule lifeInvE)
  note life = lifeInvD(2) [OF inv c]
  let ?C = "clusterConfigs cluster (api (world s))"
  have "distinct (map configSeq (sortConfigs ?C))" by (rule view_distinct [OF life configsView_sort])
  then have dist: "distinct (map configSeq ?C)"
    by (metis mset_eq_imp_distinct_iff mset_map mset_sortConfigs)
  have ord: "seqOf x < seqOf y \<Longrightarrow> generationOf x < generationOf y" if "x \<in> set ?C" "y \<in> set ?C" for x y
    using lifeStateD(3) [OF life] that by (auto simp: okConfigs_def Let_def clusterConfigs_def)
  have iff: "seqOf x < seqOf y \<longleftrightarrow> generationOf x < generationOf y" if "x \<in> set ?C" "y \<in> set ?C" for x y
  proof (cases "configSeq x = configSeq y")
    case True
    with dist that have "x = y" by (auto simp: distinct_map inj_on_def)
    then show ?thesis by simp
  next
    case False
    then have "seqOf x < seqOf y \<or> seqOf y < seqOf x" by (metis linorder_neqE sint_eq_iff)
    with ord that show ?thesis by (meson less_asym)
  qed
  have "okConfig cluster x" if "x \<in> set ?C" for x
    using lifeStateD(3) [OF life] that by (auto simp: okConfigs_def Let_def clusterConfigs_def)
  with c dist iff show ?thesis by (auto simp: okConfig_def)
qed


lemma sample_new: "newRedkey (''ns'', ''demo'') (m_Store (world firstState))"
  using first_state
  by (simp add: newRedkey_def wfConfigs_def) (simp add: freshState_def sampleRedkey_def)

text \<open>The state after the first reconcile of the sample.\<close>

lemma sample_reachable:
  "reachable memReconciler m_Store (''ns'', ''demo'') firstState (snd (Reconcile memReconciler (''ns'', ''demo'') firstState))"
  by (rule reachable.more [OF reachable.start lifeStep.operate [OF prod.collapse [symmetric]]])

theorem lifecycle_ordered_witness:
  "\<exists>cluster. fmlookup (s_Redkeys (m_Store (world (snd (Reconcile memReconciler (''ns'', ''demo'') firstState)))))
       (''ns'', ''demo'') = Some cluster \<and>
     distinct (map configSeq (clusterConfigs cluster
       (m_Store (world (snd (Reconcile memReconciler (''ns'', ''demo'') firstState))))))"
  using lifecycle_ordered [OF mem_writer.status_writer_axioms sample_new sample_reachable] by blast


subsection \<open>The topology on record\<close>

abbreviation specTopology :: "RedkeySpec \<Rightarrow> int32 \<times> int32" where
  "specTopology s \<equiv> (sp_Primaries s, sp_ReplicasPerPrimary s)"

abbreviation configTopology :: "RedkeyConfig \<Rightarrow> int32 \<times> int32" where
  "configTopology c \<equiv> (cs_Primaries (rc_Spec c), cs_ReplicasPerPrimary (rc_Spec c))"

text \<open>What the lock at the root demands of a storage cluster that scales up from zero.\<close>

lemma admits_locked:
  assumes "admits old spec" and "\<not> sp_Ephemeral (rk_Spec old)" and "sp_Primaries (rk_Spec old) = 0"
    and "st_LastAppliedPrimaries (rk_Status old) \<noteq> 0" and "sp_Primaries spec \<noteq> 0"
  shows "specTopology spec = recordedTopology (rk_Status old)"
  using assms by (auto simp: admits_def validChange_def topologyLock_def split: if_splits)

text \<open>The config a status is taken from is the first one or one in progress.\<close>

lemma selectActive_first:
  assumes "selectActiveConfig (c # cs) = Some a"
  shows "a = c \<or> configPhase a = ConfigPhaseInProgress"
  using assms by (cases cs) (auto simp: selectActiveConfig_def find_Some_iff split: if_splits option.splits)

lemma zero_records:
  assumes "selectActiveConfig (c # cs) = Some a"
    and "configPhase c = ConfigPhaseApplied \<Longrightarrow> configTopology c = recordedTopology (rk_Status old)"
  shows "recordedTopology (aggregatedStatus r now g a old) = recordedTopology (rk_Status old)"
  using selectActive_first [OF assms(1)] assms(2)
  unfolding recordedTopology_aggregated by (auto simp: recordsTopology_def phase_names)

text \<open>The stored Redkey keeps its spec and the topology on record.\<close>

definition recordKept :: "nsname \<Rightarrow> Redkey \<Rightarrow> store \<Rightarrow> bool" where
  "recordKept key cluster st \<longleftrightarrow> (\<exists>new. fmlookup (s_Redkeys st) key = Some new \<and>
     rk_Spec new = rk_Spec cluster \<and> recordedTopology (rk_Status new) = recordedTopology (rk_Status cluster))"

context status_writer
begin

lemma wp_zero_record:
  assumes inv: "lifeInv key (api w)" and c: "fmlookup (s_Redkeys (api w)) key = Some cluster"
    and view: "configsView cluster (api w) (c1 # cs)"
    and first: "configPhase c1 = ConfigPhaseApplied \<Longrightarrow> configTopology c1 = recordedTopology (rk_Status cluster)"
  shows "wp (reconcileScaleToZero r cluster) (\<lambda>_ w'. recordKept key cluster (api w')) (\<lambda>_ _. outage) w"
proof -
  note d = lifeInvD [OF inv c]
  note dist = view_distinct [OF d(2) view]
  have cur: "current cluster (api w)" using c d(4) by (simp add: current_def)
  have l: "fmlookup (s_Redkeys (api w)) (NamespacedName cluster) = Some cluster" using c d(4) by simp
  let ?last = "last (c1 # cs)"
  consider (request) "cs_Primaries (rc_Spec ?last) \<noteq> 0"
    | (teardown) "cs_Primaries (rc_Spec ?last) = 0" "configPhase ?last = ConfigPhaseApplied"
    | (waiting) "cs_Primaries (rc_Spec ?last) = 0" "configPhase ?last \<noteq> ConfigPhaseApplied"
    by blast
  then show ?thesis
  proof cases
    case request
    show ?thesis
      by (rule wp_scaleToZero_request [OF d(1,3) view dist _ request])
        (use c in \<open>simp_all add: recordKept_def\<close>)
  next
    case teardown
    have kept: "recordKept key cluster st" if "scaledToZero cluster y st" "statusWritten cluster (api w) y" for y st
      using that c d(4) by (auto simp: recordKept_def scaledToZero_def statusWritten_def withStatus_def)
    show ?thesis
      by (rule wp_scaleToZero_teardown [OF view dist _ teardown cur]) (simp_all add: kept)
  next
    case waiting
    obtain a where a: "selectActiveConfig (c1 # cs) = Some a" using selectActiveConfig_None_iff by fastforce
    have rec: "recordedTopology (aggregatedStatus r now g a cluster) = recordedTopology (rk_Status cluster)" for now g
      by (rule zero_records [OF a first])
    show ?thesis
      by (rule wp_scaleToZero_wait [OF d(1,3) view dist _ waiting l a])
        (use d(4) rec in \<open>auto simp: recordKept_def withStatus_def\<close>)
  qed
qed

end

text \<open>
  C32. The lock on scaling up from zero can hold a topology that is not the last one applied. While a
  storage cluster has no primaries, no reconcile looks at any applied config but the first: when that
  one is the topology on record, the record stays, whatever Robin has applied since, and admission
  then refuses every scale-up to another topology, the last applied one included.
\<close>

theorem topology_lock_stale:
  assumes "status_writer r api outage" and "lifeInv key (api w)"
    and "fmlookup (s_Redkeys (api w)) key = Some cluster" and "sp_Primaries (rk_Spec cluster) = 0"
    and "\<not> sp_Ephemeral (rk_Spec cluster)" and "st_LastAppliedPrimaries (rk_Status cluster) \<noteq> 0"
    and "configsView cluster (api w) (c1 # cs)" and "configTopology c1 = recordedTopology (rk_Status cluster)"
    and "specTopology spec \<noteq> recordedTopology (rk_Status cluster)" and "sp_Primaries spec \<noteq> 0"
  shows "wp (reconcileScaleToZero r cluster)
    (\<lambda>_ w'. \<exists>new. fmlookup (s_Redkeys (api w')) key = Some new \<and> \<not> admits new spec) (\<lambda>_ _. outage) w"
proof (rule wp_mono [OF status_writer.wp_zero_record [OF assms(1-3,7,8)]])
  fix x w' assume "recordKept key cluster (api w')"
  then obtain new where new: "fmlookup (s_Redkeys (api w')) key = Some new" "rk_Spec new = rk_Spec cluster"
    "recordedTopology (rk_Status new) = recordedTopology (rk_Status cluster)" by (auto simp: recordKept_def)
  then have "\<not> admits new spec" using admits_locked [of new spec] assms(4-6,9,10) by auto
  with new(1) show "\<exists>new. fmlookup (s_Redkeys (api w')) key = Some new \<and> \<not> admits new spec" by blast
qed simp

text \<open>
  A cluster that ran with three primaries, was scaled to five, which Robin has applied, and then to
  zero before the operator saw that.
\<close>

definition lockedRedkey :: Redkey where
  "lockedRedkey = sampleRedkey\<lparr>rk_Meta := (rk_Meta sampleRedkey)\<lparr>Generation := 3\<rparr>,
     rk_Spec := sampleSpec\<lparr>sp_Primaries := 0\<rparr>, rk_Status := zeroStatus\<lparr>st_LastAppliedPrimaries := 3\<rparr>\<rparr>"

definition fivePrimaries :: RedkeyConfig where
  "fivePrimaries = sampleConfig 2 ConfigPhaseApplied ClusterStatusReady
     \<lparr>rc_Spec := (rc_Spec (sampleConfig 2 ConfigPhaseApplied ClusterStatusReady))\<lparr>cs_Primaries := 5\<rparr>\<rparr>"

abbreviation lockedConfigs :: "RedkeyConfig list" where
  "lockedConfigs \<equiv> [sampleConfig 1 ConfigPhaseApplied ClusterStatusReady, fivePrimaries]"

lemma lockedRedkey_sel [simp]:
  "NamespacedName lockedRedkey = (''ns'', ''demo'')" "Namespace (rk_Meta lockedRedkey) = ''ns''"
  "Name (rk_Meta lockedRedkey) = ''demo''" "rk_Spec lockedRedkey = sampleSpec\<lparr>sp_Primaries := 0\<rparr>"
  "st_LastAppliedPrimaries (rk_Status lockedRedkey) = 3" "st_LastAppliedReplicasPerPrimary (rk_Status lockedRedkey) = 0"
  "Generation (rk_Meta lockedRedkey) = 3"
  by (simp_all add: lockedRedkey_def sampleRedkey_def NamespacedName_def zeroStatus_def)

lemma locked_matches:
  "c \<in> set lockedConfigs \<Longrightarrow> configMatches ''ns'' (clusterSelector lockedRedkey) c"
  by (auto simp: configMatches_def clusterSelector_def fivePrimaries_def sampleConfig_def fmpred_iff
      ClusterLabel_def fmlookup_of_list)

lemma locked_configs:
  "configSeq (sampleConfig n ph x) = n" "configSeq fivePrimaries = 2"
  "generationOf (sampleConfig n ph x) = sint n" "generationOf fivePrimaries = 2"
  "ParseInt (configGeneration (sampleConfig n ph x)) = Some n" "ParseInt (configGeneration fivePrimaries) = Some 2"
  "configKey (sampleConfig n ph x) = (''ns'', sprintfNameNum ''demo'' n)"
  "configKey fivePrimaries = (''ns'', sprintfNameNum ''demo'' 2)"
  by (simp_all add: fivePrimaries_def sampleConfig_def configGeneration_def generationOf_def
      generationAnnotation_def metaKey_def fmlookup_of_list)

lemma locked_inv: "lifeInv (''ns'', ''demo'') (m_Store (memWith [lockedRedkey] lockedConfigs))"
proof -
  have "okConfig lockedRedkey c" if "c \<in> set lockedConfigs" for c
    using that by (auto simp: okConfig_def locked_configs)
  moreover have "seqOf c < seqOf d \<longrightarrow> generationOf c < generationOf d"
    if "c \<in> set lockedConfigs" "d \<in> set lockedConfigs" for c d
    using that by (auto simp: locked_configs)
  ultimately have "okConfigs lockedRedkey (set lockedConfigs)"
    using locked_matches unfolding okConfigs_def Let_def lockedRedkey_sel by blast
  moreover have "wfConfigs (m_Store (memWith [lockedRedkey] lockedConfigs))"
    by (simp add: wfConfigs_def locked_configs)
  ultimately show ?thesis
    by (simp add: lifeInv_def fmlookup_of_list sampleSpec_def del: set_simps)
qed

theorem topology_lock_stale_witness:
  "wp (reconcileScaleToZero memReconciler lockedRedkey)
    (\<lambda>_ w'. \<exists>new. fmlookup (s_Redkeys (m_Store w')) (''ns'', ''demo'') = Some new \<and>
       \<not> admits new (sampleSpec\<lparr>sp_Primaries := 5\<rparr>)) (\<lambda>_ _. False)
    (memWith [lockedRedkey] lockedConfigs)"
proof (rule topology_lock_stale [OF mem_writer.status_writer_axioms locked_inv])
  show "configsView lockedRedkey (m_Store (memWith [lockedRedkey] lockedConfigs)) lockedConfigs"
    using locked_matches by (simp add: configsView_def clusterConfigs_def locked_configs)
qed (simp_all add: fmlookup_of_list sampleSpec_def sampleConfig_def)

end
