(* ===== verification/Scale_Down.thy ===== *)
theory Scale_Down imports Lifecycle begin

section \<open>Scaling down comes to an end\<close>

text \<open>
  Scaling to zero is a protocol of several reconciles with Robin's work in between: the operator asks for no
  primaries, Robin removes what it manages and marks the config as applied, and the operator removes what is
  left. Here the two take turns, and a measure shows that the protocol ends and how soon.
\<close>

subsection \<open>What is left to do\<close>

abbreviation sortedConfigs :: "Redkey \<Rightarrow> store \<Rightarrow> RedkeyConfig list" where
  "sortedConfigs cluster st \<equiv> sortConfigs (clusterConfigs cluster st)"

definition configWork :: "RedkeyConfig list \<Rightarrow> nat" where
  "configWork cs =
     (if cs = [] then 0 else if cs_Primaries (rc_Spec (last cs)) \<noteq> 0 then 3
      else if configPhase (last cs) \<noteq> ConfigPhaseApplied then 2 else 1)"

text \<open>The stored Redkey is still the one with this key and spec, and has no primaries.\<close>

definition downTo :: "nsname \<Rightarrow> Redkey \<Rightarrow> store \<Rightarrow> bool" where
  "downTo key cluster st \<longleftrightarrow> lifeInv key st \<and> sp_Primaries (rk_Spec cluster) = 0 \<and>
     (\<exists>new. fmlookup (s_Redkeys st) key = Some new \<and> sameTarget new cluster)"

definition tornDown :: "Redkey \<Rightarrow> store \<Rightarrow> bool" where
  "tornDown cluster st \<longleftrightarrow> clusterConfigs cluster st = [] \<and>
     fmlookup (s_Deployments st) (robinKey cluster) = None \<and> fmlookup (s_ServiceAccounts st) (robinKey cluster) = None \<and>
     fmlookup (s_Roles st) (robinKey cluster) = None \<and> fmlookup (s_RoleBindings st) (robinKey cluster) = None"

lemma sameTarget_configs:
  assumes "sameTarget a b"
  shows "clusterConfigs a st = clusterConfigs b st" "robinKey a = robinKey b"
  by (simp_all add: clusterConfigs_def clusterSelector_def robinName_def sameTarget_names [OF assms])

lemma tornDown_sameTarget: "sameTarget a b \<Longrightarrow> tornDown a st = tornDown b st"
  using sameTarget_configs [of a b] by (simp add: tornDown_def)

lemma configWork_done: "configWork (sortConfigs cs) = 0 \<longleftrightarrow> cs = []"
  by (simp add: configWork_def)

lemma sortedConfigs_view: "configsView cluster st cs \<Longrightarrow> distinct (map configSeq cs) \<Longrightarrow> sortedConfigs cluster st = cs"
  by (rule configsView_unique [OF _ configsView_sort])

subsection \<open>One reconcile\<close>

text \<open>What a reconcile does to the work that is left.\<close>

definition zeroStep :: "nsname \<Rightarrow> Redkey \<Rightarrow> store \<Rightarrow> store \<Rightarrow> bool" where
  "zeroStep key cluster st st' \<longleftrightarrow>
     (\<exists>new. fmlookup (s_Redkeys st') key = Some new \<and> sameTarget new cluster) \<and>
     (case configWork (sortedConfigs cluster st) of
        0 \<Rightarrow> clusterConfigs cluster st' = [] \<and> (tornDown cluster st \<longrightarrow> tornDown cluster st')
      | Suc 0 \<Rightarrow> tornDown cluster st'
      | _ \<Rightarrow> configWork (sortedConfigs cluster st') \<in> {1, 2})"

lemma requested_work:
  assumes life: "lifeState st cluster" and cs: "cs = sortedConfigs cluster st" "cs \<noteq> []"
    and zero: "sp_Primaries (rk_Spec cluster) = 0" "cs_Primaries (rc_Spec (last cs)) \<noteq> 0"
    and grow: "if configKey (buildConfig cluster (Some (last cs))) \<in> configKey ` set (s_Configs st)
       then s_Configs st' = s_Configs st
       else \<exists>y. isNewConfig cluster (Some (last cs)) y \<and> s_Configs st' = s_Configs st @ [y]"
  shows "configWork (sortedConfigs cluster st') \<in> {1, 2}"
proof -
  have view: "configsView cluster st cs" unfolding cs by (rule configsView_sort)
  note less = zero_generation [OF life view cs(2) zero]
  have l: "latestOf cs = Some (last cs)" using cs(2) by (simp add: latestOf_def)
  note nxt = view_next [OF life view less, unfolded l]
  from grow nxt(3) obtain y where y: "isNewConfig cluster (Some (last cs)) y" "s_Configs st' = s_Configs st @ [y]" by auto
  have "configLog cluster (s_Configs_update (\<lambda>cs. cs @ [y]) st) (cs @ [y])"
    by (rule configLog_append [OF view_log [OF life view]]) (use y nxt l in auto)
  then have "configsView cluster st' (cs @ [y])" "distinct (map configSeq (cs @ [y]))"
    using y(2) by (simp_all add: configLog_def configsView_def clusterConfigs_def)
  from sortedConfigs_view [OF this] isNewConfig_generation(5) [OF y(1)] zero(1) show ?thesis
    by (simp add: configWork_def)
qed

context status_writer
begin

lemma wp_zero_step:
  assumes inv: "lifeInv key (api w)" and c: "fmlookup (s_Redkeys (api w)) key = Some cluster"
    and zero: "sp_Primaries (rk_Spec cluster) = 0"
  shows "wp (reconcileScaleToZero r cluster) (\<lambda>_ w'. zeroStep key cluster (api w) (api w')) (\<lambda>_ _. outage) w"
proof -
  note d = lifeInvD [OF inv c]
  define cs where "cs = sortedConfigs cluster (api w)"
  have view: "configsView cluster (api w) cs" unfolding cs_def by (rule configsView_sort)
  note dist = view_distinct [OF d(2) view]
  have cur: "current cluster (api w)" using c d(4) by (simp add: current_def)
  have l: "fmlookup (s_Redkeys (api w)) (NamespacedName cluster) = Some cluster" using c d(4) by simp
  have target: "sameTarget y cluster" if "statusWritten cluster (api w) y" for y
    using that withStatus_sameTarget l by (auto simp: statusWritten_def)
  consider (idle) "cs = []" | (request) "cs \<noteq> []" "cs_Primaries (rc_Spec (last cs)) \<noteq> 0"
    | (teardown) "cs \<noteq> []" "cs_Primaries (rc_Spec (last cs)) = 0" "configPhase (last cs) = ConfigPhaseApplied"
    | (waiting) "cs \<noteq> []" "cs_Primaries (rc_Spec (last cs)) = 0" "configPhase (last cs) \<noteq> ConfigPhaseApplied"
    by blast
  then show ?thesis
  proof cases
    case idle
    then have none: "clusterConfigs cluster (api w) = []" "configWork (sortedConfigs cluster (api w)) = 0"
      by (simp_all add: cs_def configWork_def)
    show ?thesis
      by (rule wp_scaleToZero_idle [OF none(1) cur])
        (use none target d(4) in \<open>auto simp: zeroStep_def clusterConfigs_def tornDown_def\<close>)
  next
    case request
    then have work: "configWork (sortedConfigs cluster (api w)) = 3" by (simp add: cs_def configWork_def)
    show ?thesis
    proof (rule wp_scaleToZero_request [OF d(1,3) view dist request], goal_cases)
      case (1 w')
      from requested_work [OF d(2) cs_def request(1) zero request(2) 1(5)] 1(4) c work show ?case
        by (simp add: zeroStep_def sameTarget_def numeral_3_eq_3)
    qed
  next
    case teardown
    then have work: "configWork (sortedConfigs cluster (api w)) = 1" by (simp add: cs_def configWork_def)
    show ?thesis
    proof (rule wp_scaleToZero_teardown [OF view dist teardown cur], goal_cases)
      case (1 y w')
      have "clusterConfigs cluster (api w') = []"
        unfolding 1(3) by (auto simp: clusterConfigs_def dropConfigs_def dropRBAC_def filter_empty_conv)
      then have "tornDown cluster (api w')"
        unfolding tornDown_def 1(3) by (simp add: dropConfigs_def dropRBAC_def)
      with target [OF 1(2)] 1(1) d(4) work show ?case by (auto simp: zeroStep_def scaledToZero_def)
    qed
  next
    case waiting
    then have work: "configWork (sortedConfigs cluster (api w)) = 2" by (simp add: cs_def configWork_def)
    obtain a where a: "selectActiveConfig cs = Some a" using waiting(1) selectActiveConfig_None_iff by fastforce
    show ?thesis
    proof (rule wp_scaleToZero_wait [OF d(1,3) view dist waiting l a], goal_cases)
      case (1 now y w')
      have "clusterConfigs cluster (api w') = clusterConfigs cluster (api w)" using 1(4) by (simp add: clusterConfigs_def)
      with work withStatus_sameTarget [OF 1(5)] 1(6) d(4) show ?case by (auto simp: zeroStep_def numeral_2_eq_2)
    qed
  qed
qed

lemma wp_zero_reconcile:
  assumes "downTo key cluster (api (world s))"
  shows "wp (Reconcile r key) (\<lambda>_ s'. lifeInv key (api (world s')) \<and> zeroStep key cluster (api (world s)) (api (world s')))
    (\<lambda>_ _. outage) s"
proof -
  obtain new where inv: "lifeInv key (api (world s))" and c: "fmlookup (s_Redkeys (api (world s))) key = Some new"
    and t: "sameTarget new cluster" and zero: "sp_Primaries (rk_Spec new) = 0"
    using assms sameTarget_names(3) by (fastforce simp: downTo_def)
  have step: "zeroStep key cluster st st'" if "zeroStep key new st st'" for st st'
    using that t sameTarget_configs [OF t] tornDown_sameTarget [OF t]
    by (auto simp: zeroStep_def sameTarget_def split: nat.splits)
  have body: "wp (reconcileScaleToZero r new)
      (\<lambda>_ w'. lifeInv key (api w') \<and> zeroStep key cluster (api (world s)) (api w')) (\<lambda>_ _. outage) w"
    if "api w = api (world s)" for w
    using wp_life_zero [of key w new] wp_zero_step [of key w new] that inv c zero step
    by (auto simp: wp_def split: prod.splits sum.splits)
  have "wp (getRedkey r key) (\<lambda>x w'. x = new \<and> api w' = api (world s)) (\<lambda>e w'. \<not> IsNotFound e \<and> outage) (world s)"
    by (rule wp_redkey_get) (use c in auto)
  then show ?thesis
    unfolding Reconcile_def wp_simps
    by (rule wp_mono) (auto simp: wp_simps zero split_beta intro: wp_mono [OF body])
qed

end

subsection \<open>Robin's turn\<close>

text \<open>
  Robin reports on the configs it likes, and has applied the latest config of the cluster by the end of its
  turn.
\<close>

definition robinAnswers :: "('w \<Rightarrow> store) \<Rightarrow> nsname \<Rightarrow> ('w \<Rightarrow> 'w) \<Rightarrow> bool" where
  "robinAnswers api key robin \<longleftrightarrow>
     (\<forall>w cluster. fmlookup (s_Redkeys (api w)) key = Some cluster \<longrightarrow>
        (\<exists>f. (\<forall>c. robinReport c (f c)) \<and> api (robin w) = s_Configs_update (map f) (api w) \<and>
           (sortedConfigs cluster (api w) \<noteq> [] \<longrightarrow>
              configPhase (f (last (sortedConfigs cluster (api w)))) = ConfigPhaseApplied)))"

lemma okConfigs_reports:
  assumes "\<forall>c. robinReport c (f c)" and "okConfigs cluster C"
  shows "okConfigs cluster (f ` C)"
proof -
  note same = robinReport_same [OF assms(1) [rule_format]]
  show ?thesis using assms(2) unfolding okConfigs_def Let_def by (auto simp: same)
qed

lemma life_reports:
  assumes "\<forall>c. robinReport c (f c)" and inv: "lifeInv key st"
  shows "lifeInv key (s_Configs_update (map f) st)"
proof -
  have "(\<lambda>c. configKey (f c)) = configKey" using robinReport_same(5) [OF assms(1) [rule_format]] by (rule ext)
  with inv okConfigs_reports [OF assms(1)] show ?thesis
    by (auto simp: lifeInv_def wfStore_def wfConfigs_def o_def)
qed

lemma sort_key_map: "sort_key k (map f xs) = map f (sort_key (\<lambda>x. k (f x)) xs)"
proof (induction xs)
  case (Cons x xs)
  have "insort_key k (f x) (map f ys) = map f (insort_key (\<lambda>x. k (f x)) x ys)" for ys
    by (induction ys) auto
  with Cons show ?case by simp
qed simp

lemma sortedConfigs_reports:
  assumes "\<forall>c. robinReport c (f c)"
  shows "sortedConfigs cluster (s_Configs_update (map f) st) = map f (sortedConfigs cluster st)"
  using robinReport_same [OF assms [rule_format]]
  by (simp add: clusterConfigs_def sortConfigs_def filter_map o_def sort_key_map)

lemma robin_turn:
  assumes robin: "robinAnswers api key robin" and down: "downTo key cluster (api w)"
  shows "downTo key cluster (api (robin w))"
    and "configWork (sortedConfigs cluster (api w)) \<in> {1, 2} \<Longrightarrow> configWork (sortedConfigs cluster (api (robin w))) = 1"
    and "clusterConfigs cluster (api w) = [] \<Longrightarrow> clusterConfigs cluster (api (robin w)) = []"
    and "tornDown cluster (api w) \<Longrightarrow> tornDown cluster (api (robin w))"
proof -
  obtain new where c: "fmlookup (s_Redkeys (api w)) key = Some new" and t: "sameTarget new cluster"
    using down by (auto simp: downTo_def)
  note same = sameTarget_configs [OF t]
  from robin c same obtain f where f: "\<forall>c. robinReport c (f c)" "api (robin w) = s_Configs_update (map f) (api w)"
    "sortedConfigs cluster (api w) \<noteq> [] \<Longrightarrow> configPhase (f (last (sortedConfigs cluster (api w)))) = ConfigPhaseApplied"
    unfolding robinAnswers_def by metis
  note sorted = sortedConfigs_reports [OF f(1), of cluster "api w"]
  show "downTo key cluster (api (robin w))"
    using down life_reports [OF f(1)] by (simp add: downTo_def f(2))
  have "rc_Spec (f x) = rc_Spec x" for x using f(1) by (simp add: robinReport_def)
  then show "configWork (sortedConfigs cluster (api w)) \<in> {1, 2} \<Longrightarrow> configWork (sortedConfigs cluster (api (robin w))) = 1"
    using f(3) by (auto simp: configWork_def f(2) sorted last_map split: if_splits)
  show none: "clusterConfigs cluster (api w) = [] \<Longrightarrow> clusterConfigs cluster (api (robin w)) = []"
    using robinReport_same(1) [OF f(1) [rule_format]] by (simp add: f(2) clusterConfigs_def filter_map o_def)
  show "tornDown cluster (api w) \<Longrightarrow> tornDown cluster (api (robin w))"
    using none by (simp add: tornDown_def f(2))
qed

subsection \<open>Taking turns\<close>

primrec scaleDown ::
  "('w, 'z) RedkeyReconciler_scheme \<Rightarrow> ('w \<Rightarrow> 'w) \<Rightarrow> nsname \<Rightarrow> nat \<Rightarrow> ('w rstate, unit) io" where
  "scaleDown r robin key 0 = returnE ()"
| "scaleDown r robin key (Suc n) =
     bindE (Reconcile r key) (\<lambda>_. bindE (modifyE (onWorld robin)) (\<lambda>_. scaleDown r robin key n))"

text \<open>A turn of each leaves less to do, or nothing.\<close>

definition roundDone :: "Redkey \<Rightarrow> store \<Rightarrow> store \<Rightarrow> bool" where
  "roundDone cluster st st' \<longleftrightarrow>
     (case configWork (sortedConfigs cluster st) of
        0 \<Rightarrow> clusterConfigs cluster st' = [] \<and> (tornDown cluster st \<longrightarrow> tornDown cluster st')
      | Suc 0 \<Rightarrow> tornDown cluster st'
      | _ \<Rightarrow> configWork (sortedConfigs cluster st') = 1)"

lemma wp_round:
  assumes "status_writer r api outage" and "robinAnswers api key robin" and "downTo key cluster (api (world s))"
    and step: "\<And>s'. downTo key cluster (api (world s')) \<Longrightarrow> roundDone cluster (api (world s)) (api (world s')) \<Longrightarrow> wp m Q E s'"
    and err: "\<And>e s'. outage \<Longrightarrow> E e s'"
  shows "wp (bindE (Reconcile r key) (\<lambda>_. bindE (modifyE (onWorld robin)) (\<lambda>_. m))) Q E s"
  unfolding wp_bindE
proof (rule wp_mono [OF status_writer.wp_zero_reconcile [OF assms(1,3)]], goal_cases)
  case (1 x s1)
  then have down: "downTo key cluster (api (world s1))"
    using assms(3) by (auto simp: downTo_def zeroStep_def)
  note turn = robin_turn [OF assms(2) down]
  have "wp m Q E (onWorld robin s1)"
    using 1 turn by (intro step) (auto simp: onWorld_def zeroStep_def roundDone_def split: nat.splits)
  then show ?case by (simp add: wp_simps)
qed (rule err)

lemma wp_rounds_done:
  assumes w: "status_writer r api outage" and robin: "robinAnswers api key robin"
  shows "downTo key cluster (api (world s)) \<Longrightarrow> clusterConfigs cluster (api (world s)) = [] \<Longrightarrow>
    wp (scaleDown r robin key n) (\<lambda>_ s'. clusterConfigs cluster (api (world s')) = [] \<and>
      (tornDown cluster (api (world s)) \<longrightarrow> tornDown cluster (api (world s')))) (\<lambda>_ _. outage) s"
proof (induction n arbitrary: s)
  case (Suc n)
  show ?case
    unfolding scaleDown.simps
  proof (rule wp_round [OF w robin Suc.prems(1)], goal_cases)
    case (1 s')
    have "configWork (sortedConfigs cluster (api (world s))) = 0" using Suc.prems(2) by (simp add: configWork_done)
    with 1(2) have "clusterConfigs cluster (api (world s')) = []"
      "tornDown cluster (api (world s)) \<longrightarrow> tornDown cluster (api (world s'))" by (simp_all add: roundDone_def)
    with Suc.IH [OF 1(1)] show ?case by (auto elim: wp_mono)
  qed
qed (simp add: wp_simps)

lemma wp_rounds_torn:
  assumes w: "status_writer r api outage" and robin: "robinAnswers api key robin"
    and down: "downTo key cluster (api (world s))" and work: "configWork (sortedConfigs cluster (api (world s))) = 1"
  shows "wp (scaleDown r robin key (Suc n)) (\<lambda>_ s'. tornDown cluster (api (world s'))) (\<lambda>_ _. outage) s"
  unfolding scaleDown.simps
proof (rule wp_round [OF w robin down], goal_cases)
  case (1 s')
  with work have torn: "tornDown cluster (api (world s'))" by (simp add: roundDone_def)
  then have none: "clusterConfigs cluster (api (world s')) = []" by (simp add: tornDown_def)
  from wp_rounds_done [OF w robin 1(1) none, of n] torn show ?case by (auto elim: wp_mono)
qed


text \<open>
  The cluster of the topology lock, with one applied config of three primaries and one of five, and a Robin
  that applies everything it sees.
\<close>

definition applyConfig :: "RedkeyConfig \<Rightarrow> RedkeyConfig" where
  "applyConfig c = c\<lparr>rc_Status := (rc_Status c)\<lparr>cst_ConfigPhase := ConfigPhaseApplied\<rparr>\<rparr>"

definition memRobin :: "mem \<Rightarrow> mem" where
  "memRobin w = w\<lparr>m_Store := s_Configs_update (map applyConfig) (m_Store w)\<rparr>"

lemma memRobin_answers: "robinAnswers m_Store key memRobin"
  by (auto simp: robinAnswers_def memRobin_def applyConfig_def robinReport_def intro!: exI [of _ applyConfig])

abbreviation lockedState :: "mem rstate" where
  "lockedState \<equiv> freshState (memWith [lockedRedkey] lockedConfigs)"


end
