(* ===== verification/Stale_Views.thy ===== *)
theory Stale_Views
  imports Lifecycle
begin

section \<open>Views of the stored objects that lag behind\<close>

text \<open>
  The operator reads through the caches of its informers, which follow the API server with a delay. Here a Redkey
  and its configs are lists of versions: the first one is what the cache holds, the last one what the API server
  stores. The theory is about how these lists change and what keeps the configs in order; no request is made.
\<close>

subsection \<open>Versions\<close>

record views =
  redkeyViews :: "Redkey list"
  configViews :: "RedkeyConfig list list"

text \<open>
  What happens without the operator: the caches catch up, each for itself, a user edits the spec of a Redkey that
  keeps its primaries, and Robin reports on a config. A status the operator writes is a new version too.
\<close>

inductive drift :: "views \<Rightarrow> views \<Rightarrow> bool" where
  catchUp: "i < length (redkeyViews v) \<Longrightarrow> j < length (configViews v) \<Longrightarrow>
    drift v \<lparr>redkeyViews = drop i (redkeyViews v), configViews = drop j (configViews v)\<rparr>"
| edit: "edited (last (redkeyViews v)) spec new \<Longrightarrow> sp_Primaries spec \<noteq> 0 \<Longrightarrow>
    drift v (v\<lparr>redkeyViews := redkeyViews v @ [new]\<rparr>)"
| status: "withStatus (last (redkeyViews v)) st new \<Longrightarrow> drift v (v\<lparr>redkeyViews := redkeyViews v @ [new]\<rparr>)"
| report: "last (configViews v) = pre @ c # post \<Longrightarrow> robinReport c c' \<Longrightarrow>
    drift v (v\<lparr>configViews := configViews v @ [pre @ c' # post]\<rparr>)"

inductive_cases driftE: "drift v v'"

text \<open>What the operator writes: a config more, or one less.\<close>

abbreviation liveConfigs :: "views \<Rightarrow> RedkeyConfig list" where
  "liveConfigs v \<equiv> last (configViews v)"

definition withConfigs :: "RedkeyConfig list \<Rightarrow> views \<Rightarrow> views" where
  "withConfigs cs v = v\<lparr>configViews := configViews v @ [cs]\<rparr>"

lemma withConfigs_sel [simp]:
  "redkeyViews (withConfigs cs v) = redkeyViews v" "configViews (withConfigs cs v) = configViews v @ [cs]"
  by (simp_all add: withConfigs_def)

subsection \<open>The order of the configs\<close>

abbreviation genOf :: "Redkey \<Rightarrow> int" where
  "genOf x \<equiv> sint (Generation (rk_Meta x))"

abbreviation everConfigs :: "views \<Rightarrow> RedkeyConfig set" where
  "everConfigs v \<equiv> set (concat (configViews v))"

definition topSeq :: "RedkeyConfig list \<Rightarrow> int" where
  "topSeq cs = Max (insert 0 (seqOf ` set cs))"

definition namedConfig :: "nsname \<Rightarrow> RedkeyConfig \<Rightarrow> bool" where
  "namedConfig key c \<longleftrightarrow> configKey c = (fst key, sprintfNameNum (snd key) (configSeq c)) \<and>
     ParseInt (configGeneration c) \<noteq> None \<and> 1 \<le> seqOf c \<and> seqOf c \<le> generationOf c"

text \<open>
  The Redkey: generations do not decrease along its versions, and a generation has one spec.
\<close>

definition redkeysOk :: "nsname \<Rightarrow> Redkey list \<Rightarrow> bool" where
  "redkeysOk key xs \<longleftrightarrow> xs \<noteq> [] \<and> sorted (map genOf xs) \<and>
     (\<forall>x \<in> set xs. NamespacedName x = key \<and> 1 \<le> genOf x \<and> sp_Primaries (rk_Spec x) \<noteq> 0) \<and>
     (\<forall>x \<in> set xs. \<forall>y \<in> set xs. genOf x = genOf y \<longrightarrow> rk_Spec x = rk_Spec y)"

text \<open>
  The configs: in all versions together they are numbered in the order of their generations, in each version
  without repetition. The highest number does not decrease along the versions, and where it is behind the
  stored one, the next number is taken.
\<close>

definition nextTaken :: "RedkeyConfig list \<Rightarrow> RedkeyConfig list \<Rightarrow> bool" where
  "nextTaken cs live \<longleftrightarrow> (topSeq cs < topSeq live \<longrightarrow> topSeq cs + 1 \<in> seqOf ` set live)"

definition inOrder :: "RedkeyConfig set \<Rightarrow> bool" where
  "inOrder C \<longleftrightarrow> (\<forall>c \<in> C. \<forall>d \<in> C. (seqOf c < seqOf d \<longrightarrow> generationOf c < generationOf d) \<and>
     (seqOf c = seqOf d \<longrightarrow> generationOf c = generationOf d))"

definition configsOk :: "nsname \<Rightarrow> RedkeyConfig list list \<Rightarrow> bool" where
  "configsOk key css \<longleftrightarrow> css \<noteq> [] \<and> sorted (map topSeq css) \<and>
     (\<forall>cs \<in> set css. distinct (map configSeq cs) \<and> nextTaken cs (last css)) \<and>
     (\<forall>c \<in> set (concat css). namedConfig key c) \<and> inOrder (set (concat css))"

text \<open>
  Both: no config is for a generation that the cache has not shown yet, and a config has the topology of its
  generation.
\<close>

definition inStep :: "nsname \<Rightarrow> Redkey list \<Rightarrow> RedkeyConfig list list \<Rightarrow> bool" where
  "inStep key xs css \<longleftrightarrow> redkeysOk key xs \<and> configsOk key css \<and>
     (\<forall>c \<in> set (concat css). generationOf c \<le> genOf (hd xs) \<and>
        (\<forall>x \<in> set xs. generationOf c = genOf x \<longrightarrow> configTopology c = specTopology (rk_Spec x)))"

text \<open>
  The operator acts on what it has read: a Redkey and a list of configs that may since have left the caches. They
  are older versions, before those of the caches.
\<close>

definition numbered :: "nsname \<Rightarrow> Redkey list \<Rightarrow> RedkeyConfig list list \<Rightarrow> views \<Rightarrow> bool" where
  "numbered key xs css v \<longleftrightarrow> redkeyViews v \<noteq> [] \<and> configViews v \<noteq> [] \<and>
     inStep key (xs @ redkeyViews v) (css @ configViews v)"

subsection \<open>Highest numbers\<close>

lemma topSeq_ge: "c \<in> set cs \<Longrightarrow> seqOf c \<le> topSeq cs"
  by (simp add: topSeq_def)

lemma topSeq_nonneg: "0 \<le> topSeq cs"
  by (simp add: topSeq_def)

lemma topSeq_eqI:
  assumes "seqOf ` set cs = seqOf ` set ds"
  shows "topSeq cs = topSeq ds"
  by (simp add: topSeq_def assms)

lemma topSeq_attained:
  assumes "0 < topSeq cs"
  obtains c where "c \<in> set cs" and "seqOf c = topSeq cs"
proof -
  have "topSeq cs \<in> insert 0 (seqOf ` set cs)" unfolding topSeq_def by (rule Max_in) simp_all
  with assms that show ?thesis by auto
qed

lemma topSeq_append: "topSeq (cs @ [y]) = max (topSeq cs) (seqOf y)"
  by (simp add: topSeq_def insert_commute [of 0] max.commute)

lemma topSeq_last:
  assumes "sorted (map seqOf cs)" and "cs \<noteq> []" and "\<forall>c \<in> set cs. 1 \<le> seqOf c"
  shows "topSeq cs = seqOf (last cs)"
proof -
  obtain ys y where ys: "cs = ys @ [y]" using assms(2) by (cases cs rule: rev_cases) auto
  with assms have "seqOf c \<le> seqOf y" if "c \<in> set cs" for c using that by (auto simp: sorted_append)
  with ys assms(3) show ?thesis unfolding topSeq_def by (intro Max_eqI) auto
qed

lemma topSeq_filter:
  assumes "c \<in> set cs" and "seqOf c = topSeq cs" and "P c"
  shows "topSeq (filter P cs) = topSeq cs"
proof (rule antisym)
  show "topSeq (filter P cs) \<le> topSeq cs" unfolding topSeq_def by (rule Max_mono) auto
  show "topSeq cs \<le> topSeq (filter P cs)" using assms topSeq_ge [of c "filter P cs"] by simp
qed

subsection \<open>Versions that are added and dropped\<close>

lemma sorted_hd: "sorted (xs :: int list) \<Longrightarrow> x \<in> set xs \<Longrightarrow> hd xs \<le> x"
  by (cases xs) auto

lemma sorted_last: "sorted (xs :: int list) \<Longrightarrow> x \<in> set xs \<Longrightarrow> x \<le> last xs"
  by (cases xs rule: rev_cases) (auto simp: sorted_append)

lemma redkeysOkD:
  assumes "redkeysOk key xs"
  shows "xs \<noteq> []" "sorted (map genOf xs)" "last xs \<in> set xs" "hd xs \<in> set xs"
    "x \<in> set xs \<Longrightarrow> NamespacedName x = key \<and> 1 \<le> genOf x \<and> sp_Primaries (rk_Spec x) \<noteq> 0"
    "x \<in> set xs \<Longrightarrow> y \<in> set xs \<Longrightarrow> genOf x = genOf y \<Longrightarrow> rk_Spec x = rk_Spec y"
    "x \<in> set xs \<Longrightarrow> genOf (hd xs) \<le> genOf x" "x \<in> set xs \<Longrightarrow> genOf x \<le> genOf (last xs)"
proof -
  show xs: "xs \<noteq> []" and sorted: "sorted (map genOf xs)" using assms by (simp_all add: redkeysOk_def)
  then show "last xs \<in> set xs" "hd xs \<in> set xs" by simp_all
  show "x \<in> set xs \<Longrightarrow> genOf (hd xs) \<le> genOf x" "x \<in> set xs \<Longrightarrow> genOf x \<le> genOf (last xs)"
    using sorted_hd [OF sorted] sorted_last [OF sorted] xs by (simp_all add: hd_map last_map)
qed (use assms in \<open>unfold redkeysOk_def, blast+\<close>)

lemma configsOkD:
  assumes "configsOk key css"
  shows "css \<noteq> []" "sorted (map topSeq css)" "last css \<in> set css" "hd css \<in> set css"
    "cs \<in> set css \<Longrightarrow> distinct (map configSeq cs)" "cs \<in> set css \<Longrightarrow> nextTaken cs (last css)"
    "c \<in> set (concat css) \<Longrightarrow> namedConfig key c" "inOrder (set (concat css))"
    "cs \<in> set css \<Longrightarrow> topSeq (hd css) \<le> topSeq cs" "cs \<in> set css \<Longrightarrow> topSeq cs \<le> topSeq (last css)"
proof -
  show css: "css \<noteq> []" and sorted: "sorted (map topSeq css)" using assms by (simp_all add: configsOk_def)
  then show "last css \<in> set css" "hd css \<in> set css" by simp_all
  show "cs \<in> set css \<Longrightarrow> topSeq (hd css) \<le> topSeq cs" "cs \<in> set css \<Longrightarrow> topSeq cs \<le> topSeq (last css)"
    using sorted_hd [OF sorted] sorted_last [OF sorted] css by (simp_all add: hd_map last_map)
qed (use assms in \<open>auto simp: configsOk_def\<close>)

lemma redkeysOk_keep:
  assumes "redkeysOk key xs" and "set ys \<subseteq> set xs" and "ys \<noteq> []" and "sorted (map genOf ys)"
  shows "redkeysOk key ys"
  using assms unfolding redkeysOk_def by blast

lemma inOrder_subset: "inOrder C \<Longrightarrow> D \<subseteq> C \<Longrightarrow> inOrder D"
  unfolding inOrder_def by blast

lemma set_concat_mono: "set css \<subseteq> set dss \<Longrightarrow> set (concat css) \<subseteq> set (concat dss)"
  by auto

lemma configsOk_keep:
  assumes ok: "configsOk key css" and sub: "set dss \<subseteq> set css" and dss: "dss \<noteq> []" "sorted (map topSeq dss)"
    and l: "last dss = last css"
  shows "configsOk key dss"
proof -
  note all = set_concat_mono [OF sub]
  have "inOrder (set (concat dss))" using configsOkD(8) [OF ok] all by (rule inOrder_subset)
  moreover have "\<forall>c \<in> set (concat dss). namedConfig key c" using all configsOkD(7) [OF ok] by blast
  ultimately show ?thesis
    using sub dss l configsOkD(5,6) [OF ok] by (simp add: configsOk_def subset_iff del: set_concat)
qed

lemma redkeysOk_append:
  assumes ok: "redkeysOk key xs" and y: "NamespacedName y = key" "sp_Primaries (rk_Spec y) \<noteq> 0"
    and gen: "genOf (last xs) < genOf y \<or> genOf y = genOf (last xs) \<and> rk_Spec y = rk_Spec (last xs)"
  shows "redkeysOk key (xs @ [y])"
proof -
  note d = redkeysOkD [OF ok]
  have le: "genOf x \<le> genOf y" if "x \<in> set xs" for x using d(8) [OF that] gen by linarith
  have spec: "rk_Spec x = rk_Spec y" if "x \<in> set xs" "genOf x = genOf y" for x
    using d(8) [OF that(1)] d(6) [OF that(1) d(3)] that(2) gen by auto
  have "1 \<le> genOf y" using d(5) [OF d(3)] gen by linarith
  with d(5) y have "\<forall>x \<in> set (xs @ [y]). NamespacedName x = key \<and> 1 \<le> genOf x \<and> sp_Primaries (rk_Spec x) \<noteq> 0"
    by simp
  moreover have "rk_Spec a = rk_Spec b" if "a \<in> set (xs @ [y])" "b \<in> set (xs @ [y])" "genOf a = genOf b" for a b
    using that d(6) [of a b] spec [of a] spec [of b] by auto
  moreover have "sorted (map genOf (xs @ [y]))" using d(2) le by (simp add: sorted_append)
  ultimately show ?thesis unfolding redkeysOk_def by blast
qed

lemma configsOk_append:
  assumes ok: "configsOk key css" and top: "topSeq (last css) \<le> topSeq cs"
    and cs: "distinct (map configSeq cs)" "\<And>c. c \<in> set cs \<Longrightarrow> namedConfig key c"
    and taken: "\<And>ds. ds \<in> set css \<Longrightarrow> nextTaken ds cs" and ord: "inOrder (set (concat css) \<union> set cs)"
  shows "configsOk key (css @ [cs])"
proof -
  note d = configsOkD [OF ok]
  have "\<forall>ds \<in> set css. topSeq ds \<le> topSeq cs" using d(10) top by (meson order_trans)
  then have "sorted (map topSeq (css @ [cs]))" using d(2) by (simp add: sorted_append)
  moreover have "\<forall>c \<in> set (concat (css @ [cs])). namedConfig key c" using d(7) cs(2) by auto
  moreover have "inOrder (set (concat (css @ [cs])))" using ord by (simp add: Un_commute)
  moreover have "\<forall>ds \<in> set (css @ [cs]). distinct (map configSeq ds) \<and> nextTaken ds cs"
    using d(5) cs(1) taken by (auto simp: nextTaken_def)
  ultimately show ?thesis by (simp add: configsOk_def del: set_concat set_append)
qed

text \<open>Configs that are the same up to their status.\<close>

lemma inOrder_alike:
  assumes "inOrder C" and "\<And>d. d \<in> D \<Longrightarrow> \<exists>c \<in> C. seqOf c = seqOf d \<and> generationOf c = generationOf d"
  shows "inOrder (C \<union> D)"
proof -
  have like: "\<exists>c \<in> C. seqOf c = seqOf d \<and> generationOf c = generationOf d" if "d \<in> C \<union> D" for d
    using that assms(2) by blast
  show ?thesis
    unfolding inOrder_def
  proof (intro ballI)
    fix x y assume x: "x \<in> C \<union> D" and y: "y \<in> C \<union> D"
    obtain c where "c \<in> C" "seqOf c = seqOf x" "generationOf c = generationOf x" using like [OF x] by blast
    moreover obtain d where "d \<in> C" "seqOf d = seqOf y" "generationOf d = generationOf y" using like [OF y] by blast
    ultimately show "(seqOf x < seqOf y \<longrightarrow> generationOf x < generationOf y) \<and>
        (seqOf x = seqOf y \<longrightarrow> generationOf x = generationOf y)" using assms(1) unfolding inOrder_def by metis
  qed
qed

lemma configsOk_report:
  assumes ok: "configsOk key css" and l: "last css = pre @ c # post" and rep: "robinReport c c'"
  shows "configsOk key (css @ [pre @ c' # post])"
proof (rule configsOk_append [OF ok])
  note same = robinReport_same [OF rep] and d = configsOkD [OF ok]
  have sub: "set (last css) \<subseteq> set (concat css)" using d(3) by auto
  have "seqOf ` set (pre @ c' # post) = seqOf ` set (last css)" by (simp add: l same)
  then have top: "topSeq (pre @ c' # post) = topSeq (last css)" by (rule topSeq_eqI)
  then show "topSeq (last css) \<le> topSeq (pre @ c' # post)" by simp
  show "distinct (map configSeq (pre @ c' # post))" using d(5) [OF d(3)] by (simp add: l same)
  have "namedConfig key c'"
    using d(7) [of c] sub rep by (simp add: l namedConfig_def same robinReport_def configGeneration_def)
  then show "namedConfig key e" if "e \<in> set (pre @ c' # post)" for e using that d(7) [of e] sub by (auto simp: l)
  show "nextTaken ds (pre @ c' # post)" if "ds \<in> set css" for ds
    using d(6) [OF that] top by (auto simp: nextTaken_def l same)
  show "inOrder (set (concat css) \<union> set (pre @ c' # post))"
  proof (rule inOrder_alike [OF d(8)])
    fix e assume "e \<in> set (pre @ c' # post)"
    then have "\<exists>x \<in> set (last css). seqOf x = seqOf e \<and> generationOf x = generationOf e" by (auto simp: l same)
    with sub show "\<exists>x \<in> set (concat css). seqOf x = seqOf e \<and> generationOf x = generationOf e" by blast
  qed
qed

subsection \<open>Every drift keeps the configs in step\<close>

lemma inStepD:
  assumes "inStep key xs css"
  shows "redkeysOk key xs" "configsOk key css" "c \<in> set (concat css) \<Longrightarrow> generationOf c \<le> genOf (hd xs)"
    "c \<in> set (concat css) \<Longrightarrow> x \<in> set xs \<Longrightarrow> generationOf c = genOf x \<Longrightarrow> configTopology c = specTopology (rk_Spec x)"
  using assms unfolding inStep_def by blast+

lemma inStepI:
  assumes "redkeysOk key xs" "configsOk key css" "\<And>c. c \<in> set (concat css) \<Longrightarrow> generationOf c \<le> genOf (hd xs)"
    "\<And>c x. c \<in> set (concat css) \<Longrightarrow> x \<in> set xs \<Longrightarrow> generationOf c = genOf x \<Longrightarrow>
      configTopology c = specTopology (rk_Spec x)"
  shows "inStep key xs css"
  using assms unfolding inStep_def by blast

lemma inStep_keep:
  assumes step: "inStep key xs css" and ys: "set ys \<subseteq> set xs" "ys \<noteq> []" "sorted (map genOf ys)"
    and dss: "set dss \<subseteq> set css" "dss \<noteq> []" "sorted (map topSeq dss)" "last dss = last css"
  shows "inStep key ys dss"
proof (rule inStepI)
  note d = inStepD [OF step] and sub = set_concat_mono [OF dss(1)]
  show "redkeysOk key ys" using d(1) ys by (rule redkeysOk_keep)
  show "configsOk key dss" using d(2) dss by (rule configsOk_keep)
  fix c assume c: "c \<in> set (concat dss)"
  have "genOf (hd xs) \<le> genOf (hd ys)" using redkeysOkD(7) [OF d(1)] ys(1,2) by (meson hd_in_set subset_iff)
  then show "generationOf c \<le> genOf (hd ys)" using d(3) [of c] c sub by (meson order_trans subset_iff)
  fix x assume "x \<in> set ys" "generationOf c = genOf x"
  then show "configTopology c = specTopology (rk_Spec x)" using d(4) [of c x] c sub ys(1) by blast
qed

lemma sorted_map_drop:
  "sorted (map f (xs @ ys)) \<Longrightarrow> sorted (map f (xs @ drop i ys))"
  using sorted_wrt_drop [of "(\<le>)" "map f ys" i] by (auto simp: sorted_append drop_map dest: in_set_dropD)

lemma inStep_redkey:
  assumes step: "inStep key xs css" and y: "NamespacedName y = key" "sp_Primaries (rk_Spec y) \<noteq> 0"
    and gen: "genOf (last xs) < genOf y \<or> genOf y = genOf (last xs) \<and> rk_Spec y = rk_Spec (last xs)"
  shows "inStep key (xs @ [y]) css"
proof (rule inStepI)
  note d = inStepD [OF step]
  note k = redkeysOkD [OF d(1)]
  have h: "hd (xs @ [y]) = hd xs" using k(1) by simp
  show "redkeysOk key (xs @ [y])" using d(1) y gen by (rule redkeysOk_append)
  show "configsOk key css" by (rule d(2))
  fix c assume c: "c \<in> set (concat css)"
  show "generationOf c \<le> genOf (hd (xs @ [y]))" unfolding h by (rule d(3) [OF c])
  fix x assume x: "x \<in> set (xs @ [y])" "generationOf c = genOf x"
  have "genOf y = genOf (last xs) \<and> rk_Spec y = rk_Spec (last xs)" if "x = y"
    using that x(2) gen d(3) [OF c] k(7) [OF k(3)] by auto
  then show "configTopology c = specTopology (rk_Spec x)"
    using x d(4) [OF c, of x] d(4) [OF c k(3)] by (cases "x = y") auto
qed

lemma inStep_report:
  assumes step: "inStep key xs css" and l: "last css = pre @ c # post" and rep: "robinReport c c'"
  shows "inStep key xs (css @ [pre @ c' # post])"
proof (rule inStepI)
  note d = inStepD [OF step]
  note same = robinReport_same [OF rep]
  show "redkeysOk key xs" by (rule d(1))
  show "configsOk key (css @ [pre @ c' # post])" using d(2) l rep by (rule configsOk_report)
  fix e assume e: "e \<in> set (concat (css @ [pre @ c' # post]))"
  have sub: "set (last css) \<subseteq> set (concat css)" using configsOkD(3) [OF d(2)] by auto
  have c: "c \<in> set (concat css)" and "e = c' \<or> e \<in> set (concat css)" using e sub by (auto simp: l)
  then obtain e' where e': "e' \<in> set (concat css)" "generationOf e' = generationOf e" "rc_Spec e' = rc_Spec e"
    using same(3) rep unfolding robinReport_def by metis
  show "generationOf e \<le> genOf (hd xs)" using d(3) [OF e'(1)] e'(2) by simp
  fix x assume "x \<in> set xs" "generationOf e = genOf x"
  with d(4) [OF e'(1), of x] e' show "configTopology e = specTopology (rk_Spec x)" by simp
qed

lemma drift_numbered:
  assumes num: "numbered key xs css v" and "drift v v'"
  shows "numbered key xs css v'"
proof -
  have v: "redkeyViews v \<noteq> []" "configViews v \<noteq> []" and step: "inStep key (xs @ redkeyViews v) (css @ configViews v)"
    using num by (simp_all add: numbered_def)
  note d = inStepD [OF step]
  have l: "last (xs @ redkeyViews v) = last (redkeyViews v)" "last (css @ configViews v) = last (configViews v)" using v by simp_all
  have last: "NamespacedName (last (redkeyViews v)) = key \<and> sp_Primaries (rk_Spec (last (redkeyViews v))) \<noteq> 0"
    using redkeysOkD(5) [OF d(1), of "last (redkeyViews v)"] v by simp
  from assms(2) show ?thesis
  proof (cases rule: drift.cases)
    case (catchUp i j)
    have "inStep key (xs @ drop i (redkeyViews v)) (css @ drop j (configViews v))"
      by (rule inStep_keep [OF step])
        (use catchUp(2,3) v redkeysOkD(2) [OF d(1)] configsOkD(2) [OF d(2)]
          in \<open>auto simp del: map_append simp: sorted_map_drop dest: in_set_dropD\<close>)
    with catchUp show ?thesis by (simp add: numbered_def)
  next
    case (edit spec new)
    then have "inStep key ((xs @ redkeyViews v) @ [new]) (css @ configViews v)"
      by (intro inStep_redkey [OF step]) (use last in \<open>simp_all add: l edited_def\<close>)
    with edit v show ?thesis by (simp add: numbered_def)
  next
    case (status st new)
    then have "inStep key ((xs @ redkeyViews v) @ [new]) (css @ configViews v)"
      by (intro inStep_redkey [OF step]) (use last in \<open>simp_all add: l withStatus_def\<close>)
    with status v show ?thesis by (simp add: numbered_def)
  next
    case (report pre c post c')
    then have "inStep key (xs @ redkeyViews v) ((css @ configViews v) @ [pre @ c' # post])"
      by (intro inStep_report [OF step]) (simp_all add: l)
    with report v show ?thesis by (simp add: numbered_def)
  qed
qed

lemma drifts_numbered: "drift\<^sup>*\<^sup>* v v' \<Longrightarrow> numbered key xs css v \<Longrightarrow> numbered key xs css v'"
  by (induction rule: rtranclp_induct) (auto intro: drift_numbered)

subsection \<open>Reading\<close>

lemma numberedD:
  assumes "numbered key xs css v"
  shows "redkeyViews v \<noteq> []" "configViews v \<noteq> []" "inStep key (xs @ redkeyViews v) (css @ configViews v)"
    "redkeysOk key (xs @ redkeyViews v)" "configsOk key (css @ configViews v)"
  using assms by (auto simp: numbered_def dest: inStepD)

lemma numbered_keep:
  assumes num: "numbered key xs css v" and "set ys \<subseteq> set xs \<union> {hd (redkeyViews v)}"
    and "sorted (map genOf (ys @ redkeyViews v))" and "set dss \<subseteq> set css" and "sorted (map topSeq (dss @ configViews v))"
  shows "numbered key ys dss v"
  unfolding numbered_def
  using assms numberedD(1,2) [OF num] by (auto intro!: inStep_keep [OF numberedD(3) [OF num]])

lemma numbered_forget: "numbered key xs css v \<Longrightarrow> numbered key [] css v" "numbered key xs css v \<Longrightarrow> numbered key xs [] v"
  using redkeysOkD(2) [OF numberedD(4), of key xs css v] configsOkD(2) [OF numberedD(5), of key xs css v]
  by (auto intro!: numbered_keep [of key xs css v] simp: sorted_append)

lemma numbered_redkey:
  assumes "numbered key [] css v"
  shows "numbered key [hd (redkeyViews v)] css v"
proof (rule numbered_keep [OF assms])
  note d = redkeysOkD [OF numberedD(4) [OF assms]]
  show "sorted (map genOf ([hd (redkeyViews v)] @ redkeyViews v))" using d(2,7) by simp
qed (use configsOkD(2) [OF numberedD(5) [OF assms]] in simp_all)

lemma topSeq_mset: "mset cs = mset ds \<Longrightarrow> topSeq cs = topSeq ds"
  by (rule topSeq_eqI) (metis set_mset_mset)

lemma configsOk_list:
  assumes ok: "configsOk key css" and L: "mset L = mset (hd css)"
  shows "configsOk key (L # css)"
proof -
  note d = configsOkD [OF ok] and top = topSeq_mset [OF L]
  have "set L = set (hd css)" using L by (metis set_mset_mset)
  with d(4) have all: "set (concat (L # css)) = set (concat css)" by auto
  have "mset (map configSeq L) = mset (map configSeq (hd css))" by (simp add: L)
  then have "distinct (map configSeq L)" using d(5) [OF d(4)] by (metis mset_eq_imp_distinct_iff)
  moreover have "nextTaken L (last css)" using d(6) [OF d(4)] by (simp add: nextTaken_def top)
  moreover have "sorted (map topSeq (L # css))" using d(2,9) by (simp add: top)
  ultimately show ?thesis using d unfolding configsOk_def all by auto
qed

lemma numbered_list:
  assumes num: "numbered key xs [] v" and L: "mset L = mset (hd (configViews v))"
  shows "numbered key xs [L] v"
proof -
  note n = numberedD [OF num] and d = inStepD [OF numberedD(3) [OF num]]
  have "set L = set (hd (configViews v))" using L by (metis set_mset_mset)
  with hd_in_set [OF n(2)] have all: "set (concat (L # configViews v)) = set (concat (configViews v))" by auto
  have "configsOk key (L # configViews v)" using n(5) L by (simp add: configsOk_list)
  with d n(1,2) show ?thesis unfolding numbered_def inStep_def append_Cons append_Nil all by blast
qed

subsection \<open>Writing\<close>

lemma namedConfig_key:
  "namedConfig key c \<Longrightarrow> namedConfig key d \<Longrightarrow> configKey c = configKey d \<longleftrightarrow> configSeq c = configSeq d"
  by (auto simp: namedConfig_def)

text \<open>Up to the last number of a list that was read, all configs are as old as its last one.\<close>

lemma latest_generation:
  assumes ok: "configsOk key (L # css)" and L: "sorted (map seqOf L)"
    and c: "c \<in> set (concat (L # css))" "seqOf c \<le> topSeq L"
  shows "L \<noteq> []" "generationOf c \<le> generationOf (last L)"
proof -
  note d = configsOkD [OF ok]
  have "1 \<le> seqOf c" using d(7) [OF c(1)] by (simp add: namedConfig_def)
  with c(2) show ne: "L \<noteq> []" by (auto simp: topSeq_def)
  have "\<forall>c \<in> set L. 1 \<le> seqOf c" using d(7) by (simp add: namedConfig_def)
  from topSeq_last [OF L ne this] c(2) have "seqOf c \<le> seqOf (last L)" by simp
  with d(8) c(1) ne show "generationOf c \<le> generationOf (last L)"
    unfolding inOrder_def by (metis Un_iff concat.simps(2) last_in_set order_le_less set_append)
qed

text \<open>When the number after that list is free, the list has the highest number there is.\<close>

lemma free_top:
  assumes ok: "configsOk key (L # css)" "css \<noteq> []" and y: "namedConfig key y" "seqOf y = topSeq L + 1"
    and free: "configKey y \<notin> configKey ` set (last css)"
  shows "topSeq (last css) = topSeq L" "c \<in> set (concat (L # css)) \<Longrightarrow> seqOf c \<le> topSeq L"
proof -
  note d = configsOkD [OF ok(1)]
  have l: "last (L # css) = last css" using ok(2) by simp
  have "topSeq L + 1 \<notin> seqOf ` set (last css)"
  proof
    assume "topSeq L + 1 \<in> seqOf ` set (last css)"
    then obtain e where e: "e \<in> set (last css)" "seqOf e = seqOf y" using y(2) by auto
    then have "namedConfig key e" using d(7) [of e] d(3) l by auto
    with e y(1) have "configKey e = configKey y" by (simp add: namedConfig_key sint_eq_iff)
    with free e(1) show False by (metis imageI)
  qed
  with d(6) [of L] d(10) [of L] l show top: "topSeq (last css) = topSeq L" by (simp add: nextTaken_def)
  assume "c \<in> set (concat (L # css))"
  then obtain cs where "cs \<in> set (L # css)" "c \<in> set cs" by auto
  with d(10) topSeq_ge top l show "seqOf c \<le> topSeq L" by (metis order_trans)
qed

lemma inOrder_insert:
  assumes "inOrder C" and "\<And>c. c \<in> C \<Longrightarrow> seqOf c < seqOf y" and "\<And>c. c \<in> C \<Longrightarrow> generationOf c < generationOf y"
  shows "inOrder (insert y C)"
  using assms unfolding inOrder_def by (metis insert_iff order_less_asym order_less_irrefl)

lemma configsOk_create:
  assumes ok: "configsOk key (L # css)" "css \<noteq> []" and y: "namedConfig key y" "seqOf y = topSeq L + 1"
    and free: "configKey y \<notin> configKey ` set (last css)"
    and old: "\<And>c. c \<in> set (concat (L # css)) \<Longrightarrow> generationOf c < generationOf y"
  shows "configsOk key (L # css @ [last css @ [y]])"
proof -
  note d = configsOkD [OF ok(1)] and top = free_top [OF ok y free]
  have l: "last (L # css) = last css" using ok(2) by simp
  have sub: "set (last css) \<subseteq> set (concat (L # css))" using d(3) l by auto
  have less: "seqOf c < seqOf y" if "c \<in> set (concat (L # css))" for c using top(2) [OF that] y(2) by simp
  have "configsOk key ((L # css) @ [last css @ [y]])"
  proof (rule configsOk_append [OF ok(1)])
    show "topSeq (last (L # css)) \<le> topSeq (last css @ [y])" using ok(2) by (simp add: topSeq_append)
    have "configSeq y \<notin> configSeq ` set (last css)" using less [OF subsetD [OF sub]] by force
    then show "distinct (map configSeq (last css @ [y]))" using d(5) [OF d(3)] unfolding l by simp
    show "namedConfig key c" if "c \<in> set (last css @ [y])" for c
      using that y(1) d(7) [OF subsetD [OF sub]] by auto
    show "nextTaken ds (last css @ [y])" if "ds \<in> set (L # css)" for ds
      using d(6) [OF that] d(10) [OF that] top(1) y(2) unfolding l by (auto simp: nextTaken_def topSeq_append)
    have "set (concat (L # css)) \<union> set (last css @ [y]) = insert y (set (concat (L # css)))" using sub by auto
    then show "inOrder (set (concat (L # css)) \<union> set (last css @ [y]))"
      using inOrder_insert [OF d(8)] less old by simp
  qed
  then show ?thesis by simp
qed

lemma next_top:
  assumes L: "sorted (map seqOf L)" and named: "\<forall>c \<in> set L. namedConfig key c"
    and new: "L \<noteq> [] \<Longrightarrow> generationOf (last L) < genOf x"
  shows "sint (nextSequence (latestOf L)) = topSeq L + 1"
    "1 \<le> genOf x \<Longrightarrow> sint (nextSequence (latestOf L)) \<le> genOf x"
proof -
  have "sint (nextSequence (latestOf L)) = topSeq L + 1 \<and> (1 \<le> genOf x \<longrightarrow> sint (nextSequence (latestOf L)) \<le> genOf x)"
  proof (cases "L = []")
    case True
    then show ?thesis by (simp add: latestOf_def nextSequence_def topSeq_def)
  next
    case False
    then have last: "last L \<in> set L" by simp
    with named have "seqOf (last L) \<le> generationOf (last L)" by (simp add: namedConfig_def)
    moreover have "\<forall>c \<in> set L. 1 \<le> seqOf c" using named by (simp add: namedConfig_def)
    ultimately show ?thesis
      using False new [OF False] nextSequence_greater [of "last L"] topSeq_last [OF L False]
        sint_int64_bounds(2) [of "Generation (rk_Meta x)"] by (simp add: latestOf_def)
  qed
  then show "sint (nextSequence (latestOf L)) = topSeq L + 1"
    "1 \<le> genOf x \<Longrightarrow> sint (nextSequence (latestOf L)) \<le> genOf x" by simp_all
qed

lemma create_numbered:
  assumes num: "numbered key [x] [L] v" and L: "sorted (map seqOf L)" and y: "isNewConfig x (latestOf L) y"
    and new: "L \<noteq> [] \<Longrightarrow> generationOf (last L) < genOf x"
    and free: "configKey y \<notin> configKey ` set (liveConfigs v)"
  shows "numbered key [x] [L] (withConfigs (liveConfigs v @ [y]) v)"
proof -
  note n = numberedD [OF num] and g = isNewConfig_generation [OF y] and k = redkeysOkD [OF numberedD(4) [OF num]]
  note d = inStepD [OF n(3)]
  have ok: "configsOk key (L # configViews v)" using n(5) by simp
  have x: "NamespacedName x = key" "1 \<le> genOf x" using k(5) [of x] by simp_all
  have named: "\<forall>c \<in> set L. namedConfig key c" using configsOkD(7) [OF ok] by simp
  have seq: "seqOf y = topSeq L + 1" "seqOf y \<le> genOf x"
    using next_top [OF L named new] x(2) g(3) by auto
  have ny: "namedConfig key y"
    using g seq x topSeq_nonneg [of L] by (auto simp: namedConfig_def NamespacedName_def)
  have "generationOf c < generationOf y" if c: "c \<in> set (concat (L # configViews v))" for c
    using latest_generation [OF ok L c free_top(2) [OF ok n(2) ny seq(1) free c]] new g(2) by simp
  then have "configsOk key (L # configViews v @ [liveConfigs v @ [y]])"
    by (rule configsOk_create [OF ok n(2) ny seq(1) free])
  then have "inStep key (x # redkeyViews v) (L # configViews v @ [liveConfigs v @ [y]])"
  proof (rule inStepI [rotated])
    fix c assume "c \<in> set (concat (L # configViews v @ [liveConfigs v @ [y]]))"
    moreover have "set (liveConfigs v) \<subseteq> set (concat (L # configViews v))" using n(2) by (auto intro: bexI [of _ "liveConfigs v"])
    ultimately have c: "c \<in> set (concat (L # configViews v)) \<or> c = y" by auto
    then show "generationOf c \<le> genOf (hd (x # redkeyViews v))" using d(3) [of c] g(2) by auto
    fix z assume "z \<in> set (x # redkeyViews v)" "generationOf c = genOf z"
    with c d(4) [of c z] k(6) [of x z] g(2,5) show "configTopology c = specTopology (rk_Spec z)" by auto
  qed (use d(1) in simp)
  with n(1) show ?thesis by (simp add: numbered_def)
qed

lemma delete_numbered:
  assumes num: "numbered key xs [L] v" and e: "e \<in> set L" "seqOf e < topSeq L"
  shows "numbered key xs [L] (withConfigs (filter (\<lambda>c. configKey c \<noteq> configKey e) (liveConfigs v)) v)"
proof -
  note n = numberedD [OF num]
  note d = inStepD [OF n(3)] and k = configsOkD [OF n(5)]
  let ?css = "[L] @ configViews v" and ?P = "\<lambda>c. configKey c \<noteq> configKey e"
  have l: "last ?css = liveConfigs v" using n(2) by simp
  have sub: "set (liveConfigs v) \<subseteq> set (concat ?css)" using k(3) l by auto
  have ne: "namedConfig key e" using k(7) [of e] e(1) by simp
  have other: "?P c" if "c \<in> set (liveConfigs v)" "topSeq L \<le> seqOf c" for c
    using namedConfig_key [OF k(7) [OF subsetD [OF sub that(1)]] ne] that(2) e(2) by auto
  have low: "topSeq L \<le> topSeq ds" if "ds \<in> set ?css" for ds using k(9) [OF that] by simp
  have top: "topSeq (filter ?P (liveConfigs v)) = topSeq (liveConfigs v)"
  proof -
    have "topSeq L \<le> topSeq (liveConfigs v)" using low [OF k(3)] l by simp
    moreover have "0 < topSeq L" using e(2) ne by (simp add: namedConfig_def)
    ultimately obtain c where c: "c \<in> set (liveConfigs v)" "seqOf c = topSeq (liveConfigs v)" "topSeq L \<le> seqOf c"
      by (metis order_less_le_trans topSeq_attained)
    from topSeq_filter [OF c(1,2), of ?P] other [OF c(1,3)] show ?thesis by simp
  qed
  have "configsOk key (?css @ [filter ?P (liveConfigs v)])"
  proof (rule configsOk_append [OF n(5)])
    show "topSeq (last ?css) \<le> topSeq (filter ?P (liveConfigs v))" by (simp only: l top)
    show "distinct (map configSeq (filter ?P (liveConfigs v)))" using k(5) [OF k(3)] l by (simp add: distinct_map_filter)
    show "namedConfig key c" if "c \<in> set (filter ?P (liveConfigs v))" for c
      using that k(7) [OF subsetD [OF sub]] by auto
    show "nextTaken ds (filter ?P (liveConfigs v))" if "ds \<in> set ?css" for ds
    proof -
      have "\<exists>c \<in> set (liveConfigs v). seqOf c = topSeq ds + 1 \<and> ?P c" if "topSeq ds < topSeq (liveConfigs v)"
        using that k(6) [OF \<open>ds \<in> set ?css\<close>] low [OF \<open>ds \<in> set ?css\<close>] other unfolding nextTaken_def l by fastforce
      then show ?thesis unfolding nextTaken_def top by force
    qed
    show "inOrder (set (concat ?css) \<union> set (filter ?P (liveConfigs v)))"
      by (rule inOrder_subset [OF k(8)]) (use sub in auto)
  qed
  then have "inStep key (xs @ redkeyViews v) (?css @ [filter ?P (liveConfigs v)])"
  proof (rule inStepI [rotated])
    fix c assume "c \<in> set (concat (?css @ [filter ?P (liveConfigs v)]))"
    with sub have c: "c \<in> set (concat ?css)" by auto
    show "generationOf c \<le> genOf (hd (xs @ redkeyViews v))" by (rule d(3) [OF c])
    fix z assume "z \<in> set (xs @ redkeyViews v)" "generationOf c = genOf z"
    then show "configTopology c = specTopology (rk_Spec z)" by (rule d(4) [OF c])
  qed (rule d(1))
  with n(1) show ?thesis by (simp add: numbered_def)
qed

end
