(* ===== verification/Stale_Reads.thy ===== *)
theory Stale_Reads
  imports Stale_Views
begin

section \<open>The operator on caches that lag behind\<close>

text \<open>
  The reconciler runs on a client whose reads are answered from the caches and whose writes go to the API server.
  Before any of its requests the caches may catch up, the user may edit the Redkey and Robin may report.
\<close>

subsection \<open>The client\<close>

definition configSelector :: "nsname \<Rightarrow> strmap" where
  "configSelector key = fmupd ClusterLabel (snd key) fmempty"

lemma keeps_liftResult: "(\<And>x. res = Inr x \<Longrightarrow> keeps P (f x)) \<Longrightarrow> keeps P (bindE (liftResult res) f)"
  by (cases res) (simp_all add: keeps_def bindE_def liftResult_def)

locale lagging_client = owner_lib "setControllerReference r" + retry_lib "retryOnConflict r" + metrics_frame r obs
  for r :: "('w, 'z) RedkeyReconciler_scheme" and obs :: "'w \<Rightarrow> views" +
  fixes key :: nsname
  assumes redkey_read: "getRedkey r key w = (Inr x, w') \<Longrightarrow> x = hd (redkeyViews (obs w'))"
    and redkey_drift: "drift\<^sup>*\<^sup>* (obs w) (obs (snd (getRedkey r k w)))"
      "drift\<^sup>*\<^sup>* (obs w) (obs (snd (updateRedkeyStatus r x w)))"
    and config_list: "listRedkeyConfigs r (fst key) (configSelector key) w = (Inr cs, w') \<Longrightarrow>
      mset cs = mset (hd (configViews (obs w')))"
    and list_drift: "drift\<^sup>*\<^sup>* (obs w) (obs (snd (listRedkeyConfigs r ns m w)))"
    and create_ok: "kCreate (redkeyConfigs r) c w = (Inr u, w') \<Longrightarrow> configMatches (fst key) (configSelector key) c \<Longrightarrow>
      \<exists>v y. drift\<^sup>*\<^sup>* (obs w) v \<and> configKey c \<notin> configKey ` set (liveConfigs v) \<and> storedConfig c y \<and>
        obs w' = withConfigs (liveConfigs v @ [y]) v"
    and create_err: "kCreate (redkeyConfigs r) c w = (Inl e, w') \<Longrightarrow> drift\<^sup>*\<^sup>* (obs w) (obs w')"
    and delete_ok: "kDelete (redkeyConfigs r) k w = (Inr u, w') \<Longrightarrow>
      \<exists>v. drift\<^sup>*\<^sup>* (obs w) v \<and> obs w' = withConfigs (filter (\<lambda>c. configKey c \<noteq> k) (liveConfigs v)) v"
    and delete_err: "kDelete (redkeyConfigs r) k w = (Inl e, w') \<Longrightarrow> drift\<^sup>*\<^sup>* (obs w) (obs w')"
    and kinds_drift: "kindKeeps (\<lambda>w. drift\<^sup>*\<^sup>* v (obs w)) (serviceAccounts r)"
      "kindKeeps (\<lambda>w. drift\<^sup>*\<^sup>* v (obs w)) (roles r)" "kindKeeps (\<lambda>w. drift\<^sup>*\<^sup>* v (obs w)) (roleBindings r)"
      "kindKeeps (\<lambda>w. drift\<^sup>*\<^sup>* v (obs w)) (deployments r)"
begin

text \<open>What the operator knows when it has read \<open>xs\<close> and \<open>css\<close>.\<close>

abbreviation knows :: "Redkey list \<Rightarrow> RedkeyConfig list list \<Rightarrow> 'w \<Rightarrow> bool" where
  "knows xs css w \<equiv> numbered key xs css (obs w)"

lemma drift_keeps: "(\<And>w. drift\<^sup>*\<^sup>* (obs w) (obs (snd (m w)))) \<Longrightarrow> keeps (knows xs css) m"
  unfolding keeps_def using drifts_numbered by blast

lemma kind_keeps_drift:
  assumes "\<And>v. kindKeeps (\<lambda>w. drift\<^sup>*\<^sup>* v (obs w)) K"
  shows "kindKeeps (knows xs css) K"
  using assms unfolding kindKeeps_def keeps_def by (meson drifts_numbered rtranclp.rtrancl_refl)

end

sublocale lagging_client \<subseteq> robin: robin_frame r "\<lambda>w. numbered key xs css (obs w)" for xs css
  by unfold_locales (simp_all add: kind_keeps_drift kinds_drift)

sublocale lagging_client \<subseteq> status: status_frame r "\<lambda>w. numbered key xs css (obs w)" for xs css
  by unfold_locales (simp_all add: drift_keeps redkey_drift)

context lagging_client
begin

subsection \<open>The handlers of the configs\<close>

lemma wp_redkey:
  assumes "knows [] [] w"
  shows "wp (getRedkey r key) (\<lambda>x w'. knows [x] [] w') (\<lambda>_ w'. knows [] [] w') w"
proof (rule wpI)
  fix x w' assume run: "getRedkey r key w = (Inr x, w')"
  have "knows [] [] w'" using keepsD [OF drift_keeps [OF redkey_drift(1)] assms run] .
  then show "knows [x] [] w'" using numbered_redkey redkey_read [OF run] by blast
next
  fix e w' assume "getRedkey r key w = (Inl e, w')"
  then show "knows [] [] w'" by (rule keepsD [OF drift_keeps [OF redkey_drift(1)] assms])
qed

lemma wp_configs:
  assumes "knows xs [] w" and "NamespacedName cluster = key"
  shows "wp (listConfigs r cluster) (\<lambda>L w'. knows xs [L] w' \<and> sorted (map seqOf L)) (\<lambda>_ w'. knows xs [] w') w"
proof -
  have sel: "Namespace (rk_Meta cluster) = fst key" "clusterSelector cluster = configSelector key"
    using assms(2) by (auto simp: clusterSelector_def configSelector_def NamespacedName_def)
  have "wp (listRedkeyConfigs r (fst key) (configSelector key)) (\<lambda>cs w'. knows xs [sortConfigs cs] w')
      (\<lambda>_ w'. knows xs [] w') w"
  proof (rule wpI)
    fix cs w' assume run: "listRedkeyConfigs r (fst key) (configSelector key) w = (Inr cs, w')"
    have "knows xs [] w'" using keepsD [OF drift_keeps [OF list_drift] assms(1) run] .
    then show "knows xs [sortConfigs cs] w'" using config_list [OF run] by (simp add: numbered_list)
  next
    fix e w' assume "listRedkeyConfigs r (fst key) (configSelector key) w = (Inl e, w')"
    then show "knows xs [] w'" by (rule keepsD [OF drift_keeps [OF list_drift] assms(1)])
  qed
  then show ?thesis unfolding listConfigs_def sel wp_bindE by (simp add: wp_returnE sorted_sortConfigs)
qed

lemma needs_newer:
  assumes "knows [x] [L] w" and "L = [] \<or> needsNewConfig x (latestOf L)" and "L \<noteq> []"
  shows "generationOf (last L) < genOf x"
proof -
  have "namedConfig key (last L)" using configsOkD(7) [OF numberedD(5) [OF assms(1)], of "last L"] assms(3) by simp
  with assms(2,3) show ?thesis
    by (auto simp: latestOf_def needsNewConfig_covers covers_def logEntry_def generationOf_def namedConfig_def
        split: option.splits)
qed

lemma keeps_create:
  assumes L: "sorted (map seqOf L)" and new: "L = [] \<or> needsNewConfig x (latestOf L)"
    and m: "setControllerReference r x (rc_Meta (buildConfig x (latestOf L))) = Inr m"
  shows "keeps (knows [x] [L]) (kCreate (redkeyConfigs r) (buildConfig x (latestOf L)\<lparr>rc_Meta := m\<rparr>))"
proof (rule keepsI)
  fix w res w'
  let ?c = "buildConfig x (latestOf L)\<lparr>rc_Meta := m\<rparr>"
  assume know: "knows [x] [L] w" and run: "kCreate (redkeyConfigs r) ?c w = (res, w')"
  note mf = set_ref_fields [OF m]
  have "NamespacedName x = key" using redkeysOkD(5) [OF numberedD(4) [OF know], of x] by simp
  then have match: "configMatches (fst key) (configSelector key) ?c"
    using mf by (auto simp: configMatches_def configSelector_def NamespacedName_def)
  show "knows [x] [L] w'"
  proof (cases res)
    case (Inl e)
    with run have "drift\<^sup>*\<^sup>* (obs w) (obs w')" by (simp add: create_err)
    then show ?thesis using know by (rule drifts_numbered)
  next
    case (Inr u)
    with create_ok [OF _ match] run obtain v y where v: "drift\<^sup>*\<^sup>* (obs w) v"
      and free: "configKey ?c \<notin> configKey ` set (liveConfigs v)" and y: "storedConfig ?c y"
      and w': "obs w' = withConfigs (liveConfigs v @ [y]) v" by blast
    have "isNewConfig x (latestOf L) y" "configKey y = configKey ?c"
      using y mf by (simp_all add: storedConfig_def isNewConfig_def sameMeta_def metaKey_def ownedBy_def)
    with free drifts_numbered [OF v know] L needs_newer [OF know new] show ?thesis
      unfolding w' by (intro create_numbered) simp_all
  qed
qed

lemma keeps_createNewConfig:
  assumes "sorted (map seqOf L)" and "L = [] \<or> needsNewConfig x (latestOf L)"
  shows "keeps (knows [x] [L]) (createNewConfig r x (latestOf L))"
  unfolding createNewConfig_def Let_def
proof (rule keeps_liftResult)
  fix m assume m: "setControllerReference r x (rc_Meta (buildConfig x (latestOf L))) = Inr m"
  note create = keeps_create [OF assms m]
  show "keeps (knows [x] [L]) (bindE (attemptE (kCreate (redkeyConfigs r) (buildConfig x (latestOf L)\<lparr>rc_Meta := m\<rparr>)))
      (\<lambda>res. case res of Inl e \<Rightarrow> if IsAlreadyExists e then returnE () else throwE e
        | Inr _ \<Rightarrow> modifyE (counterInc r redkeyConfigCreations
            [if latestOf L = None then ''initial'' else ''generation_change''])))"
    by (intro keeps_rules create) (simp only: metrics_obs)
qed

lemma keeps_deleteOld:
  assumes e: "e \<in> set L" "seqOf e < topSeq L"
  shows "keeps (knows xs [L]) (kDelete (redkeyConfigs r) (configKey e))"
proof (rule keepsI)
  fix w res w' assume know: "knows xs [L] w" and run: "kDelete (redkeyConfigs r) (configKey e) w = (res, w')"
  show "knows xs [L] w'"
  proof (cases res)
    case (Inl err)
    with run have "drift\<^sup>*\<^sup>* (obs w) (obs w')" by (simp add: delete_err)
    then show ?thesis using know by (rule drifts_numbered)
  next
    case (Inr u)
    with run obtain v where v: "drift\<^sup>*\<^sup>* (obs w) v"
      and w': "obs w' = withConfigs (filter (\<lambda>c. configKey c \<noteq> configKey e) (liveConfigs v)) v" using delete_ok by blast
    show ?thesis unfolding w' by (rule delete_numbered [OF drifts_numbered [OF v know] e])
  qed
qed

lemma keeps_cleanupLoop:
  assumes "\<And>e. e \<in> set pre \<Longrightarrow> e \<in> set L \<and> seqOf e < topSeq L"
  shows "keeps (knows xs [L]) (cleanupLoop r pre kept)"
  using assms
proof (induction pre)
  case (Cons c pre)
  from Cons.prems [of c] Cons.IH [OF Cons.prems] show ?case
    unfolding cleanupLoop.simps by (intro keeps_rules keeps_deleteOld) simp_all
qed (simp add: keeps_rules)


lemma older_than_last:
  assumes "distinct (map configSeq L)" and "sorted (map seqOf L)" and "e \<in> set (take i L)" and "i < length L"
  shows "e \<in> set L \<and> seqOf e < topSeq L"
proof -
  from assms(3) obtain j where j: "j < i" "e = L ! j" by (auto simp: in_set_conv_nth)
  with assms(4) have jl: "j < length L" by simp
  have "seqOf (L ! j) \<le> seqOf (L ! i)" using sorted_nth_mono [OF assms(2), of j i] j(1) assms(4) by simp
  moreover have "configSeq (L ! j) \<noteq> configSeq (L ! i)"
    using nth_eq_iff_index_eq [OF assms(1), of j i] j(1) assms(4) by simp
  ultimately have "seqOf e < seqOf (L ! i)" using j(2) sint_eq_iff by (metis order_le_less)
  also have "\<dots> \<le> topSeq L" by (rule topSeq_ge) (simp add: assms(4))
  finally show ?thesis using j(2) jl by simp
qed

lemma wp_cleanup:
  assumes know: "knows xs [L] w" and L: "sorted (map seqOf L)"
  shows "wp (cleanupSupersededConfigs r L) (\<lambda>_. knows xs [L]) (\<lambda>_. knows xs [L]) w"
proof -
  have "distinct (map configSeq L)" using configsOkD(5) [OF numberedD(5) [OF know], of L] by simp
  then have "keeps (knows xs [L]) (cleanupLoop r (take i L) kept)" if "i < length L" for i kept
    using older_than_last [OF _ L _ that] by (intro keeps_cleanupLoop) blast
  then have "keeps (knows xs [L]) (cleanupSupersededConfigs r L)"
    unfolding cleanupSupersededConfigs_def
    by (auto simp: keeps_rules lastAppliedIndex_def find_Some_iff rev_nth split: option.split)
  then show ?thesis using know by (rule wp_keeps)
qed

subsection \<open>The reconciler\<close>

abbreviation anyhow :: "go_error \<Rightarrow> 'w rstate \<Rightarrow> bool" where
  "anyhow e s \<equiv> knows [] [] (world s)"

lemma wp_sync:
  assumes know: "knows [x] [] (world s)"
  shows "wp (syncConfigs r x) (\<lambda>L s'. knows [x] [L] (world s') \<and> sorted (map seqOf L)) anyhow s"
proof -
  have x: "NamespacedName x = key" using redkeysOkD(5) [OF numberedD(4) [OF know], of x] by simp
  note forget = numbered_forget(1) [of key "[x]" "[]"] numbered_forget(2) [of key "[x]" "[_]"]
  have list: "wp (listConfigs r x) (\<lambda>L w'. knows [x] [L] w' \<and> sorted (map seqOf L)) (\<lambda>_. knows [] []) w"
    if "knows [x] [] w" for w
    by (rule wp_mono [OF wp_configs [OF that x]]) (simp_all add: forget)
  show ?thesis
    unfolding syncConfigs_def wp_bindE wp_stage
  proof (rule wp_mono [OF list [OF know]], goal_cases)
    case (1 L w)
    then have "wp (createNewConfig r x (latestOf L)) (\<lambda>_ w'. knows [x] [] w') (\<lambda>_ w'. knows [] [] w') w"
      if "L = [] \<or> needsNewConfig x (latestOf L)"
      by (rule_tac wp_keeps [OF keeps_createNewConfig [OF _ that]]) (auto dest: forget)
    with 1 show ?case
      by (auto simp: wp_simps Let_def intro!: wp_mono [OF _ list])
  next
    case (2 e w)
    then show ?case by simp
  qed
qed


lemma forgotten: "numbered key xs css v \<Longrightarrow> numbered key [] [] v"
  by (blast intro: numbered_forget)

lemma wp_robin:
  assumes "knows [x] [] w"
  shows "wp (ensureRBAC r x) (\<lambda>_. knows [x] []) (\<lambda>_. knows [] []) w"
    "wp (ensureRobinDeployment r x) (\<lambda>_. knows [x] []) (\<lambda>_. knows [] []) w"
  using assms by (auto intro: wp_keeps robin.keeps_ensure forgotten)

lemma wp_statusStage:
  assumes "knows xs css w"
  shows "wp (aggregateStatus r x cs) (\<lambda>_. knows [] []) (\<lambda>_. knows [] []) w"
  by (rule wp_keeps [OF status.keeps_status(1) forgotten [OF assms]]) simp_all

lemma wp_cleanupStage:
  assumes "knows xs [L] (world s)" and "sorted (map seqOf L)"
  shows "wp (cleanupStage r L) (\<lambda>_ s'. knows xs [L] (world s')) anyhow s"
  unfolding cleanupStage_def wp_bindE wp_inWorld
  by (rule wp_mono [OF wp_cleanup [OF assms]]) (auto simp: wp_simps forgotten split: option.split prod.split)

lemma keeps_reconcileCluster:
  assumes "knows [x] [] (world s)"
  shows "wp (reconcileCluster r x) (\<lambda>_. anyhow e) anyhow s"
  unfolding reconcileCluster_def wp_bindE wp_stage
proof (rule wp_mono [OF wp_robin(1) [OF assms]], goal_cases)
  case (1 u w)
  show ?case
  proof (rule wp_mono [OF wp_robin(2)], goal_cases)
    case 1
    show ?case using \<open>knows [x] [] w\<close> by simp
  next
    case (2 u w2)
    show ?case
    proof (rule wp_mono [OF wp_sync], goal_cases)
      case 1
      show ?case using 2 by simp
    next
      case (2 L s2)
      have "wp (bindE (cleanupStage r L) (\<lambda>kept. bindE (stage r ''aggregate_status'' (aggregateStatus r x kept))
          (\<lambda>cluster'. returnE (kept, cluster')))) (\<lambda>_ s'. knows [] [] (world s')) anyhow s2"
        unfolding wp_bindE wp_stage
        by (rule wp_mono [OF wp_cleanupStage])
          (use 2 in \<open>auto simp: wp_simps intro!: wp_mono [OF wp_statusStage]\<close>)
      moreover have "wp (returnE (L, x)) (\<lambda>_ s'. knows [] [] (world s')) anyhow s2"
        using 2 forgotten by (auto simp: wp_simps)
      ultimately show ?case
        by (cases "L = []") (auto simp: wp_simps elim!: wp_mono)
    qed simp
  qed simp
qed simp

text \<open>A reconcile keeps the configs numbered, whatever happens between its requests.\<close>

lemma keeps_Reconcile: "keeps (\<lambda>s. knows [] [] (world s)) (Reconcile r key)"
proof (rule keepsI)
  fix s res s' assume know: "knows [] [] (world s)" and run: "Reconcile r key s = (res, s')"
  have "wp (Reconcile r key) (\<lambda>_ s'. knows [] [] (world s')) anyhow s"
    unfolding Reconcile_def wp_bindE wp_attemptE wp_inWorld
  proof (rule wp_mono [OF wp_redkey [OF know]], goal_cases)
    case (1 x w)
    have "sp_Primaries (rk_Spec x) \<noteq> 0" using redkeysOkD(5) [OF numberedD(4) [OF 1], of x] by simp
    with keeps_reconcileCluster [of x "s\<lparr>world := w\<rparr>"] 1 show ?case by simp
  next
    case (2 e w)
    then show ?case by (simp add: wp_simps)
  qed
  with run show "knows [] [] (world s')" by (cases res) (simp_all add: wp_def)
qed

end

subsection \<open>Caches of the in-memory server\<close>

text \<open>
  The server of \<open>Mem_World\<close> with a cache for one Redkey and its configs: the versions that the cache has not
  followed yet are kept, and a schedule tells how many of them it drops before each read. Its metrics are not kept.
\<close>

record lag =
  server :: mem
  seenRedkeys :: "Redkey list"
  seenConfigs :: "RedkeyConfig list list"
  schedule :: "(nat \<times> nat) list"

definition lagObs :: "nsname \<Rightarrow> lag \<Rightarrow> views" where
  "lagObs key w = \<lparr>
     redkeyViews = seenRedkeys w @ (case fmlookup (s_Redkeys (m_Store (server w))) key of None \<Rightarrow> [] | Some x \<Rightarrow> [x]),
     configViews = seenConfigs w @ [filter (configMatches (fst key) (configSelector key)) (s_Configs (m_Store (server w)))]\<rparr>"

definition catchUpNow :: "nsname \<Rightarrow> lag \<Rightarrow> lag" where
  "catchUpNow key w =
     (case schedule w of
        [] \<Rightarrow> w
      | (i, j) # rest \<Rightarrow>
          if fmlookup (s_Redkeys (m_Store (server w))) key = None then w\<lparr>schedule := rest\<rparr>
          else w\<lparr>schedule := rest, seenRedkeys := drop i (seenRedkeys w), seenConfigs := drop j (seenConfigs w)\<rparr>)"

definition lagRun :: "(lag \<Rightarrow> lag) \<Rightarrow> (mem, 'a) io \<Rightarrow> (lag, 'a) io" where
  "lagRun push m w =
     (case m (server w) of
        (Inl e, l) \<Rightarrow> (Inl e, w\<lparr>server := l\<rparr>)
      | (Inr x, l) \<Rightarrow> (Inr x, (push w)\<lparr>server := l\<rparr>))"

definition pushRedkey :: "nsname \<Rightarrow> nsname \<Rightarrow> lag \<Rightarrow> lag" where
  "pushRedkey key k w = (if k = key then w\<lparr>seenRedkeys := redkeyViews (lagObs key w)\<rparr> else w)"

definition pushConfigs :: "nsname \<Rightarrow> lag \<Rightarrow> lag" where
  "pushConfigs key w = w\<lparr>seenConfigs := configViews (lagObs key w)\<rparr>"

definition lagGet :: "nsname \<Rightarrow> nsname \<Rightarrow> (lag, Redkey) io" where
  "lagGet key k w =
     (if k \<noteq> key then lagRun id (memGetRedkey k) w
      else (let w' = catchUpNow key w in
            case redkeyViews (lagObs key w') of [] \<Rightarrow> (Inl NotFound, w') | x # _ \<Rightarrow> (Inr x, w')))"

definition lagList :: "nsname \<Rightarrow> string \<Rightarrow> strmap \<Rightarrow> (lag, RedkeyConfig list) io" where
  "lagList key ns m w =
     (if (ns, m) \<noteq> (fst key, configSelector key) then lagRun id (memList ns m) w
      else (let w' = catchUpNow key w in (Inr (hd (configViews (lagObs key w'))), w')))"

definition lagKind :: "(lag \<Rightarrow> lag) \<Rightarrow> (mem, 'a) KindClient \<Rightarrow> (lag, 'a) KindClient" where
  "lagKind push K =
     \<lparr>kGet = (\<lambda>k. lagRun id (kGet K k)), kCreate = (\<lambda>x. lagRun push (kCreate K x)),
      kPatch = (\<lambda>b x. lagRun push (kPatch K b x)), kDelete = (\<lambda>k. lagRun push (kDelete K k))\<rparr>"

definition lagReconciler :: "nsname \<Rightarrow> lag RedkeyReconciler" where
  "lagReconciler key =
     \<lparr>getRedkey = lagGet key, updateRedkeyStatus = (\<lambda>x. lagRun (pushRedkey key (metaKey (rk_Meta x))) (memUpdateStatus x)),
      listRedkeyConfigs = lagList key, redkeyConfigs = lagKind (pushConfigs key) memConfigs,
      serviceAccounts = lagKind id (serviceAccounts memReconciler), roles = lagKind id (roles memReconciler),
      roleBindings = lagKind id (roleBindings memReconciler), deployments = lagKind id (deployments memReconciler),
      setControllerReference = memSetRef, findStatusCondition = memFind, setStatusCondition = memSet,
      deepEqualMap = deepEqualMap memReconciler, deepEqualRules = deepEqualRules memReconciler,
      deepEqualSubjects = deepEqualSubjects memReconciler, deepDerivative = memDerivative,
      retryOnConflict = retryRuns 4,
      timeNow = (\<lambda>w. (fst (timeNow memReconciler (server w)), w\<lparr>server := snd (timeNow memReconciler (server w))\<rparr>)),
      gaugeSet = (\<lambda>_ _ _ w. w), deletePartialMatch = (\<lambda>_ _ w. w), counterInc = (\<lambda>_ _ w. w),
      histObserve = (\<lambda>_ _ _ w. w),
      ResyncInterval = 300000000000, MaxConcurrentReconciles = 10\<rparr>"

lemma lagReconciler_sel [simp]:
  "getRedkey (lagReconciler key) = lagGet key" "listRedkeyConfigs (lagReconciler key) = lagList key"
  "updateRedkeyStatus (lagReconciler key) = (\<lambda>x. lagRun (pushRedkey key (metaKey (rk_Meta x))) (memUpdateStatus x))"
  "redkeyConfigs (lagReconciler key) = lagKind (pushConfigs key) memConfigs"
  "serviceAccounts (lagReconciler key) = lagKind id (serviceAccounts memReconciler)"
  "roles (lagReconciler key) = lagKind id (roles memReconciler)"
  "roleBindings (lagReconciler key) = lagKind id (roleBindings memReconciler)"
  "deployments (lagReconciler key) = lagKind id (deployments memReconciler)"
  "setControllerReference (lagReconciler key) = memSetRef" "retryOnConflict (lagReconciler key) = retryRuns 4"
  by (simp_all add: lagReconciler_def)

lemma lagObs_same:
  assumes "s_Redkeys (m_Store l) = s_Redkeys (m_Store (server w))" and "s_Configs (m_Store l) = s_Configs (m_Store (server w))"
  shows "lagObs key (w\<lparr>server := l\<rparr>) = lagObs key w"
  by (simp add: lagObs_def assms)

lemma lagObs_catchUp: "drift\<^sup>*\<^sup>* (lagObs key w) (lagObs key (catchUpNow key w))"
proof (cases "schedule w = [] \<or> fmlookup (s_Redkeys (m_Store (server w))) key = None")
  case True
  then have "lagObs key (catchUpNow key w) = lagObs key w"
    by (auto simp: catchUpNow_def lagObs_def split: list.split)
  then show ?thesis by simp
next
  case False
  then obtain i j rest x where s: "schedule w = (i, j) # rest" "fmlookup (s_Redkeys (m_Store (server w))) key = Some x"
    by (cases "schedule w") auto
  let ?i = "min i (length (seenRedkeys w))" and ?j = "min j (length (seenConfigs w))"
  have "lagObs key (catchUpNow key w) =
      \<lparr>redkeyViews = drop ?i (redkeyViews (lagObs key w)), configViews = drop ?j (configViews (lagObs key w))\<rparr>"
    by (auto simp: catchUpNow_def s lagObs_def min_def)
  moreover have "?i < length (redkeyViews (lagObs key w))" "?j < length (configViews (lagObs key w))"
    by (simp_all add: lagObs_def s)
  ultimately show ?thesis using drift.catchUp by (metis r_into_rtranclp)
qed

text \<open>A request on objects of another kind.\<close>

abbreviation sameStored :: "mem \<Rightarrow> mem \<Rightarrow> bool" where
  "sameStored l l' \<equiv> s_Redkeys (m_Store l') = s_Redkeys (m_Store l) \<and> s_Configs (m_Store l') = s_Configs (m_Store l)"

lemma lagRun_same:
  assumes "\<And>l. sameStored l (snd (m l))"
  shows "lagObs key (snd (lagRun id m w)) = lagObs key w"
  using assms [of "server w"] by (auto simp: lagRun_def lagObs_same split: prod.split sum.split)

lemma lagKind_keeps:
  assumes "\<And>f st. s_Redkeys (upd f st) = s_Redkeys st \<and> s_Configs (upd f st) = s_Configs st"
  shows "kindKeeps (\<lambda>w. drift\<^sup>*\<^sup>* v (lagObs key w)) (lagKind id (memKind proj upd k stamp))"
  unfolding kindKeeps_def keeps_def
  by (auto simp: lagKind_def memKind_def putStore_def assms lagRun_same)

text \<open>The configs.\<close>

lemma lagObs_push:
  "lagObs key ((pushConfigs key w)\<lparr>server := l\<rparr>) =
     \<lparr>redkeyViews = redkeyViews (lagObs key (w\<lparr>server := l\<rparr>)),
      configViews = configViews (lagObs key w) @
        [filter (configMatches (fst key) (configSelector key)) (s_Configs (m_Store l))]\<rparr>"
  by (simp add: lagObs_def pushConfigs_def)

lemma lag_create:
  assumes "kCreate (redkeyConfigs (lagReconciler key)) c w = (Inr u, w')" and "configMatches (fst key) (configSelector key) c"
  shows "\<exists>v y. drift\<^sup>*\<^sup>* (lagObs key w) v \<and> configKey c \<notin> configKey ` set (liveConfigs v) \<and> storedConfig c y \<and>
    lagObs key w' = withConfigs (liveConfigs v @ [y]) v"
proof -
  let ?y = "freshConfig (server w) c"
  from assms(1) have free: "configKey c \<notin> configKey ` set (s_Configs (m_Store (server w)))"
    and w': "w' = (pushConfigs key w)\<lparr>server := putStore (s_Configs_update (\<lambda>cs. cs @ [?y])) (server w)\<rparr>"
    by (auto simp: lagKind_def lagRun_def memConfigs_def split: if_splits)
  have "configMatches (fst key) (configSelector key) ?y"
    using assms(2) storedConfig_fresh [of c "server w"] by (auto simp: configMatches_def storedConfig_def sameMeta_def)
  then have "lagObs key w' = withConfigs (liveConfigs (lagObs key w) @ [?y]) (lagObs key w)"
    by (simp add: w' lagObs_push withConfigs_def) (simp add: lagObs_def putStore_def)
  moreover have "configKey c \<notin> configKey ` set (liveConfigs (lagObs key w))" using free by (auto simp: lagObs_def)
  ultimately show ?thesis using storedConfig_fresh by blast
qed

lemma lag_delete:
  assumes "kDelete (redkeyConfigs (lagReconciler key)) k w = (Inr u, w')"
  shows "\<exists>v. drift\<^sup>*\<^sup>* (lagObs key w) v \<and> lagObs key w' = withConfigs (filter (\<lambda>c. configKey c \<noteq> k) (liveConfigs v)) v"
proof -
  have "w' = (pushConfigs key w)\<lparr>server := putStore (s_Configs_update (filter (\<lambda>c. configKey c \<noteq> k))) (server w)\<rparr>"
    using assms by (auto simp: lagKind_def lagRun_def memConfigs_def split: if_splits)
  then have "lagObs key w' = withConfigs (filter (\<lambda>c. configKey c \<noteq> k) (liveConfigs (lagObs key w))) (lagObs key w)"
    by (simp add: lagObs_push withConfigs_def) (simp add: lagObs_def putStore_def conj_commute)
  then show ?thesis by blast
qed

text \<open>The status of the Redkey.\<close>

lemma lag_status: "drift\<^sup>*\<^sup>* (lagObs key w) (lagObs key (snd (updateRedkeyStatus (lagReconciler key) x w)))"
proof (cases "memUpdateStatus x (server w)")
  case (Pair res l)
  show ?thesis
  proof (cases "isl res \<or> metaKey (rk_Meta x) \<noteq> key")
    case True
    with Pair have "lagObs key (snd (updateRedkeyStatus (lagReconciler key) x w)) = lagObs key w"
      by (auto simp: lagRun_def pushRedkey_def memUpdateStatus_def Let_def putStore_def lagObs_def
          split: option.splits if_splits)
    then show ?thesis by simp
  next
    case False
    with Pair obtain y where run: "updateRedkeyStatus memReconciler x (server w) = (Inr y, l)" and res: "res = Inr y"
      by (cases res) auto
    from mem_kube.status_ok [OF run] False obtain old where old: "fmlookup (s_Redkeys (m_Store (server w))) key = Some old"
      and y: "withStatus old (rk_Status x) y" and l: "m_Store l = s_Redkeys_update (fmupd key y) (m_Store (server w))"
      by auto
    have "lagObs key (snd (updateRedkeyStatus (lagReconciler key) x w)) =
        (lagObs key w)\<lparr>redkeyViews := redkeyViews (lagObs key w) @ [y]\<rparr>"
      using False Pair by (simp add: lagRun_def pushRedkey_def res) (simp add: lagObs_def old l)
    moreover have "last (redkeyViews (lagObs key w)) = old" by (simp add: lagObs_def old)
    ultimately show ?thesis using drift.status y by (metis r_into_rtranclp)
  qed
qed

text \<open>The laws.\<close>

lemma lag_metrics: "metrics_frame (lagReconciler key) (lagObs key)"
  by unfold_locales (simp_all add: lagReconciler_def lagObs_def)

lemma lag_reads:
  "lagGet key key w = (Inr x, w') \<Longrightarrow> x = hd (redkeyViews (lagObs key w'))"
  "drift\<^sup>*\<^sup>* (lagObs key w) (lagObs key (snd (lagGet key k w)))"
  "lagList key (fst key) (configSelector key) w = (Inr cs, w') \<Longrightarrow> mset cs = mset (hd (configViews (lagObs key w')))"
  "drift\<^sup>*\<^sup>* (lagObs key w) (lagObs key (snd (lagList key ns m w)))"
  using lagObs_catchUp [of key w]
  by (auto simp: lagGet_def lagList_def Let_def lagRun_same memGetRedkey_def memList_def split: list.splits)

lemma lag_refused:
  "kCreate (redkeyConfigs (lagReconciler key)) c w = (Inl e, w') \<Longrightarrow> drift\<^sup>*\<^sup>* (lagObs key w) (lagObs key w')"
  "kDelete (redkeyConfigs (lagReconciler key)) k w = (Inl e, w') \<Longrightarrow> drift\<^sup>*\<^sup>* (lagObs key w) (lagObs key w')"
  by (auto simp: lagKind_def lagRun_def memConfigs_def split: if_splits)

lemma lag_kinds:
  "kindKeeps (\<lambda>w. drift\<^sup>*\<^sup>* v (lagObs key w)) (serviceAccounts (lagReconciler key))"
  "kindKeeps (\<lambda>w. drift\<^sup>*\<^sup>* v (lagObs key w)) (roles (lagReconciler key))"
  "kindKeeps (\<lambda>w. drift\<^sup>*\<^sup>* v (lagObs key w)) (roleBindings (lagReconciler key))"
  "kindKeeps (\<lambda>w. drift\<^sup>*\<^sup>* v (lagObs key w)) (deployments (lagReconciler key))"
  unfolding lagReconciler_sel memReconciler_def by (simp_all add: lagKind_keeps)

lemma lag_laws: "lagging_client (lagReconciler key) (lagObs key) key"
proof -
  have "owner_lib (setControllerReference (lagReconciler key))" "retry_lib (retryOnConflict (lagReconciler key))"
    by (simp_all add: mem_owner.owner_lib_axioms retry_lib_def) blast
  moreover have "lagging_client_axioms (lagReconciler key) (lagObs key) key"
    using lag_reads lag_status lag_create lag_refused lag_kinds lag_delete
    by unfold_locales (simp_all del: lagReconciler_sel(3-8))
  ultimately show ?thesis using lag_metrics by (simp add: lagging_client_def)
qed

interpretation lag_client: lagging_client "lagReconciler key" "lagObs key" key for key
  by (rule lag_laws)

subsection \<open>Any history\<close>

text \<open>
  Reconciles of the Redkey, one at a time as the work queue of the controller promises, between which and in
  which anything may happen that \<open>drift\<close> allows.
\<close>

inductive lagStep ::
  "('w, 'z) RedkeyReconciler_scheme \<Rightarrow> ('w \<Rightarrow> views) \<Rightarrow> nsname \<Rightarrow> 'w rstate \<Rightarrow> 'w rstate \<Rightarrow> bool"
  for r obs key where
  meanwhile: "drift (obs (world s)) (obs (world s')) \<Longrightarrow> lagStep r obs key s s'"
| operate: "Reconcile r key s = (res, s') \<Longrightarrow> lagStep r obs key s s'"

text \<open>A Redkey with primaries that was just created.\<close>

definition created :: "nsname \<Rightarrow> views \<Rightarrow> bool" where
  "created key v \<longleftrightarrow> configViews v = [[]] \<and> (case redkeyViews v of
     [x] \<Rightarrow> NamespacedName x = key \<and> 1 \<le> genOf x \<and> sp_Primaries (rk_Spec x) \<noteq> 0
   | _ \<Rightarrow> False)"

lemma created_numbered: "created key v \<Longrightarrow> numbered key [] [] v"
  by (auto simp: created_def numbered_def inStep_def redkeysOk_def configsOk_def nextTaken_def inOrder_def split: list.splits)

lemma inOrder_iff:
  assumes "inOrder C" and "x \<in> C" and "y \<in> C"
  shows "seqOf x < seqOf y \<longleftrightarrow> generationOf x < generationOf y"
proof -
  have "(seqOf a < seqOf b \<longrightarrow> generationOf a < generationOf b) \<and> (seqOf a = seqOf b \<longrightarrow> generationOf a = generationOf b)"
    if "a \<in> C" "b \<in> C" for a b using assms(1) that unfolding inOrder_def by blast
  from this [OF assms(2,3)] this [OF assms(3,2)] show ?thesis by linarith
qed

lemma lagStep_numbered:
  assumes "lagging_client r obs key" and "lagStep r obs key s s'" and "numbered key [] [] (obs (world s))"
  shows "numbered key [] [] (obs (world s'))"
  using assms(2)
proof cases
  case meanwhile
  from drift_numbered [OF assms(3) meanwhile] show ?thesis .
next
  case (operate res)
  show ?thesis using lagging_client.keeps_Reconcile [OF assms(1)] assms(3) operate by (rule keepsD)
qed

lemma lagSteps_numbered:
  assumes "lagging_client r obs key" and "(lagStep r obs key)\<^sup>*\<^sup>* s s'" and "numbered key [] [] (obs (world s))"
  shows "numbered key [] [] (obs (world s'))"
  using assms(2,3) by induction (auto intro: lagStep_numbered [OF assms(1)])

text \<open>
  C5. Stale caches do not put the configs out of order. The reconciles of a Redkey that keeps its primaries may
  read the Redkey and the list of its configs from caches that lag behind by any number of versions, each on its
  own, while the user edits the spec and Robin reports between any two requests. From its creation on, the stored
  configs have different names, a config has a higher number than another one exactly when it is for a later
  generation, none is for a generation after the stored one, and one for the stored generation has its topology.
\<close>

theorem lagging_configs_in_order:
  assumes "lagging_client r obs key" and "created key (obs (world s))" and "(lagStep r obs key)\<^sup>*\<^sup>* s s'"
  shows "let cluster = last (redkeyViews (obs (world s'))); configs = liveConfigs (obs (world s')) in
    distinct (map configKey configs) \<and>
    (\<forall>c \<in> set configs. \<forall>d \<in> set configs. seqOf c < seqOf d \<longleftrightarrow> generationOf c < generationOf d) \<and>
    (\<forall>c \<in> set configs. generationOf c \<le> genOf cluster \<and>
       (generationOf c = genOf cluster \<longrightarrow> configTopology c = specTopology (rk_Spec cluster)))"
proof -
  let ?v = "obs (world s')"
  let ?cluster = "last (redkeyViews ?v)" and ?configs = "set (liveConfigs ?v)"
  note n = numberedD [OF lagSteps_numbered [OF assms(1,3) created_numbered [OF assms(2)]]]
  note d = inStepD [OF n(3)] and k = redkeysOkD [OF n(4)] and c = configsOkD [OF n(5)]
  have sub: "x \<in> set (concat ([] @ configViews ?v))" if "x \<in> ?configs" for x
    using that c(3) by auto
  have "map configKey (liveConfigs ?v) =
      map (\<lambda>i. (fst key, sprintfNameNum (snd key) i)) (map configSeq (liveConfigs ?v))"
    using c(7) [OF sub] by (simp add: namedConfig_def)
  then have "distinct (map configKey (liveConfigs ?v))"
    using c(5) [OF c(3)] by (simp add: distinct_map inj_on_def flip: map_map)
  moreover have "seqOf x < seqOf y \<longleftrightarrow> generationOf x < generationOf y" if "x \<in> ?configs" "y \<in> ?configs" for x y
    by (rule inOrder_iff [OF c(8) sub [OF that(1)] sub [OF that(2)]])
  moreover have "generationOf x \<le> genOf ?cluster" if "x \<in> ?configs" for x
    using d(3) [OF sub [OF that]] k(7) [OF k(3)] by simp
  moreover have "configTopology x = specTopology (rk_Spec ?cluster)" if "x \<in> ?configs" "generationOf x = genOf ?cluster" for x
    using d(4) [OF sub [OF that(1)] k(3)] that(2) by simp
  ultimately show ?thesis unfolding Let_def by blast
qed


text \<open>A history of the sample in which the cache of the configs never moves.\<close>

definition lagStart :: "(nat \<times> nat) list \<Rightarrow> lag rstate" where
  "lagStart sched = \<lparr>world = \<lparr>server = memWith [sampleRedkey] [], seenRedkeys = [], seenConfigs = [], schedule = sched\<rparr>,
     opActive = fmempty, lastPhase = fmempty\<rparr>"

abbreviation demo :: nsname where
  "demo \<equiv> (''ns'', ''demo'')"

lemma lagStart_created: "created demo (lagObs demo (world (lagStart sched)))"
  by (simp add: created_def lagObs_def lagStart_def NamespacedName_def) (simp add: sampleRedkey_def sampleSpec_def)

theorem lagging_configs_in_order_witness:
  "let s = snd (Reconcile (lagReconciler demo) demo (lagStart [])); v = lagObs demo (world s) in
     map seqOf (liveConfigs v) = [1] \<and> hd (configViews v) = [] \<and>
     (\<forall>c \<in> set (liveConfigs v). generationOf c \<le> genOf (last (redkeyViews v)))"
proof -
  let ?s = "snd (Reconcile (lagReconciler demo) demo (lagStart []))"
  let ?v = "lagObs demo (world ?s)"
  have "(lagStep (lagReconciler demo) (lagObs demo) demo)\<^sup>*\<^sup>* (lagStart []) ?s"
    by (rule r_into_rtranclp, rule lagStep.operate [OF prod.collapse [symmetric]])
  note lagging_configs_in_order [OF lag_laws lagStart_created this]
  moreover have "map seqOf (liveConfigs ?v) = [1] \<and> hd (configViews ?v) = []" by code_simp
  ultimately show ?thesis unfolding Let_def by blast
qed

end
