(* ===== verification/Stalled.thy ===== *)
theory Stalled
  imports Stale_Reads
begin

section \<open>A generation that is not published\<close>

text \<open>
  The configs stay in order on stale caches because \<^verbatim>\<open>createNewConfig\<close> takes a name that is taken for its own
  earlier config. It may be the one of an earlier generation. The generation in hand then gets no config, but
  \<^verbatim>\<open>aggregateStatus\<close> reports it as observed, and with that no later reconcile publishes it.
\<close>

subsection \<open>Observed but not published\<close>

text \<open>
  The Redkey asks for primaries, its generation is observed and its configs are all of earlier generations.
\<close>

definition stalled :: "nsname \<Rightarrow> store \<Rightarrow> bool" where
  "stalled key st \<longleftrightarrow> wfStore st \<and> wfConfigs st \<and>
     (case fmlookup (s_Redkeys st) key of
        None \<Rightarrow> False
      | Some cluster \<Rightarrow> noRevision (rk_Spec cluster) \<and> sp_Primaries (rk_Spec cluster) \<noteq> 0 \<and>
          st_ObservedGeneration (rk_Status cluster) = Generation (rk_Meta cluster) \<and>
          distinct (map configSeq (clusterConfigs cluster st)) \<and> clusterConfigs cluster st \<noteq> [] \<and>
          (\<forall>c \<in> set (clusterConfigs cluster st). generationOf c < genOf cluster))"

definition storedGeneration :: "nsname \<Rightarrow> store \<Rightarrow> int option" where
  "storedGeneration key st = map_option genOf (fmlookup (s_Redkeys st) key)"

lemma stalledE:
  assumes "stalled key st"
  obtains cluster where "fmlookup (s_Redkeys st) key = Some cluster" and "NamespacedName cluster = key"
    and "wfStore st" and "wfConfigs st" and "noRevision (rk_Spec cluster)" and "sp_Primaries (rk_Spec cluster) \<noteq> 0"
    and "st_ObservedGeneration (rk_Status cluster) = Generation (rk_Meta cluster)"
    and "distinct (map configSeq (clusterConfigs cluster st))" and "clusterConfigs cluster st \<noteq> []"
    and "\<And>c. c \<in> set (clusterConfigs cluster st) \<Longrightarrow> generationOf c < genOf cluster"
  using assms by (auto simp: stalled_def wfStore_def split: option.splits dest: keyedD)

lemma observed_not_needed:
  "st_ObservedGeneration (rk_Status cluster) = Generation (rk_Meta cluster) \<Longrightarrow> \<not> needsNewConfig cluster h"
  by (simp add: needsNewConfig_def)

lemma stalled_reconciled:
  assumes st: "stalled key st" and c: "fmlookup (s_Redkeys st) key = Some cluster"
    and rec: "reconciled r cluster cluster cs now a new st st' cs'" and cs: "configsView cluster st cs"
  shows "stalled key st' \<and> storedGeneration key st' = storedGeneration key st"
proof -
  from stalledE [OF st] c obtain key: "NamespacedName cluster = key" and s: "noRevision (rk_Spec cluster)" "sp_Primaries (rk_Spec cluster) \<noteq> 0"
    and obs: "st_ObservedGeneration (rk_Status cluster) = Generation (rk_Meta cluster)"
    and ne: "clusterConfigs cluster st \<noteq> []" and old: "\<forall>c \<in> set (clusterConfigs cluster st). generationOf c < genOf cluster"
    by (metis option.inject)
  have new: "rk_Spec new = rk_Spec cluster" "Generation (rk_Meta new) = Generation (rk_Meta cluster)"
    "st_ObservedGeneration (rk_Status new) = Generation (rk_Meta cluster)" "metaKey (rk_Meta new) = metaKey (rk_Meta cluster)"
    using rec by (simp_all add: reconciled_def withStatus_def aggregatedStatus_def Let_def)
  have stored: "fmlookup (s_Redkeys st') key = Some new" using rec key by (simp add: reconciled_def)
  have same: "clusterConfigs new st' = clusterConfigs cluster st'"
    using new(4) by (simp add: clusterConfigs_def clusterSelector_def metaKey_def)
  have "cs \<noteq> []" using cs ne by (auto simp: configsView_def)
  with rec observed_not_needed [OF obs] have "set (s_Configs st') \<subseteq> set (s_Configs st)"
    by (simp add: reconciled_def configsGrow_def)
  then have older: "generationOf c < genOf new" if "c \<in> set (clusterConfigs new st')" for c
    using that old unfolding same new(2) by (auto simp: clusterConfigs_def)
  have log: "configLog cluster st' cs'" and "selectActiveConfig cs' = Some a" using rec by (simp_all add: reconciled_def)
  then have ne': "cs' \<noteq> []" by (auto simp: selectActiveConfig_def)
  from log have m: "mset cs' = mset (clusterConfigs new st')" by (simp add: configLog_def configsView_def same)
  then have "distinct (map configSeq (clusterConfigs new st'))" 
    using log by (metis configLog_def mset_eq_imp_distinct_iff mset_map)
  with stored new s ne' m older rec log show ?thesis
    by (auto simp: stalled_def reconciled_def configLog_def storedGeneration_def c)
qed

lemma stalled_report:
  assumes st: "stalled key st" and c: "s_Configs st = pre @ c # post" and rep: "robinReport c c'"
  shows "stalled key (s_Configs_update (\<lambda>_. pre @ c' # post) st)"
proof -
  note same = robinReport_same [OF rep]
  show ?thesis
    using st by (auto simp: stalled_def clusterConfigs_def wfStore_def wfConfigs_def c same split: option.splits if_splits)
qed

lemma stalled_operate:
  assumes writer: "status_writer r api False" and st: "stalled key (api (world s))"
  shows "wp (Reconcile r key) (\<lambda>_ s'. stalled key (api (world s')) \<and>
    storedGeneration key (api (world s')) = storedGeneration key (api (world s))) (\<lambda>_ _. False) s"
proof -
  from st obtain cluster where c: "fmlookup (s_Redkeys (api (world s))) key = Some cluster" by (rule stalledE)
  let ?C = "clusterConfigs cluster (api (world s))"
  have view: "configsView cluster (api (world s)) (sortConfigs ?C)" by (rule configsView_sort)
  from stalledE [OF st] c have d: "wfStore (api (world s))" "sp_Primaries (rk_Spec cluster) \<noteq> 0" "noRevision (rk_Spec cluster)"
    and wf: "wfConfigs (api (world s))" and dist: "distinct (map configSeq ?C)" and ne: "?C \<noteq> []"
    and obs: "st_ObservedGeneration (rk_Status cluster) = Generation (rk_Meta cluster)"
    by (metis option.inject)+
  have log: "configLog cluster (api (world s)) (sortConfigs ?C)"
    using view dist wf unfolding configLog_def by (metis mset_eq_imp_distinct_iff mset_map mset_sortConfigs)
  have can: "canPublish cluster (sortConfigs ?C) (api (world s))"
    using ne observed_not_needed [OF obs] by (auto simp: canPublish_def dest: arg_cong [where f = mset])
  show ?thesis
    by (rule status_writer.wp_Reconcile [OF writer d(1) c d(2,3) log can])
      (use stalled_reconciled [OF st c _ view] in blast)+
qed

text \<open>Steps of the life cycle other than an edit, which starts a new generation.\<close>

definition quietStep ::
  "('w, 'z) RedkeyReconciler_scheme \<Rightarrow> ('w \<Rightarrow> store) \<Rightarrow> nsname \<Rightarrow> 'w rstate \<Rightarrow> 'w rstate \<Rightarrow> bool" where
  "quietStep r api key s s' \<longleftrightarrow> lifeStep r api key s s' \<and>
     storedGeneration key (api (world s')) = storedGeneration key (api (world s))"

lemma stalled_step:
  assumes writer: "status_writer r api False" and step: "quietStep r api key s s'" and st: "stalled key (api (world s))"
  shows "stalled key (api (world s'))"
proof -
  from step have "lifeStep r api key s s'" and gen: "storedGeneration key (api (world s')) = storedGeneration key (api (world s))"
    by (simp_all add: quietStep_def)
  from this(1) show ?thesis
  proof cases
    case (edit old spec new)
    with gen show ?thesis by (simp add: storedGeneration_def edited_def)
  next
    case (report pre c post c')
    with stalled_report [OF st] show ?thesis by simp
  next
    case (operate res)
    with stalled_operate [OF writer st] show ?thesis by (cases res) (simp_all add: wp_def)
  qed
qed

text \<open>
  C6. The no-op for a name that is taken can lose a generation. Once a generation of a Redkey is observed while all
  of its configs are of earlier generations, no number of reconciles and of reports by Robin publishes a config
  for it, although the caches are up to date and no request fails, until the next edit of the spec.
\<close>

theorem stalled_until_edited:
  assumes "status_writer r api False" and "stalled key (api (world s))" and "(quietStep r api key)\<^sup>*\<^sup>* s s'"
  shows "storedGeneration key (api (world s')) = storedGeneration key (api (world s)) \<and>
    (\<exists>cluster. fmlookup (s_Redkeys (api (world s'))) key = Some cluster \<and>
       st_ObservedGeneration (rk_Status cluster) = Generation (rk_Meta cluster) \<and>
       (\<forall>c \<in> set (clusterConfigs cluster (api (world s'))). generationOf c < genOf cluster))"
proof -
  from assms(3,2) have "stalled key (api (world s')) \<and> storedGeneration key (api (world s')) = storedGeneration key (api (world s))"
    by induction (auto simp: quietStep_def intro: stalled_step [OF assms(1), unfolded quietStep_def])
  then show ?thesis by (auto elim!: stalledE)
qed

subsection \<open>How it comes about\<close>

text \<open>
  The sample is reconciled once and publishes its first config. The user then asks for five primaries. The next
  reconcile reads the new spec, but lists the configs before the cache shows the first one.
\<close>

definition stallStart :: "lag rstate" where
  "stallStart = lagStart [(0, 0), (0, 0), (0, 0), (1, 0), (0, 0), (0, 1), (0, 0)]"

definition published :: "lag rstate" where
  "published = snd (Reconcile (lagReconciler demo) demo stallStart)"

definition fivePrimaries :: Redkey where
  "fivePrimaries = sampleRedkey\<lparr>rk_Meta := (rk_Meta sampleRedkey)\<lparr>Generation := 2\<rparr>, rk_Spec := sampleSpec\<lparr>sp_Primaries := 5\<rparr>\<rparr>"

definition edit :: "Redkey \<Rightarrow> lag \<Rightarrow> lag" where
  "edit new w = (pushRedkey demo demo w)\<lparr>server := putStore (s_Redkeys_update (fmupd demo new)) (server w)\<rparr>"

definition missed :: "lag rstate" where
  "missed = snd (Reconcile (lagReconciler demo) demo (published\<lparr>world := edit fivePrimaries (world published)\<rparr>))"

lemma generation_one: "configGeneration c = ''1'' \<Longrightarrow> generationOf c = 1"
proof -
  have "FormatInt 1 = ''1''" by code_simp
  then have "ParseInt ''1'' = Some 1" using ParseInt_FormatInt [of 1] by simp
  then show "configGeneration c = ''1'' \<Longrightarrow> generationOf c = 1" by (simp add: generationOf_def)
qed

text \<open>The second reconcile leaves the first config alone with the new generation on record as observed.\<close>

lemma missed_run:
  "let st = m_Store (server (world missed)) in wfStore st \<and> wfConfigs st \<and>
     (case fmlookup (s_Redkeys st) demo of
        None \<Rightarrow> False
      | Some cluster \<Rightarrow> noRevision (rk_Spec cluster) \<and> sp_Primaries (rk_Spec cluster) = 5 \<and>
          st_ObservedGeneration (rk_Status cluster) = 2 \<and> Generation (rk_Meta cluster) = 2 \<and>
          map configSeq (clusterConfigs cluster st) = [1] \<and> map configGeneration (clusterConfigs cluster st) = [''1''])"
  by code_simp

lemma missed_stalled: "stalled demo (m_Store (server (world missed)))"
  using missed_run by (auto simp: stalled_def Let_def generation_one split: option.splits)

lemma edit_drift:
  assumes "edited (last (redkeyViews (lagObs demo w))) (rk_Spec new) new" and "sp_Primaries (rk_Spec new) \<noteq> 0"
    and "fmlookup (s_Redkeys (m_Store (server w))) demo = Some old"
  shows "drift (lagObs demo w) (lagObs demo (edit new w))"
proof -
  have "lagObs demo (edit new w) = (lagObs demo w)\<lparr>redkeyViews := redkeyViews (lagObs demo w) @ [new]\<rparr>"
    by (simp add: edit_def pushRedkey_def putStore_def) (simp add: lagObs_def assms(3))
  with drift.edit [OF assms(1,2)] show ?thesis by simp
qed

lemma published_edit:
  "edited (last (redkeyViews (lagObs demo (world published)))) (rk_Spec fivePrimaries) fivePrimaries \<and>
   sp_Primaries (rk_Spec fivePrimaries) \<noteq> 0 \<and>
   fmlookup (s_Redkeys (m_Store (server (world published)))) demo \<noteq> None"
  by code_simp

lemma missed_history: "(lagStep (lagReconciler demo) (lagObs demo) demo)\<^sup>*\<^sup>* stallStart missed"
proof -
  let ?step = "lagStep (lagReconciler demo) (lagObs demo) demo"
  have 1: "?step stallStart published"
    unfolding published_def by (rule lagStep.operate [OF prod.collapse [symmetric]])
  have "drift (lagObs demo (world published)) (lagObs demo (edit fivePrimaries (world published)))"
    using published_edit edit_drift by blast
  then have 2: "?step published (published\<lparr>world := edit fivePrimaries (world published)\<rparr>)"
    by (intro lagStep.meanwhile) simp
  have 3: "?step (published\<lparr>world := edit fivePrimaries (world published)\<rparr>) missed"
    unfolding missed_def by (rule lagStep.operate [OF prod.collapse [symmetric]])
  from 1 2 3 show ?thesis by (meson converse_rtranclp_into_rtranclp rtranclp.rtrancl_refl)
qed

text \<open>From there on the operator, with caches that are up to date, never publishes the second generation.\<close>

theorem stalled_until_edited_witness:
  "(lagStep (lagReconciler demo) (lagObs demo) demo)\<^sup>*\<^sup>* stallStart missed \<and>
   (let st = m_Store (world (snd (Reconcile memReconciler demo (freshState (server (world missed)))))) in
      storedGeneration demo st = Some 2 \<and>
      (\<exists>cluster. fmlookup (s_Redkeys st) demo = Some cluster \<and>
         (\<forall>c \<in> set (clusterConfigs cluster st). generationOf c < genOf cluster)))"
proof -
  let ?s = "freshState (server (world missed))"
  let ?s' = "snd (Reconcile memReconciler demo ?s)"
  note writer = mem_writer.status_writer_axioms
  have st: "stalled demo (m_Store (world ?s))" by (simp add: missed_stalled)
  have "storedGeneration demo (m_Store (world ?s')) = storedGeneration demo (m_Store (world ?s))"
    using stalled_operate [OF writer st] by (auto simp: wp_def split: prod.splits sum.splits)
  then have "(quietStep memReconciler m_Store demo)\<^sup>*\<^sup>* ?s ?s'"
    by (intro r_into_rtranclp) (simp add: quietStep_def lifeStep.operate [OF prod.collapse [symmetric]])
  from stalled_until_edited [OF writer st this] missed_run missed_history show ?thesis
    by (auto simp: Let_def storedGeneration_def split: option.splits)
qed

end
