(* ===== verification/Same_Requests.thy ===== *)
theory Same_Requests imports Controller begin

section \<open>How the reconciler uses its client\<close>

text \<open>
  The requests and metric updates \<^verbatim>\<open>Reconcile\<close> makes, as an interface: two clients that agree on these are the
  same to it. What the code never does, such as patching a RedkeyConfig or setting a gauge with the wrong
  number of labels, may differ. The theories on permissions and on metrics use it with a client that refuses
  everything else.
\<close>

named_theorems same_rules "operations that are the same with both clients"

subsection \<open>The metric vectors by type\<close>

definition gaugeVecs :: "MetricVec list" where
  "gaugeVecs = [redkeyPhase, redkeyConfigPhase, redkeyOperationInProgress]"

definition counterVecs :: "MetricVec list" where
  "counterVecs =
     [redkeyOperationTotal, redkeyReconcileStageErrors, redkeyConfigCreations, redkeyCleanupDeletedConfigs,
      redkeyRobinDeploymentChanges]"

definition histogramVecs :: "MetricVec list" where
  "histogramVecs = [redkeyOperationDuration, redkeyTimeToReady]"

subsection \<open>Clients that agree\<close>

locale same_requests =
  fixes r r' :: "('w, 'z) RedkeyReconciler_scheme"
  assumes same_redkeys [same_rules]:
      "getRedkey r' = getRedkey r" "updateRedkeyStatus r' = updateRedkeyStatus r"
    and same_configs [same_rules]:
      "listRedkeyConfigs r' = listRedkeyConfigs r" "kCreate (redkeyConfigs r') = kCreate (redkeyConfigs r)"
      "kDelete (redkeyConfigs r') = kDelete (redkeyConfigs r)"
    and same_kinds [same_rules]:
      "serviceAccounts r' = serviceAccounts r" "roleBindings r' = roleBindings r" "deployments r' = deployments r"
      "kGet (roles r') = kGet (roles r)" "kDelete (roles r') = kDelete (roles r)"
    and same_role_writes:
      "Rules x = DesiredRobinRules \<Longrightarrow> kCreate (roles r') x = kCreate (roles r) x"
      "Rules x = DesiredRobinRules \<Longrightarrow> kPatch (roles r') old x = kPatch (roles r) old x"
    and same_libs [same_rules]:
      "setControllerReference r' = setControllerReference r" "findStatusCondition r' = findStatusCondition r"
      "setStatusCondition r' = setStatusCondition r" "deepEqualMap r' = deepEqualMap r"
      "deepEqualRules r' = deepEqualRules r" "deepEqualSubjects r' = deepEqualSubjects r"
      "deepDerivative r' = deepDerivative r" "retryOnConflict r' = retryOnConflict r" "timeNow r' = timeNow r"
      "ResyncInterval r' = ResyncInterval r"
    and same_gauges:
      "vec \<in> set gaugeVecs \<Longrightarrow> length ls = length (snd vec) \<Longrightarrow> gaugeSet r' vec ls = gaugeSet r vec ls"
      "vec \<in> set gaugeVecs \<Longrightarrow> fmdom' m \<subseteq> set (snd vec) \<Longrightarrow>
         deletePartialMatch r' vec m = deletePartialMatch r vec m"
    and same_counters:
      "vec \<in> set counterVecs \<Longrightarrow> length ls = length (snd vec) \<Longrightarrow> counterInc r' vec ls = counterInc r vec ls"
    and same_histograms:
      "vec \<in> set histogramVecs \<Longrightarrow> length ls = length (snd vec) \<Longrightarrow> histObserve r' vec ls = histObserve r vec ls"
begin

lemma same_roles [same_rules]:
  "kCreate (roles r') (desiredRole cluster\<lparr>role_Meta := m\<rparr>) = kCreate (roles r) (desiredRole cluster\<lparr>role_Meta := m\<rparr>)"
  "kPatch (roles r') x (x\<lparr>Rules := Rules (desiredRole cluster\<lparr>role_Meta := m\<rparr>), role_Meta := m'\<rparr>) =
     kPatch (roles r) x (x\<lparr>Rules := Rules (desiredRole cluster\<lparr>role_Meta := m\<rparr>), role_Meta := m'\<rparr>)"
  by (rule same_role_writes; simp add: desiredRole_def)+

lemma same_series [same_rules]:
  "gaugeSet r' redkeyOperationInProgress [a, b, c] = gaugeSet r redkeyOperationInProgress [a, b, c]"
  "counterInc r' redkeyOperationTotal [a, b] = counterInc r redkeyOperationTotal [a, b]"
  "counterInc r' redkeyReconcileStageErrors [a] = counterInc r redkeyReconcileStageErrors [a]"
  "counterInc r' redkeyConfigCreations [a] = counterInc r redkeyConfigCreations [a]"
  "counterInc r' redkeyCleanupDeletedConfigs [] = counterInc r redkeyCleanupDeletedConfigs []"
  "counterInc r' redkeyRobinDeploymentChanges [a] = counterInc r redkeyRobinDeploymentChanges [a]"
  by (rule same_gauges same_counters; simp add: gaugeVecs_def counterVecs_def vec_defs)+

lemma same_deletes [same_rules]:
  "deletePartialMatch r' redkeyPhase (crLabels key) = deletePartialMatch r redkeyPhase (crLabels key)"
  "deletePartialMatch r' redkeyConfigPhase (crLabels key) = deletePartialMatch r redkeyConfigPhase (crLabels key)"
  "deletePartialMatch r' redkeyOperationInProgress (crLabels key) =
     deletePartialMatch r redkeyOperationInProgress (crLabels key)"
  by (rule same_gauges; simp add: gaugeVecs_def vec_defs crLabels_def)+

lemma same_observeSince [same_rules]:
  "observeSince r' redkeyOperationDuration [a] = observeSince r redkeyOperationDuration [a]"
  "observeSince r' redkeyTimeToReady [] = observeSince r redkeyTimeToReady []"
  by (intro ext; simp add: observeSince_def same_rules same_histograms histogramVecs_def vec_defs)+

lemma same_setStates_any:
  assumes "vec \<in> set gaugeVecs" and "length (snd vec) = 3"
  shows "setStates r' vec = setStates r vec"
proof (intro ext)
  fix key cur vs w
  show "setStates r' vec key cur vs w = setStates r vec key cur vs w"
    by (induction vs arbitrary: w) (simp_all add: same_gauges(1) assms)
qed

lemma same_setStates [same_rules]:
  "setStates r' redkeyPhase = setStates r redkeyPhase" "setStates r' redkeyConfigPhase = setStates r redkeyConfigPhase"
  by (rule same_setStates_any; simp add: gaugeVecs_def vec_defs)+

text \<open>
  Each lemma unfolds some operations and uses those for what they call; the order is that of the calls.
\<close>

lemma same_requeue [same_rules]: "requeue r' = requeue r"
  by (simp add: requeue_def same_rules)

lemma same_helpers [same_rules]:
  "stageError r' = stageError r"
  "deleteRedkeyMetrics r' = deleteRedkeyMetrics r"
  "startOperation r' = startOperation r"
  "finishOperation r' = finishOperation r"
  "markInProgress r' = markInProgress r"
  "nowE r' = nowE r"
  "healthCondition r' = healthCondition r"
  "conditionIsTrue r' = conditionIsTrue r"
  "scaledToZeroStatus r' = scaledToZeroStatus r"
  "metaDrift r' = metaDrift r"
  "robinDeploymentNeedsUpdate r' = robinDeploymentNeedsUpdate r"
  by (intro ext; unfold stageError_def deleteRedkeyMetrics_def startOperation_def finishOperation_def markInProgress_def nowE_def
      healthCondition_def conditionIsTrue_def scaledToZeroStatus_def metaDrift_def
      robinDeploymentNeedsUpdate_def same_rules; rule refl)+

lemma same_stages [same_rules]:
  "stage r' = stage r"
  "observe r' = observe r"
  "aggregateHealthConditions r' = aggregateHealthConditions r"
  "computePhaseFromConditions r' = computePhaseFromConditions r"
  by (intro ext; unfold stage_def observe_def aggregateHealthConditions_def computePhaseFromConditions_def same_rules; rule refl)+

lemma same_status [same_rules]:
  "aggregateConditions r' = aggregateConditions r"
  "recordRedkeyMetrics r' = recordRedkeyMetrics r"
  by (intro ext; unfold aggregateConditions_def recordRedkeyMetrics_def same_rules; rule refl)+

lemma same_record [same_rules]:
  "aggregatedStatus r' = aggregatedStatus r"
  by (intro ext; unfold aggregatedStatus_def same_rules; rule refl)+

lemma same_cleanupLoop [same_rules]: "cleanupLoop r' = cleanupLoop r"
proof (intro ext)
  fix cs keep w
  show "cleanupLoop r' cs keep w = cleanupLoop r cs keep w"
  proof (induction cs arbitrary: w)
    case (Cons c cs)
    then have "cleanupLoop r' cs keep = cleanupLoop r cs keep" by (rule ext)
    then show ?case unfolding cleanupLoop.simps same_rules by (rule arg_cong)
  qed simp
qed

lemma same_writes [same_rules]:
  "ensureServiceAccount r' = ensureServiceAccount r"
  "ensureRole r' = ensureRole r"
  "ensureRoleBinding r' = ensureRoleBinding r"
  "ensureRobinDeployment r' = ensureRobinDeployment r"
  "listConfigs r' = listConfigs r"
  "createNewConfig r' = createNewConfig r"
  "cleanupSupersededConfigs r' = cleanupSupersededConfigs r"
  "aggregateAttempt r' = aggregateAttempt r"
  "updateStatusScaledToZero r' = updateStatusScaledToZero r"
  "deleteRobinDeployment r' = deleteRobinDeployment r"
  "deleteRBAC r' = deleteRBAC r"
  "deleteAllConfigs r' = deleteAllConfigs r"
  by (intro ext; unfold ensureServiceAccount_def ensureRole_def ensureRoleBinding_def ensureRobinDeployment_def listConfigs_def
      createNewConfig_def cleanupSupersededConfigs_def aggregateAttempt_def updateStatusScaledToZero_def
      deleteRobinDeployment_def deleteRBAC_def deleteAllConfigs_def Let_def same_rules; rule refl)+

lemma same_steps [same_rules]:
  "ensureRBAC r' = ensureRBAC r"
  "aggregateStatus r' = aggregateStatus r"
  "syncConfigs r' = syncConfigs r"
  "cleanupStage r' = cleanupStage r"
  by (intro ext; unfold ensureRBAC_def aggregateStatus_def syncConfigs_def cleanupStage_def same_rules; rule refl)+

lemma same_handlers [same_rules]:
  "reconcileScaleToZero r' = reconcileScaleToZero r"
  "reconcileCluster r' = reconcileCluster r"
  by (intro ext; unfold reconcileScaleToZero_def reconcileCluster_def same_rules; rule refl)+

theorem same_Reconcile: "Reconcile r' = Reconcile r"
  by (intro ext; unfold Reconcile_def same_rules; rule refl)

end

end
