(* ===== verification/Permissions.thy ===== *)
theory Permissions imports Same_Requests begin

section \<open>Permissions\<close>

text \<open>
  What the operator may ask of the API server, what it lets Robin ask, and that the two fit: the
  \<^verbatim>\<open>+kubebuilder:rbac\<close> markers of \<^verbatim>\<open>redkey_controller.go\<close>, from which the operator's ClusterRole is
  generated, and \<^verbatim>\<open>DesiredRobinRules\<close> of \<^verbatim>\<open>redkey_robin.go\<close>. The meaning of a rule is that of Kubernetes'
  role-based access control, for rules without wildcards and resource names.
\<close>

named_theorems auth_simps "requests that are allowed"

subsection \<open>The declared permissions\<close>

definition operatorRules :: "PolicyRule list" where
  "operatorRules =
    [\<lparr>APIGroups = [''redkey.inditex.dev''], Resources = [''redkeys''],
       Verbs = [''get'', ''list'', ''watch'', ''create'', ''update'', ''patch'', ''delete'']\<rparr>,
     \<lparr>APIGroups = [''redkey.inditex.dev''], Resources = [''redkeys/status''], Verbs = [''get'', ''update'', ''patch'']\<rparr>,
     \<lparr>APIGroups = [''redkey.inditex.dev''], Resources = [''redkeys/scale''], Verbs = [''get'', ''update'', ''patch'']\<rparr>,
     \<lparr>APIGroups = [''redkey.inditex.dev''], Resources = [''redkeys/finalizers''], Verbs = [''update'']\<rparr>,
     \<lparr>APIGroups = [''redkey.inditex.dev''], Resources = [''redkeyconfigs''],
       Verbs = [''get'', ''list'', ''watch'', ''create'', ''delete'']\<rparr>,
     \<lparr>APIGroups = [''redkey.inditex.dev''], Resources = [''redkeyconfigs/status''],
       Verbs = [''get'', ''update'', ''patch'']\<rparr>,
     \<lparr>APIGroups = [''''], Resources = [''configmaps'', ''services''],
       Verbs = [''get'', ''list'', ''watch'', ''create'', ''update'', ''patch'', ''delete'']\<rparr>,
     \<lparr>APIGroups = [''''], Resources = [''pods''], Verbs = [''get'', ''list'', ''watch'', ''delete'']\<rparr>,
     \<lparr>APIGroups = [''''], Resources = [''secrets''], Verbs = [''get'']\<rparr>,
     \<lparr>APIGroups = [''''], Resources = [''persistentvolumeclaims''], Verbs = [''list'', ''delete'']\<rparr>,
     \<lparr>APIGroups = [''apps''], Resources = [''statefulsets''],
       Verbs = [''get'', ''list'', ''watch'', ''create'', ''update'', ''patch'', ''delete'']\<rparr>,
     \<lparr>APIGroups = [''policy''], Resources = [''poddisruptionbudgets''],
       Verbs = [''get'', ''list'', ''watch'', ''create'', ''update'', ''patch'', ''delete'']\<rparr>,
     \<lparr>APIGroups = [''apps''], Resources = [''deployments''],
       Verbs = [''get'', ''list'', ''watch'', ''create'', ''update'', ''patch'', ''delete'']\<rparr>,
     \<lparr>APIGroups = [''''], Resources = [''serviceaccounts''],
       Verbs = [''get'', ''list'', ''watch'', ''create'', ''update'', ''patch'', ''delete'']\<rparr>,
     \<lparr>APIGroups = [''rbac.authorization.k8s.io''], Resources = [''roles'', ''rolebindings''],
       Verbs = [''get'', ''list'', ''watch'', ''create'', ''update'', ''patch'', ''delete'']\<rparr>]"

definition allows :: "PolicyRule list \<Rightarrow> string \<Rightarrow> string \<Rightarrow> string \<Rightarrow> bool" where
  "allows rules g res v \<longleftrightarrow>
     (\<exists>p \<in> set rules. g \<in> set (APIGroups p) \<and> res \<in> set (Resources p) \<and> v \<in> set (Verbs p))"

text \<open>Every request the second list allows, the first allows.\<close>

definition mayGrant :: "PolicyRule list \<Rightarrow> PolicyRule list \<Rightarrow> bool" where
  "mayGrant held asked \<longleftrightarrow>
     (\<forall>p \<in> set asked. \<forall>g \<in> set (APIGroups p). \<forall>res \<in> set (Resources p). \<forall>v \<in> set (Verbs p). allows held g res v)"

lemma mayGrant_allows: "mayGrant held asked \<longleftrightarrow> (\<forall>g res v. allows asked g res v \<longrightarrow> allows held g res v)"
  by (fastforce simp: mayGrant_def allows_def)

subsection \<open>A client that is checked\<close>

definition checked :: "bool \<Rightarrow> ('w, 'a) io \<Rightarrow> ('w, 'a) io" where
  "checked ok m = (if ok then m else throwE (OtherError ''forbidden''))"

text \<open>Reads are served from a cache, which lists and watches.\<close>

definition mayRead :: "PolicyRule list \<Rightarrow> string \<Rightarrow> string \<Rightarrow> bool" where
  "mayRead rules g res \<longleftrightarrow> allows rules g res ''get'' \<and> allows rules g res ''list'' \<and> allows rules g res ''watch''"

definition checkedKind ::
  "PolicyRule list \<Rightarrow> string \<Rightarrow> string \<Rightarrow> ('a \<Rightarrow> bool) \<Rightarrow> ('w, 'a) KindClient \<Rightarrow> ('w, 'a) KindClient" where
  "checkedKind rules g res ok K =
     \<lparr>kGet = (\<lambda>k. checked (mayRead rules g res) (kGet K k)),
      kCreate = (\<lambda>x. checked (allows rules g res ''create'' \<and> ok x) (kCreate K x)),
      kPatch = (\<lambda>old x. checked (allows rules g res ''patch'' \<and> ok x) (kPatch K old x)),
      kDelete = (\<lambda>k. checked (allows rules g res ''delete'') (kDelete K k))\<rparr>"

text \<open>
  The client behind an API server that refuses what the rules do not allow. It refuses a Role in particular
  if it grants what its author does not hold, which is how Kubernetes prevents escalation.
\<close>

definition checkedClient ::
  "PolicyRule list \<Rightarrow> ('w, 'z) RedkeyReconciler_scheme \<Rightarrow> ('w, 'z) RedkeyReconciler_scheme" where
  "checkedClient rules r =
     r\<lparr>getRedkey := (\<lambda>k. checked (mayRead rules ''redkey.inditex.dev'' ''redkeys'') (getRedkey r k)),
       updateRedkeyStatus := (\<lambda>x. checked (allows rules ''redkey.inditex.dev'' ''redkeys/status'' ''update'')
         (updateRedkeyStatus r x)),
       listRedkeyConfigs := (\<lambda>ns ls. checked (mayRead rules ''redkey.inditex.dev'' ''redkeyconfigs'')
         (listRedkeyConfigs r ns ls)),
       redkeyConfigs := checkedKind rules ''redkey.inditex.dev'' ''redkeyconfigs'' (\<lambda>_. True) (redkeyConfigs r),
       serviceAccounts := checkedKind rules '''' ''serviceaccounts'' (\<lambda>_. True) (serviceAccounts r),
       roles := checkedKind rules ''rbac.authorization.k8s.io'' ''roles'' (\<lambda>x. mayGrant rules (Rules x)) (roles r),
       roleBindings := checkedKind rules ''rbac.authorization.k8s.io'' ''rolebindings'' (\<lambda>_. True) (roleBindings r),
       deployments := checkedKind rules ''apps'' ''deployments'' (\<lambda>_. True) (deployments r)\<rparr>"

subsection \<open>Every request is allowed\<close>

lemma operator_allows [auth_simps]:
  "mayRead operatorRules ''redkey.inditex.dev'' ''redkeys''"
  "allows operatorRules ''redkey.inditex.dev'' ''redkeys/status'' ''update''"
  "mayRead operatorRules ''redkey.inditex.dev'' ''redkeyconfigs''"
  "allows operatorRules ''redkey.inditex.dev'' ''redkeyconfigs'' ''create''"
  "allows operatorRules ''redkey.inditex.dev'' ''redkeyconfigs'' ''delete''"
  by (simp_all add: mayRead_def allows_def operatorRules_def)

lemma operator_manages [auth_simps]:
  assumes "(g, res) \<in> set [('''', ''serviceaccounts''), (''rbac.authorization.k8s.io'', ''roles''),
    (''rbac.authorization.k8s.io'', ''rolebindings''), (''apps'', ''deployments'')]"
  shows "mayRead operatorRules g res \<and> allows operatorRules g res ''create'' \<and>
    allows operatorRules g res ''patch'' \<and> allows operatorRules g res ''delete''"
  using assms by (auto simp: mayRead_def allows_def operatorRules_def)

lemma operator_grants_robin [auth_simps]: "mayGrant operatorRules DesiredRobinRules"
  by (simp add: mayGrant_def allows_def operatorRules_def DesiredRobinRules_def)

interpretation permitted: same_requests r "checkedClient operatorRules r" for r
  by unfold_locales (simp_all add: checkedClient_def checkedKind_def checked_def auth_simps)

text \<open>
  C18. The permissions the operator declares are enough: behind an API server that refuses every request
  they do not allow, \<^verbatim>\<open>Reconcile\<close> does exactly what it does without the check, in every state and on every
  path. In particular the Role it writes for Robin is never refused as an escalation.
\<close>

theorem operator_permissions_suffice:
  "Reconcile (checkedClient operatorRules r) key = Reconcile r key"
  by (simp only: permitted.same_Reconcile)


end
