(* ===== verification/Startup.thy ===== *)
theory Startup
  imports Controller
begin

section \<open>The entry point (\<^verbatim>\<open>cmd/main.go\<close>)\<close>

text \<open>
  The flags, the options \<^verbatim>\<open>main\<close> computes from them and the sequence of calls it makes. \<^verbatim>\<open>Flag_Parsing\<close> has how they are
  parsed; logging is left out. The calls into controller-runtime are a parameter.
\<close>

subsection \<open>Flags\<close>

record Flags =
  metricsAddr :: string
  metricsCertPath :: string
  metricsCertName :: string
  metricsCertKey :: string
  webhookCertPath :: string
  webhookCertName :: string
  webhookCertKey :: string
  enableLeaderElection :: bool
  probeAddr :: string
  secureMetrics :: bool
  enableHTTP2 :: bool
  watchNamespaces :: string
  resyncInterval :: int64
  maxConcurrentReconciles :: go_int
  enablePprof :: bool
  pprofAddr :: string

text \<open>Durations are nanoseconds.\<close>

definition defaultFlags :: Flags where
  "defaultFlags =
     \<lparr>metricsAddr = '':8080'', metricsCertPath = '''', metricsCertName = ''tls.crt'', metricsCertKey = ''tls.key'',
      webhookCertPath = '''', webhookCertName = ''tls.crt'', webhookCertKey = ''tls.key'',
      enableLeaderElection = False, probeAddr = '':8081'', secureMetrics = False, enableHTTP2 = False,
      watchNamespaces = '''', resyncInterval = 5 * 60 * 1000000000, maxConcurrentReconciles = 10,
      enablePprof = False, pprofAddr = '':6060''\<rparr>"

definition USER_AGENT_NAME :: string where
  "USER_AGENT_NAME = ''redkey-operator''"

definition USER_AGENT_VERSION :: string where
  "USER_AGENT_VERSION = ''0.2.0''"

subsection \<open>The standard library functions it uses\<close>

text \<open>\<^verbatim>\<open>strings.Split\<close> for a separator of one character.\<close>

fun splitOn :: "char \<Rightarrow> string \<Rightarrow> string list" where
  "splitOn sep [] = [[]]"
| "splitOn sep (c # cs) =
     (if c = sep then [] # splitOn sep cs
      else (c # hd (splitOn sep cs)) # tl (splitOn sep cs))"

text \<open>\<^verbatim>\<open>strings.TrimSpace\<close> on ASCII text.\<close>

definition isSpace :: "char \<Rightarrow> bool" where
  "isSpace c \<longleftrightarrow> of_char c \<in> {9, 10, 11, 12, 13, 32 :: nat}"

definition TrimSpace :: "string \<Rightarrow> string" where
  "TrimSpace s = rev (dropWhile isSpace (rev (dropWhile isSpace s)))"

text \<open>\<^verbatim>\<open>filepath.Join\<close> and \<^verbatim>\<open>filepath.Clean\<close> with the slash as separator.\<close>

fun cleanParts :: "bool \<Rightarrow> string list \<Rightarrow> string list \<Rightarrow> string list" where
  "cleanParts rooted out [] = rev out"
| "cleanParts rooted out (p # ps) =
     (if p = '''' \<or> p = ''.'' then cleanParts rooted out ps
      else if p = ''..'' then
        (if out \<noteq> [] \<and> hd out \<noteq> ''..'' then cleanParts rooted (tl out) ps
         else if rooted then cleanParts rooted out ps
         else cleanParts rooted (p # out) ps)
      else cleanParts rooted (p # out) ps)"

definition joinSlash :: "string list \<Rightarrow> string" where
  "joinSlash ps = (if ps = [] then [] else hd ps @ concat (map (\<lambda>p. CHR ''/'' # p) (tl ps)))"

definition Clean :: "string \<Rightarrow> string" where
  "Clean s =
     (let rooted = (s \<noteq> [] \<and> hd s = CHR ''/'');
          body = joinSlash (cleanParts rooted [] (splitOn CHR ''/'' s))
      in if rooted then CHR ''/'' # body else if body = '''' then ''.'' else body)"

definition filepathJoin :: "string \<Rightarrow> string \<Rightarrow> string" where
  "filepathJoin a b =
     (let parts = filter (\<lambda>p. p \<noteq> '''') [a, b] in if parts = [] then '''' else Clean (joinSlash parts))"

subsection \<open>Options\<close>

text \<open>A certificate watcher is known by the files it was created for.\<close>

type_synonym CertWatcher = "string \<times> string"

record TLSConfig =
  NextProtos :: "string list"
  GetCertificate :: "CertWatcher option"

text \<open>The two functions on TLS configurations that \<^verbatim>\<open>main\<close> appends.\<close>

datatype TLSOpt = DisableHTTP2 | UseCertificate CertWatcher

fun applyTLSOpt :: "TLSOpt \<Rightarrow> TLSConfig \<Rightarrow> TLSConfig" where
  "applyTLSOpt DisableHTTP2 c = c\<lparr>NextProtos := [''http/1.1'']\<rparr>"
| "applyTLSOpt (UseCertificate w) c = c\<lparr>GetCertificate := Some w\<rparr>"

definition tlsOpts :: "Flags \<Rightarrow> TLSOpt list" where
  "tlsOpts f = (if \<not> enableHTTP2 f then [DisableHTTP2] else [])"

definition webhookWatcher :: "Flags \<Rightarrow> CertWatcher option" where
  "webhookWatcher f =
     (if webhookCertPath f \<noteq> '''' then
        Some (filepathJoin (webhookCertPath f) (webhookCertName f),
              filepathJoin (webhookCertPath f) (webhookCertKey f))
      else None)"

definition metricsWatcher :: "Flags \<Rightarrow> CertWatcher option" where
  "metricsWatcher f =
     (if metricsCertPath f \<noteq> '''' then
        Some (filepathJoin (metricsCertPath f) (metricsCertName f),
              filepathJoin (metricsCertPath f) (metricsCertKey f))
      else None)"

definition withWatcher :: "CertWatcher option \<Rightarrow> TLSOpt list \<Rightarrow> TLSOpt list" where
  "withWatcher w opts = (case w of None \<Rightarrow> opts | Some x \<Rightarrow> opts @ [UseCertificate x])"

text \<open>The loop over the fields of \<^verbatim>\<open>--watch-namespaces\<close>; \<^verbatim>\<open>cache.Config\<close> is left at its zero value.\<close>

fun namespaceLoop :: "string list \<Rightarrow> (string, unit) fmap \<Rightarrow> (string, unit) fmap" where
  "namespaceLoop [] acc = acc"
| "namespaceLoop (ns # nss) acc =
     namespaceLoop nss (if TrimSpace ns \<noteq> '''' then fmupd (TrimSpace ns) () acc else acc)"

text \<open>\<open>None\<close> is the nil map.\<close>

definition defaultNamespaces :: "Flags \<Rightarrow> (string, unit) fmap option" where
  "defaultNamespaces f =
     (if watchNamespaces f \<noteq> '''' then Some (namespaceLoop (splitOn CHR '','' (watchNamespaces f)) fmempty)
      else None)"

record MetricsOptions =
  BindAddress :: string
  SecureServing :: bool
  AuthFilter :: bool
  MetricsTLSOpts :: "TLSOpt list"

record ManagerOptions =
  UserAgent :: string
  MetricsServer :: MetricsOptions
  WebhookTLSOpts :: "TLSOpt list"
  HealthProbeBindAddress :: string
  LeaderElection :: bool
  LeaderElectionID :: string
  DefaultNamespaces :: "(string, unit) fmap option"

definition metricsServerOptions :: "Flags \<Rightarrow> MetricsOptions" where
  "metricsServerOptions f =
     \<lparr>BindAddress = metricsAddr f, SecureServing = secureMetrics f, AuthFilter = secureMetrics f,
      MetricsTLSOpts = withWatcher (metricsWatcher f) (tlsOpts f)\<rparr>"

definition managerOptions :: "Flags \<Rightarrow> ManagerOptions" where
  "managerOptions f =
     \<lparr>UserAgent = USER_AGENT_NAME @ ''/'' @ USER_AGENT_VERSION, MetricsServer = metricsServerOptions f,
      WebhookTLSOpts = withWatcher (webhookWatcher f) (tlsOpts f), HealthProbeBindAddress = probeAddr f,
      LeaderElection = enableLeaderElection f, LeaderElectionID = ''ad09f20a.inditex.dev'',
      DefaultNamespaces = defaultNamespaces f\<rparr>"

subsection \<open>The pprof server\<close>

record PprofServer =
  Addr :: string
  Handlers :: "(string \<times> string) list" \<comment> \<open>patterns of the mux and the functions of package \<^verbatim>\<open>pprof\<close>\<close>
  ReadHeaderTimeout :: int64

definition pprofServer :: "Flags \<Rightarrow> PprofServer" where
  "pprofServer f =
     \<lparr>Addr = pprofAddr f,
      Handlers = [(''/debug/pprof/'', ''Index''), (''/debug/pprof/cmdline'', ''Cmdline''),
        (''/debug/pprof/profile'', ''Profile''), (''/debug/pprof/symbol'', ''Symbol''), (''/debug/pprof/trace'', ''Trace'')],
      ReadHeaderTimeout = 10 * 1000000000\<rparr>"

text \<open>
  \<^verbatim>\<open>http.ServeMux\<close> for a path: a pattern that ends in a slash matches every path it is a prefix of, any other
  one only itself, and the longest pattern that matches wins.
\<close>

definition muxMatches :: "string \<Rightarrow> string \<Rightarrow> bool" where
  "muxMatches path pat = (if last pat = CHR ''/'' then take (length pat) path = pat else path = pat)"

fun muxHandler :: "string \<Rightarrow> (string \<times> string) list \<Rightarrow> (string \<times> string) option \<Rightarrow> (string \<times> string) option" where
  "muxHandler path [] best = best"
| "muxHandler path ((pat, h) # hs) best =
     muxHandler path hs
       (if muxMatches path pat \<and> (best = None \<or> length (fst (the best)) < length pat) then Some (pat, h) else best)"

definition servePprof :: "Flags \<Rightarrow> string \<Rightarrow> string option" where
  "servePprof f path = map_option snd (muxHandler path (Handlers (pprofServer f)) None)"

subsection \<open>The calls of \<^verbatim>\<open>main\<close>\<close>

datatype Call =
    NewCertWatcher CertWatcher
  | GetConfigOrDie
  | NewManager ManagerOptions
  | SetupWithManager int64 go_int
  | AddCertWatcher CertWatcher
  | AddHealthzCheck
  | AddReadyzCheck
  | StartPprof PprofServer
  | StartManager

definition whenSome :: "'a option \<Rightarrow> ('a \<Rightarrow> ('w, unit) io) \<Rightarrow> ('w, unit) io" where
  "whenSome x f = (case x of None \<Rightarrow> returnE () | Some y \<Rightarrow> f y)"

text \<open>
  Every error ends the process with exit code 1. \<open>StartPprof\<close> stands for the two goroutines of the pprof
  server, the one that serves and the one that shuts it down with the manager; an error of it is only logged.
\<close>

definition main :: "(Call \<Rightarrow> ('w, unit) io) \<Rightarrow> Flags \<Rightarrow> ('w, unit) io" where
  "main call f =
     bindE (whenSome (webhookWatcher f) (\<lambda>w. call (NewCertWatcher w))) (\<lambda>_.
     bindE (whenSome (metricsWatcher f) (\<lambda>w. call (NewCertWatcher w))) (\<lambda>_.
     bindE (call GetConfigOrDie) (\<lambda>_.
     bindE (call (NewManager (managerOptions f))) (\<lambda>_.
     bindE (call (SetupWithManager (resyncInterval f) (maxConcurrentReconciles f))) (\<lambda>_.
     bindE (whenSome (metricsWatcher f) (\<lambda>w. call (AddCertWatcher w))) (\<lambda>_.
     bindE (whenSome (webhookWatcher f) (\<lambda>w. call (AddCertWatcher w))) (\<lambda>_.
     bindE (call AddHealthzCheck) (\<lambda>_.
     bindE (call AddReadyzCheck) (\<lambda>_.
     bindE (if enablePprof f then bindE (attemptE (call (StartPprof (pprofServer f)))) (\<lambda>_. returnE ())
            else returnE ()) (\<lambda>_.
     call StartManager))))))))))"

definition exitCode :: "go_error + unit \<Rightarrow> nat" where
  "exitCode res = (case res of Inl _ \<Rightarrow> 1 | Inr _ \<Rightarrow> 0)"

subsection \<open>The namespaces that are watched\<close>

lemma splitOn_nonempty [simp]: "splitOn sep s \<noteq> []"
  by (cases s) simp_all

lemma splitOn_free: "sep \<notin> set s \<Longrightarrow> splitOn sep s = [s]"
  by (induction s) auto

lemma splitOn_append: "sep \<notin> set s \<Longrightarrow> splitOn sep (s @ sep # t) = s # splitOn sep t"
  by (induction s) auto

fun joinOn :: "char \<Rightarrow> string list \<Rightarrow> string" where
  "joinOn sep [] = []"
| "joinOn sep [s] = s"
| "joinOn sep (s # ss) = s @ sep # joinOn sep ss"

lemma splitOn_joinOn: "ss \<noteq> [] \<Longrightarrow> \<forall>s \<in> set ss. sep \<notin> set s \<Longrightarrow> splitOn sep (joinOn sep ss) = ss"
  by (induction sep ss rule: joinOn.induct) (auto simp: splitOn_free splitOn_append)

lemma splitOn_chars: "ns \<in> set (splitOn sep s) \<Longrightarrow> set ns \<subseteq> set s - {sep}"
proof (induction s arbitrary: ns)
  case (Cons c s)
  then show ?case by (cases "splitOn sep s") (auto split: if_splits, blast+)
qed simp

lemma TrimSpace_blank: "TrimSpace s = '''' \<longleftrightarrow> (\<forall>c \<in> set s. isSpace c)"
  by (auto simp: TrimSpace_def dropWhile_eq_Nil_conv dest: set_dropWhileD)
    (metis dropWhile_eq_Nil_conv hd_dropWhile hd_in_set)

lemma namespaceLoop_dom:
  "fmdom' (namespaceLoop nss acc) = fmdom' acc \<union> {TrimSpace ns |ns. ns \<in> set nss \<and> TrimSpace ns \<noteq> ''''}"
  by (induction nss arbitrary: acc) auto

text \<open>
  C37. The flag \<^verbatim>\<open>--watch-namespaces\<close> given as the comma-separated list of some namespaces makes the
  cache watch exactly those namespaces, whatever blanks stand around the commas.
\<close>

theorem watch_namespaces_roundtrip:
  assumes "nss \<noteq> []" and "\<forall>s \<in> set nss. CHR '','' \<notin> set s \<and> TrimSpace s \<noteq> ''''"
    and "watchNamespaces f = joinOn CHR '','' nss"
  shows "\<exists>m. DefaultNamespaces (managerOptions f) = Some m \<and> fmdom' m = TrimSpace ` set nss"
proof -
  have split: "splitOn CHR '','' (watchNamespaces f) = nss"
    using assms by (simp add: splitOn_joinOn)
  have "TrimSpace '''' = ''''" by (simp add: TrimSpace_def)
  with split assms(2) have "watchNamespaces f \<noteq> ''''" by auto
  with split assms(2) show ?thesis
    by (auto simp: managerOptions_def defaultNamespaces_def namespaceLoop_dom)
qed

theorem watch_namespaces_roundtrip_witness:
  "\<exists>m. DefaultNamespaces (managerOptions (defaultFlags\<lparr>watchNamespaces := ''team-a, team-b''\<rparr>)) = Some m \<and>
     fmdom' m = {''team-a'', ''team-b''}"
  using watch_namespaces_roundtrip [of "[''team-a'', '' team-b'']" "defaultFlags\<lparr>watchNamespaces := ''team-a, team-b''\<rparr>"]
  by (simp add: TrimSpace_def isSpace_def)

text \<open>
  C38. A non-empty \<^verbatim>\<open>--watch-namespaces\<close> whose fields are all blank, such as a single comma, yields an
  empty map of namespaces instead of an error: no namespace is selected although the flag was given.
\<close>

theorem blank_watch_namespaces:
  assumes "watchNamespaces f \<noteq> ''''" and "\<forall>c \<in> set (watchNamespaces f). isSpace c \<or> c = CHR '',''"
  shows "DefaultNamespaces (managerOptions f) = Some fmempty"
proof -
  have "TrimSpace ns = ''''" if "ns \<in> set (splitOn CHR '','' (watchNamespaces f))" for ns
    unfolding TrimSpace_blank using splitOn_chars [OF that] assms(2) by blast
  then have "fmdom' (namespaceLoop (splitOn CHR '','' (watchNamespaces f)) fmempty) = {}"
    by (auto simp: namespaceLoop_dom)
  then have "namespaceLoop (splitOn CHR '','' (watchNamespaces f)) fmempty = fmempty"
    by (metis fmap_ext fmdom'_notD empty_iff fmempty_lookup)
  with assms(1) show ?thesis by (simp add: managerOptions_def defaultNamespaces_def)
qed

theorem blank_watch_namespaces_witness:
  "DefaultNamespaces (managerOptions (defaultFlags\<lparr>watchNamespaces := '' , ''\<rparr>)) = Some fmempty"
  by (rule blank_watch_namespaces) (simp_all add: isSpace_def)

subsection \<open>The pages of the pprof server\<close>

text \<open>
  The profiling server answers below \<^verbatim>\<open>/debug/pprof/\<close> only: the four pages with a handler of their own, and
  the index for every other profile.
\<close>

lemma servePprof_pages:
  "servePprof f path =
     (if take (length ''/debug/pprof/'') path \<noteq> ''/debug/pprof/'' then None
      else if path = ''/debug/pprof/cmdline'' then Some ''Cmdline''
      else if path = ''/debug/pprof/profile'' then Some ''Profile''
      else if path = ''/debug/pprof/symbol'' then Some ''Symbol''
      else if path = ''/debug/pprof/trace'' then Some ''Trace''
      else Some ''Index'')"
  by (auto simp: servePprof_def pprofServer_def muxMatches_def)

subsection \<open>TLS\<close>

lemma applyTLSOpts_protos:
  "NextProtos (fold applyTLSOpt (withWatcher w (tlsOpts f)) c) =
     (if enableHTTP2 f then NextProtos c else [''http/1.1''])"
  by (cases w) (simp_all add: withWatcher_def tlsOpts_def)

text \<open>
  C36. Unless \<^verbatim>\<open>--enable-http2\<close> is given, neither the metrics server nor the webhook server offers
  anything but HTTP/1.1, with and without certificates; and each of them serves the certificate of
  its own flags, never the other's.
\<close>

theorem servers_tls:
  "let webhook = fold applyTLSOpt (WebhookTLSOpts (managerOptions f)) c;
       metrics = fold applyTLSOpt (MetricsTLSOpts (MetricsServer (managerOptions f))) c
   in NextProtos webhook = (if enableHTTP2 f then NextProtos c else [''http/1.1'']) \<and>
      NextProtos metrics = (if enableHTTP2 f then NextProtos c else [''http/1.1'']) \<and>
      GetCertificate webhook = (if webhookCertPath f = '''' then GetCertificate c else
        Some (filepathJoin (webhookCertPath f) (webhookCertName f), filepathJoin (webhookCertPath f) (webhookCertKey f))) \<and>
      GetCertificate metrics = (if metricsCertPath f = '''' then GetCertificate c else
        Some (filepathJoin (metricsCertPath f) (metricsCertName f), filepathJoin (metricsCertPath f) (metricsCertKey f)))"
  by (simp add: managerOptions_def metricsServerOptions_def applyTLSOpts_protos)
    (simp add: withWatcher_def webhookWatcher_def metricsWatcher_def tlsOpts_def)

subsection \<open>The order of the calls\<close>

definition opt :: "'a option \<Rightarrow> ('a \<Rightarrow> Call) \<Rightarrow> Call list" where
  "opt x f = (case x of None \<Rightarrow> [] | Some y \<Rightarrow> [f y])"

definition plan :: "Flags \<Rightarrow> Call list" where
  "plan f = opt (webhookWatcher f) NewCertWatcher @ opt (metricsWatcher f) NewCertWatcher @
     [GetConfigOrDie, NewManager (managerOptions f), SetupWithManager (resyncInterval f) (maxConcurrentReconciles f)] @
     opt (metricsWatcher f) AddCertWatcher @ opt (webhookWatcher f) AddCertWatcher @
     [AddHealthzCheck, AddReadyzCheck] @ (if enablePprof f then [StartPprof (pprofServer f)] else []) @ [StartManager]"

definition fatal :: "Call \<Rightarrow> bool" where
  "fatal c = (case c of StartPprof _ \<Rightarrow> False | _ \<Rightarrow> True)"

lemma fatal_simp: "\<not> fatal (StartPprof a)"
  by (simp add: fatal_def)

lemma last_plan [simp]: "last (plan f) = StartManager"
  by (simp add: plan_def)

definition runCall :: "(Call \<Rightarrow> ('w, unit) io) \<Rightarrow> Call \<Rightarrow> ('w, unit) io" where
  "runCall call c = (if fatal c then call c else bindE (attemptE (call c)) (\<lambda>_. returnE ()))"

lemma bindE_unit [simp]: "bindE m (\<lambda>_ :: unit. returnE ()) = m"
  by (rule ext) (auto simp: bindE_def returnE_def split: prod.split sum.split)

lemma main_plan: "main call f = forE (plan f) (runCall call)"
  by (cases "webhookWatcher f"; cases "metricsWatcher f")
    (simp_all add: main_def plan_def opt_def whenSome_def runCall_def fatal_def bindE_assoc)

text \<open>The calls, recorded as they are made.\<close>

definition traced :: "(Call \<Rightarrow> ('w, unit) io) \<Rightarrow> Call \<Rightarrow> ('w \<times> Call list, unit) io" where
  "traced call c = (\<lambda>(w, tr). let (res, w') = call c w in (res, (w', tr @ [c])))"

lemma wp_traced:
  "wp (traced call c) Q E (w, tr) =
     wp (call c) (\<lambda>x w'. Q x (w', tr @ [c])) (\<lambda>e w'. E e (w', tr @ [c])) w"
  by (auto simp: wp_def traced_def split: prod.split sum.split)

lemma wp_runCall:
  assumes "\<And>x w'. Q x (w', tr @ [c])" and "\<And>e w'. fatal c \<Longrightarrow> E e (w', tr @ [c])"
  shows "wp (runCall (traced call) c) Q E (w, tr)"
proof -
  have any: "wp (call c) P P' w" if "\<And>x w'. P x w'" "\<And>e w'. P' e w'" for P P'
    by (rule wpI) (use that in auto)
  show ?thesis
    by (cases "fatal c") (simp_all add: runCall_def wp_simps wp_traced any assms)
qed

lemma wp_plan:
  "wp (forE cs (runCall (traced call))) (\<lambda>_ (_, tr'). tr' = tr @ cs)
     (\<lambda>_ (_, tr'). \<exists>n < length cs. fatal (cs ! n) \<and> tr' = tr @ take (Suc n) cs) (w, tr)"
proof (induction cs arbitrary: w tr)
  case (Cons c cs)
  have rest: "wp (forE cs (runCall (traced call))) (\<lambda>_ (_, tr'). tr' = tr @ c # cs)
     (\<lambda>_ (_, tr'). \<exists>n < length (c # cs). fatal ((c # cs) ! n) \<and> tr' = tr @ take (Suc n) (c # cs)) (w', tr @ [c])" for w'
  proof (rule wp_mono [OF Cons.IH], goal_cases)
    case (2 e t)
    then obtain n where "n < length cs" "fatal (cs ! n)" "snd t = (tr @ [c]) @ take (Suc n) cs" by auto
    then show ?case by (cases t) (auto intro!: exI [of _ "Suc n"])
  qed auto
  show ?case
    unfolding forE.simps wp_bindE
  proof (rule wp_runCall, goal_cases)
    case (1 x w')
    show ?case by (rule rest)
  qed (auto intro!: exI [of _ 0])
qed (simp add: wp_simps)

text \<open>
  \<^verbatim>\<open>main\<close> makes its calls in a fixed order and stops at the first one that fails, other than the
  pprof server: the manager is started last, once every watcher, the controller and both health
  checks are in place, and a failed call ends the process with exit code 1 before it.
\<close>

lemma main_order:
  "wp (main (traced call) f)
     (\<lambda>_ (_, tr). tr = plan f \<and> last tr = StartManager)
     (\<lambda>_ (_, tr). \<exists>n < length (plan f). plan f ! n \<noteq> StartPprof (pprofServer f) \<and> tr = take (Suc n) (plan f)) (w, [])"
  unfolding main_plan
proof (rule wp_mono [OF wp_plan [where tr = "[]"]], goal_cases)
  case (1 x t)
  then show ?case by (cases t) simp
next
  case (2 e t)
  then obtain n where n: "n < length (plan f)" "fatal (plan f ! n)" "snd t = take (Suc n) (plan f)" by auto
  from n(2) have "plan f ! n \<noteq> StartPprof (pprofServer f)" by (metis fatal_simp)
  with n show ?case by (cases t) auto
qed

end
