(* ===== verification/Registration.thy ===== *)
theory Registration imports Permissions Startup "HOL-Library.Char_ord" begin

section \<open>Registration at start-up\<close>

text \<open>
  What the packages do before and while the manager is set up: the metrics registered by the
  \<^verbatim>\<open>init\<close> functions of \<^verbatim>\<open>metrics.go\<close> and \<^verbatim>\<open>main.go\<close>, the API types added to the scheme, and the controller's
  watches (\<^verbatim>\<open>SetupWithManager\<close>). The Prometheus registry, the client-go scheme and the controller builder are
  parameters. A failure of any of these is a panic or an exit at start-up, and a metric used with the wrong
  labels is a panic in the middle of a reconcile; the theorems exclude both.
\<close>

subsection \<open>Metric descriptions\<close>

datatype MetricType = Gauge | Counter | Histogram "int list" \<comment> \<open>with the upper bounds of its buckets\<close>

record MetricDesc =
  fqName :: string
  variableLabels :: "string list"
  constLabels :: "(string \<times> string) list"
  metricType :: MetricType

definition vecDesc :: "MetricVec \<Rightarrow> MetricType \<Rightarrow> MetricDesc" where
  "vecDesc vec t = \<lparr>fqName = fst vec, variableLabels = snd vec, constLabels = [], metricType = t\<rparr>"

definition operationBuckets :: "int list" where
  "operationBuckets = [5, 15, 30, 60, 120, 300, 600, 1200, 1800, 3600]"

definition readyBuckets :: "int list" where
  "readyBuckets = [5, 10, 20, 30, 60, 120, 300, 600, 900, 1800]"

text \<open>The arguments of \<^verbatim>\<open>MustRegister\<close> in \<^verbatim>\<open>metrics.go\<close>.\<close>

definition controllerMetrics :: "MetricDesc list" where
  "controllerMetrics =
     [vecDesc redkeyPhase Gauge, vecDesc redkeyConfigPhase Gauge,
      vecDesc redkeyOperationDuration (Histogram operationBuckets), vecDesc redkeyOperationTotal Counter,
      vecDesc redkeyOperationInProgress Gauge, vecDesc redkeyReconcileStageErrors Counter,
      vecDesc redkeyConfigCreations Counter, vecDesc redkeyCleanupDeletedConfigs Counter,
      vecDesc redkeyRobinDeploymentChanges Counter, vecDesc redkeyTimeToReady (Histogram readyBuckets)]"

text \<open>The gauge of \<^verbatim>\<open>registerBuildInfo\<close>; the version of Go is that of the build.\<close>

definition buildInfo :: "string \<Rightarrow> MetricDesc" where
  "buildInfo goVersion =
     \<lparr>fqName = ''redkey_operator_build_info'', variableLabels = [],
      constLabels = [(''version'', USER_AGENT_VERSION), (''go_version'', goVersion)], metricType = Gauge\<rparr>"

subsection \<open>The registry\<close>

text \<open>
  \<^verbatim>\<open>MustRegister\<close> registers its arguments one by one and panics, here \<open>None\<close>, at the first one the registry
  refuses.
\<close>

fun MustRegister :: "('g \<Rightarrow> MetricDesc \<Rightarrow> 'g option) \<Rightarrow> MetricDesc list \<Rightarrow> 'g \<Rightarrow> 'g option" where
  "MustRegister register [] g = Some g"
| "MustRegister register (d # ds) g =
     (case register g d of None \<Rightarrow> None | Some g' \<Rightarrow> MustRegister register ds g')"

text \<open>
  \<^verbatim>\<open>registerBuildInfo\<close>, which also sets the gauge to one; descriptions have no value. The package
  initialisers follow: the controller package is initialised before \<^verbatim>\<open>main\<close>, which imports it.
\<close>

definition registerBuildInfo :: "('g \<Rightarrow> MetricDesc \<Rightarrow> 'g option) \<Rightarrow> string \<Rightarrow> 'g \<Rightarrow> 'g option" where
  "registerBuildInfo register goVersion = MustRegister register [buildInfo goVersion]"

definition initMetrics :: "('g \<Rightarrow> MetricDesc \<Rightarrow> 'g option) \<Rightarrow> string \<Rightarrow> 'g \<Rightarrow> 'g option" where
  "initMetrics register goVersion g =
     (case MustRegister register controllerMetrics g of
        None \<Rightarrow> None
      | Some g' \<Rightarrow> registerBuildInfo register goVersion g')"

text \<open>
  A description is valid if its name and labels are well formed, no label is repeated, and the bounds of a
  histogram increase and leave the label \<^verbatim>\<open>le\<close> to it. A registry takes a valid description whose name is new
  to it.
\<close>

definition inRange :: "char \<Rightarrow> char \<Rightarrow> char \<Rightarrow> bool" where
  "inRange l u c \<longleftrightarrow> l \<le> c \<and> c \<le> u"

definition letter :: "char \<Rightarrow> bool" where
  "letter c \<longleftrightarrow> c = CHR ''_'' \<or> inRange (CHR ''A'') (CHR ''Z'') c \<or> inRange (CHR ''a'') (CHR ''z'') c"

definition wellNamed :: "string \<Rightarrow> bool" where
  "wellNamed s \<longleftrightarrow> s \<noteq> [] \<and> letter (hd s) \<and> (\<forall>c \<in> set s. letter c \<or> inRange (CHR ''0'') (CHR ''9'') c)"

definition allLabels :: "MetricDesc \<Rightarrow> string list" where
  "allLabels d = map fst (constLabels d) @ variableLabels d"

definition validDesc :: "MetricDesc \<Rightarrow> bool" where
  "validDesc d \<longleftrightarrow> wellNamed (fqName d) \<and> (\<forall>l \<in> set (allLabels d). wellNamed l) \<and> distinct (allLabels d) \<and>
     (case metricType d of Histogram bs \<Rightarrow> sorted_wrt (<) bs \<and> ''le'' \<notin> set (allLabels d) | _ \<Rightarrow> True)"

locale registry_lib =
  fixes register :: "'g \<Rightarrow> MetricDesc \<Rightarrow> 'g option" and names :: "'g \<Rightarrow> string set"
  assumes register_new: "validDesc d \<Longrightarrow> fqName d \<notin> names g \<Longrightarrow>
    \<exists>g'. register g d = Some g' \<and> names g' = insert (fqName d) (names g)"
begin

lemma MustRegister_new:
  "\<forall>d \<in> set ds. validDesc d \<Longrightarrow> distinct (map fqName ds) \<Longrightarrow> fqName ` set ds \<inter> names g = {} \<Longrightarrow>
   \<exists>g'. MustRegister register ds g = Some g' \<and> names g' = fqName ` set ds \<union> names g"
proof (induction ds arbitrary: g)
  case (Cons d ds)
  from Cons.prems obtain g1 where 1: "register g d = Some g1" "names g1 = insert (fqName d) (names g)"
    using register_new [of d g] by auto
  from Cons.prems have "fqName ` set ds \<inter> names g1 = {}" by (auto simp: 1)
  with Cons.IH [of g1] Cons.prems obtain g' where
    "MustRegister register ds g1 = Some g'" "names g' = fqName ` set ds \<union> names g1" by auto
  with 1 show ?case by auto
qed simp

end

text \<open>A registry that keeps the descriptions.\<close>

definition listRegister :: "MetricDesc list \<Rightarrow> MetricDesc \<Rightarrow> MetricDesc list option" where
  "listRegister g d = (if validDesc d \<and> fqName d \<notin> fqName ` set g then Some (d # g) else None)"

interpretation list_registry: registry_lib listRegister "\<lambda>g. fqName ` set g"
  by unfold_locales (simp add: listRegister_def)

lemma valid_controllerMetrics: "\<forall>d \<in> set controllerMetrics. validDesc d" "distinct (map fqName controllerMetrics)"
  by (simp_all add: controllerMetrics_def vecDesc_def vec_defs validDesc_def wellNamed_def letter_def inRange_def allLabels_def
      operationBuckets_def readyBuckets_def)

lemma valid_buildInfo: "validDesc (buildInfo v)" "fqName (buildInfo v) \<notin> fqName ` set controllerMetrics"
  by (simp_all add: buildInfo_def controllerMetrics_def vecDesc_def vec_defs validDesc_def wellNamed_def letter_def inRange_def
      allLabels_def)

text \<open>
  The initialisers register all eleven metrics without a panic, in every registry that does not hold
  one of their names already: the names and labels are well formed and distinct, and the histograms' bounds
  increase.
\<close>

lemma metrics_registered:
  assumes "registry_lib register names" and "fqName ` set (buildInfo v # controllerMetrics) \<inter> names g = {}"
  shows "\<exists>g'. initMetrics register v g = Some g' \<and>
    names g' = fqName ` set (buildInfo v # controllerMetrics) \<union> names g"
proof -
  note new = registry_lib.MustRegister_new [OF assms(1)]
  from assms(2) obtain g1 where 1: "MustRegister register controllerMetrics g = Some g1"
    "names g1 = fqName ` set controllerMetrics \<union> names g"
    using new [OF valid_controllerMetrics, of g] by auto
  have "fqName ` set [buildInfo v] \<inter> names g1 = {}" using assms(2) valid_buildInfo(2) [of v] by (auto simp: 1)
  with new [of "[buildInfo v]" g1] valid_buildInfo(1) [of v] obtain g2 where
    "MustRegister register [buildInfo v] g1 = Some g2" "names g2 = fqName ` set [buildInfo v] \<union> names g1" by auto
  with 1 show ?thesis by (auto simp: initMetrics_def registerBuildInfo_def)
qed

subsection \<open>A client that checks metrics\<close>

definition registeredAs :: "(MetricType \<Rightarrow> bool) \<Rightarrow> MetricVec \<Rightarrow> bool" where
  "registeredAs P vec \<longleftrightarrow>
     (\<exists>d \<in> set controllerMetrics. fqName d = fst vec \<and> variableLabels d = snd vec \<and> P (metricType d))"

definition isHistogram :: "MetricType \<Rightarrow> bool" where
  "isHistogram t = (case t of Histogram _ \<Rightarrow> True | _ \<Rightarrow> False)"

text \<open>
  \<^verbatim>\<open>WithLabelValues\<close> panics unless it gets one value for each label. The checked client panics in this case,
  whatever that does to the world, and also if a vector is not registered or not of the type it is used as, or
  if series are deleted by a label the vector does not have.
\<close>

definition checkedMetrics ::
  "('w \<Rightarrow> 'w) \<Rightarrow> ('w, 'z) RedkeyReconciler_scheme \<Rightarrow> ('w, 'z) RedkeyReconciler_scheme" where
  "checkedMetrics panic r =
     r\<lparr>gaugeSet := (\<lambda>vec ls x. if registeredAs (\<lambda>t. t = Gauge) vec \<and> length ls = length (snd vec)
         then gaugeSet r vec ls x else panic),
       deletePartialMatch := (\<lambda>vec m. if registeredAs (\<lambda>t. t = Gauge) vec \<and> fmdom' m \<subseteq> set (snd vec)
         then deletePartialMatch r vec m else panic),
       counterInc := (\<lambda>vec ls. if registeredAs (\<lambda>t. t = Counter) vec \<and> length ls = length (snd vec)
         then counterInc r vec ls else panic),
       histObserve := (\<lambda>vec ls d. if registeredAs isHistogram vec \<and> length ls = length (snd vec)
         then histObserve r vec ls d else panic)\<rparr>"

lemma vecs_registered:
  "vec \<in> set gaugeVecs \<Longrightarrow> registeredAs (\<lambda>t. t = Gauge) vec"
  "vec \<in> set counterVecs \<Longrightarrow> registeredAs (\<lambda>t. t = Counter) vec"
  "vec \<in> set histogramVecs \<Longrightarrow> registeredAs isHistogram vec"
  by (auto simp: gaugeVecs_def counterVecs_def histogramVecs_def registeredAs_def controllerMetrics_def vecDesc_def
      isHistogram_def)

interpretation metered: same_requests r "checkedMetrics panic r" for panic r
  by unfold_locales (simp_all add: checkedMetrics_def vecs_registered)

text \<open>
  C22. No reconcile panics on a metric: on every path each vector is registered, used as what it is, and
  given one value for each of its labels, and series are only deleted by labels they have. So a client
  that panics otherwise makes no difference, whatever a panic would do.
\<close>

theorem metrics_never_panic:
  "Reconcile (checkedMetrics panic r) key = Reconcile r key"
  by (simp only: metered.same_Reconcile)

subsection \<open>The scheme\<close>

text \<open>A scheme gives the group, version and kind of each Go type it knows.\<close>

type_synonym GVK = "string \<times> string \<times> string"

type_synonym Scheme = "(string, GVK) fmap"

definition GroupVersion :: "string \<times> string" where
  "GroupVersion = (''redkey.inditex.dev'', ''v1beta1'')"

text \<open>The types handed to \<^verbatim>\<open>SchemeBuilder.Register\<close> by the \<^verbatim>\<open>init\<close> functions of the two files of types.\<close>

definition registerRedkey :: "string list" where
  "registerRedkey = [''Redkey'', ''RedkeyList'']"

definition registerRedkeyConfig :: "string list" where
  "registerRedkeyConfig = [''RedkeyConfig'', ''RedkeyConfigList'']"

text \<open>
  \<^verbatim>\<open>AddToScheme\<close> is a method value bound to the builder's address, so it sees the types registered after it
  was evaluated. The meta types it also adds to the group version have no watches and are left out.
\<close>

definition AddToScheme :: "Scheme \<Rightarrow> Scheme" where
  "AddToScheme scheme =
     fold (\<lambda>t. fmupd (''redisv1.'' @ t) (fst GroupVersion, snd GroupVersion, t)) (registerRedkey @ registerRedkeyConfig) scheme"

text \<open>What \<^verbatim>\<open>clientgoscheme.AddToScheme\<close> has to have put there.\<close>

definition builtinKinds :: "(string \<times> GVK) list" where
  "builtinKinds =
     [(''appsv1.Deployment'', ''apps'', ''v1'', ''Deployment''),
      (''corev1.ServiceAccount'', '''', ''v1'', ''ServiceAccount''),
      (''rbacv1.Role'', ''rbac.authorization.k8s.io'', ''v1'', ''Role''),
      (''rbacv1.RoleBinding'', ''rbac.authorization.k8s.io'', ''v1'', ''RoleBinding'')]"

definition hasBuiltins :: "Scheme \<Rightarrow> bool" where
  "hasBuiltins scheme \<longleftrightarrow> (\<forall>(t, gvk) \<in> set builtinKinds. fmlookup scheme t = Some gvk)"

subsection \<open>The controller\<close>

record ControllerSpec =
  ForType :: string
  OwnsTypes :: "string list"
  ControllerName :: string
  MaxConcurrent :: "go_int option"

text \<open>\<^verbatim>\<open>SetupWithManager\<close>; \<open>complete\<close> is \<^verbatim>\<open>Complete\<close> of the builder with what the calls before it have set.\<close>

definition controllerSpec :: "('w, 'z) RedkeyReconciler_scheme \<Rightarrow> ControllerSpec" where
  "controllerSpec r =
     \<lparr>ForType = ''redisv1.Redkey'',
      OwnsTypes = [''redisv1.RedkeyConfig'', ''appsv1.Deployment'', ''corev1.ServiceAccount'', ''rbacv1.Role'',
        ''rbacv1.RoleBinding''],
      ControllerName = ''redkey'', MaxConcurrent = controllerOptions r\<rparr>"

definition setupController ::
  "(ControllerSpec \<Rightarrow> ('m, unit) io) \<Rightarrow> ('w, 'z) RedkeyReconciler_scheme \<Rightarrow> ('m, unit) io" where
  "setupController complete r = complete (controllerSpec r)"

text \<open>The resource of a kind: its name in lower case, with an s.\<close>

definition resourceOf :: "string \<Rightarrow> string" where
  "resourceOf k = map (\<lambda>c. if inRange (CHR ''A'') (CHR ''Z'') c then char_of (of_char c + 32 :: nat) else c) k @ ''s''"

lemma resources:
  "resourceOf ''Redkey'' = ''redkeys''" "resourceOf ''RedkeyConfig'' = ''redkeyconfigs''"
  "resourceOf ''Deployment'' = ''deployments''" "resourceOf ''ServiceAccount'' = ''serviceaccounts''"
  "resourceOf ''Role'' = ''roles''" "resourceOf ''RoleBinding'' = ''rolebindings''"
  by code_simp+

text \<open>
  A type can be watched if it is in the scheme and the caches may list and watch its kind. A builder is
  documented to resolve the types in the scheme and to fail on one that is not there; with types that can be
  watched it sets up the watches.
\<close>

definition watchable :: "PolicyRule list \<Rightarrow> Scheme \<Rightarrow> string \<Rightarrow> bool" where
  "watchable rules scheme t \<longleftrightarrow>
     (case fmlookup scheme t of None \<Rightarrow> False | Some (g, v, k) \<Rightarrow> mayRead rules g (resourceOf k))"

definition watchedTypes :: "ControllerSpec \<Rightarrow> string list" where
  "watchedTypes spec = ForType spec # OwnsTypes spec"

locale builder_lib =
  fixes rules :: "PolicyRule list" and scheme :: Scheme
    and complete :: "ControllerSpec \<Rightarrow> ('m, unit) io" and watches :: "'m \<Rightarrow> GVK set"
  assumes complete_ok: "\<forall>t \<in> set (watchedTypes spec). watchable rules scheme t \<Longrightarrow>
    \<exists>m'. complete spec m = (Inr (), m') \<and>
      watches m' = watches m \<union> (\<lambda>t. the (fmlookup scheme t)) ` set (watchedTypes spec)"

text \<open>A builder whose state is the list of what it watches.\<close>

definition completeWith :: "PolicyRule list \<Rightarrow> Scheme \<Rightarrow> ControllerSpec \<Rightarrow> (GVK list, unit) io" where
  "completeWith rules scheme spec =
     (if \<forall>t \<in> set (watchedTypes spec). watchable rules scheme t
      then modifyE (\<lambda>ws. ws @ map (\<lambda>t. the (fmlookup scheme t)) (watchedTypes spec))
      else throwE (OtherError ''no kind is registered for the type''))"

interpretation list_builder: builder_lib rules scheme "completeWith rules scheme" set for rules scheme
  by unfold_locales (auto simp: completeWith_def modifyE_def)

lemma scheme_own:
  "fmlookup (AddToScheme s) ''redisv1.Redkey'' = Some (''redkey.inditex.dev'', ''v1beta1'', ''Redkey'')"
  "fmlookup (AddToScheme s) ''redisv1.RedkeyConfig'' = Some (''redkey.inditex.dev'', ''v1beta1'', ''RedkeyConfig'')"
  by (simp_all add: AddToScheme_def registerRedkey_def registerRedkeyConfig_def GroupVersion_def)

lemma scheme_builtins:
  assumes "hasBuiltins s"
  shows "fmlookup (AddToScheme s) ''appsv1.Deployment'' = Some (''apps'', ''v1'', ''Deployment'')"
    "fmlookup (AddToScheme s) ''corev1.ServiceAccount'' = Some ('''', ''v1'', ''ServiceAccount'')"
    "fmlookup (AddToScheme s) ''rbacv1.Role'' = Some (''rbac.authorization.k8s.io'', ''v1'', ''Role'')"
    "fmlookup (AddToScheme s) ''rbacv1.RoleBinding'' = Some (''rbac.authorization.k8s.io'', ''v1'', ''RoleBinding'')"
  using assms by (simp_all add: AddToScheme_def registerRedkey_def registerRedkeyConfig_def hasBuiltins_def builtinKinds_def)

text \<open>
  C23. The controller comes up and watches what it writes. With the scheme that \<^verbatim>\<open>main\<close> builds, every type of
  \<^verbatim>\<open>SetupWithManager\<close> resolves to a kind that the operator's permissions allow it to list and watch, and
  the watches are on the Redkeys and on each kind of object the operator creates for one.
\<close>

theorem controller_watches:
  assumes "hasBuiltins clientgo" and "builder_lib operatorRules (AddToScheme clientgo) complete watches"
  shows "\<exists>m'. setupController complete r m = (Inr (), m') \<and> watches m' = watches m \<union>
    {(''redkey.inditex.dev'', ''v1beta1'', ''Redkey''), (''redkey.inditex.dev'', ''v1beta1'', ''RedkeyConfig''),
     (''apps'', ''v1'', ''Deployment''), ('''', ''v1'', ''ServiceAccount''),
     (''rbac.authorization.k8s.io'', ''v1'', ''Role''), (''rbac.authorization.k8s.io'', ''v1'', ''RoleBinding'')}"
proof -
  note found = scheme_own scheme_builtins [OF assms(1)]
  have "\<forall>t \<in> set (watchedTypes (controllerSpec r)). watchable operatorRules (AddToScheme clientgo) t"
    by (simp add: controllerSpec_def watchedTypes_def watchable_def found resources auth_simps)
  from builder_lib.complete_ok [OF assms(2) this, of m] show ?thesis
    by (simp add: setupController_def controllerSpec_def watchedTypes_def found insert_commute)
qed

theorem controller_watches_witness:
  "\<exists>ws. setupController (completeWith operatorRules (AddToScheme (fmap_of_list builtinKinds))) memReconciler [] = (Inr (), ws) \<and>
     ('''', ''v1'', ''ServiceAccount'') \<in> set ws"
proof -
  have "hasBuiltins (fmap_of_list builtinKinds)" by (simp add: hasBuiltins_def builtinKinds_def fmlookup_of_list)
  from controller_watches [OF this list_builder.builder_lib_axioms, of memReconciler "[]"] show ?thesis by auto
qed

end
