(* ===== verification/Go_Heap.thy ===== *)
theory Go_Heap imports "HOL-Library.Finite_Map" begin

section \<open>Go values with references\<close>

text \<open>
  The generated \<^verbatim>\<open>DeepCopyInto\<close> functions are about sharing, which the other theories do not see: there
  objects are values. Here a Go value is a plain value, a struct, or a reference, that is a pointer, a
  slice or a map, to a cell of a heap. A type says where the references of a value are, and so what a
  deep copy of it has to be. This theory holds the heap, the statements the generated code consists
  of, and the rule for each of them.
\<close>

named_theorems copies_rules "how the statements of the generated code copy"

subsection \<open>Values, cells and types\<close>

type_synonym addr = nat

text \<open>A plain value is one without references: a number, a string, a boolean.\<close>

datatype gval =
    Plain string
  | Struct "(string \<times> gval) list"
  | Ref "addr option"

text \<open>What a pointer, a slice and a map refer to.\<close>

datatype cell =
    Pointee gval
  | Elems "gval list"
  | Entries "(string \<times> gval) list"

record heap =
  cells :: "(addr, cell) fmap"
  brk :: addr

datatype gtype =
    TPlain
  | TStruct "(string \<times> gtype) list"
  | TPtr gtype
  | TSlice gtype
  | TMap gtype

definition wfHeap :: "heap \<Rightarrow> bool" where
  "wfHeap h \<longleftrightarrow> (\<forall>a. brk h \<le> a \<longrightarrow> fmlookup (cells h) a = None)"

text \<open>\<^verbatim>\<open>new\<close> and \<^verbatim>\<open>make\<close>: a cell at an address that was not in use.\<close>

definition alloc :: "cell \<Rightarrow> heap \<Rightarrow> gval \<times> heap" where
  "alloc c h = (Ref (Some (brk h)), \<lparr>cells = fmupd (brk h) c (cells h), brk = Suc (brk h)\<rparr>)"

definition store :: "addr \<Rightarrow> cell \<Rightarrow> heap \<Rightarrow> heap" where
  "store a c h = h\<lparr>cells := fmupd a c (cells h)\<rparr>"

subsection \<open>Contents and footprint\<close>

text \<open>What a reader sees who follows every reference; a nil reference and an empty one differ.\<close>

datatype gtree =
    NilRef
  | Leaf string
  | Fields "(string \<times> gtree) list"
  | Target gtree
  | Items "gtree list"
  | Assocs "(string \<times> gtree) list"

text \<open>
  \<open>rep h t v c A\<close>: in the heap \<open>h\<close> the value \<open>v\<close> has type \<open>t\<close> and contents \<open>c\<close>, and \<open>A\<close> are the cells it
  reaches. \<open>repl\<close> is the same for a list of named values: the fields of a struct, the elements of a
  slice (without names) and the entries of a map.
\<close>

inductive rep :: "heap \<Rightarrow> gtype \<Rightarrow> gval \<Rightarrow> gtree \<Rightarrow> addr set \<Rightarrow> bool"
  and repl :: "heap \<Rightarrow> (string \<times> gtype) list \<Rightarrow> (string \<times> gval) list \<Rightarrow> (string \<times> gtree) list \<Rightarrow> addr set \<Rightarrow> bool"
  for h where
  plain: "rep h TPlain (Plain x) (Leaf x) {}"
| struct: "repl h fts fvs cs A \<Longrightarrow> rep h (TStruct fts) (Struct fvs) (Fields cs) A"
| nilptr: "rep h (TPtr t) (Ref None) NilRef {}"
| nilslice: "rep h (TSlice t) (Ref None) NilRef {}"
| nilmap: "rep h (TMap t) (Ref None) NilRef {}"
| ptr: "fmlookup (cells h) a = Some (Pointee x) \<Longrightarrow> rep h t x c A \<Longrightarrow>
    rep h (TPtr t) (Ref (Some a)) (Target c) (insert a A)"
| slice: "fmlookup (cells h) a = Some (Elems xs) \<Longrightarrow>
    repl h (map (\<lambda>_. ([], t)) xs) (map (Pair []) xs) (map (Pair []) cs) A \<Longrightarrow>
    rep h (TSlice t) (Ref (Some a)) (Items cs) (insert a A)"
| mapping: "fmlookup (cells h) a = Some (Entries kvs) \<Longrightarrow>
    repl h (map (\<lambda>k. (k, t)) (map fst kvs)) kvs cs A \<Longrightarrow>
    rep h (TMap t) (Ref (Some a)) (Assocs cs) (insert a A)"
| none: "repl h [] [] [] {}"
| some: "rep h t v c A \<Longrightarrow> repl h fts fvs cs B \<Longrightarrow>
    repl h ((f, t) # fts) ((f, v) # fvs) ((f, c) # cs) (A \<union> B)"

inductive_cases rep_plainE: "rep h TPlain v c A"
inductive_cases rep_structE: "rep h (TStruct fts) v c A"
inductive_cases rep_ptrE: "rep h (TPtr t) v c A"
inductive_cases rep_sliceE: "rep h (TSlice t) v c A"
inductive_cases rep_mapE: "rep h (TMap t) v c A"
inductive_cases repl_NilE: "repl h [] fvs cs A"
inductive_cases repl_ConsE: "repl h ((f, t) # fts) fvs cs A"

text \<open>Only the cells that are reached matter.\<close>

lemma rep_frame:
  "rep h t v c A \<Longrightarrow> (\<And>a. a \<in> A \<Longrightarrow> fmlookup (cells h') a = fmlookup (cells h) a) \<Longrightarrow> rep h' t v c A"
  "repl h fts fvs cs A \<Longrightarrow> (\<And>a. a \<in> A \<Longrightarrow> fmlookup (cells h') a = fmlookup (cells h) a) \<Longrightarrow> repl h' fts fvs cs A"
  by (induction rule: rep_repl.inducts) (auto intro: rep_repl.intros)

lemma rep_used:
  "rep h t v c A \<Longrightarrow> wfHeap h \<Longrightarrow> a \<in> A \<Longrightarrow> a < brk h"
  "repl h fts fvs cs A \<Longrightarrow> wfHeap h \<Longrightarrow> a \<in> A \<Longrightarrow> a < brk h"
  by (induction rule: rep_repl.inducts) (auto simp: wfHeap_def not_less [symmetric])

subsection \<open>Reading a value\<close>

text \<open>\<open>rep\<close> computed: what a program sees that follows the references of a value.\<close>

fun readAll :: "('a \<Rightarrow> ('b \<times> addr set) option) \<Rightarrow> 'a list \<Rightarrow> ('b list \<times> addr set) option" where
  "readAll f [] = Some ([], {})"
| "readAll f (x # xs) =
     (case f x of None \<Rightarrow> None
      | Some (y, A) \<Rightarrow> (case readAll f xs of None \<Rightarrow> None | Some (ys, B) \<Rightarrow> Some (y # ys, A \<union> B)))"

fun read :: "heap \<Rightarrow> gtype \<Rightarrow> gval \<Rightarrow> (gtree \<times> addr set) option"
  and readFields :: "heap \<Rightarrow> (string \<times> gtype) list \<Rightarrow> (string \<times> gval) list \<Rightarrow> ((string \<times> gtree) list \<times> addr set) option"
where
  "read h TPlain (Plain x) = Some (Leaf x, {})"
| "read h (TStruct fts) (Struct fvs) = map_option (apfst Fields) (readFields h fts fvs)"
| "read h (TPtr t) (Ref None) = Some (NilRef, {})"
| "read h (TSlice t) (Ref None) = Some (NilRef, {})"
| "read h (TMap t) (Ref None) = Some (NilRef, {})"
| "read h (TPtr t) (Ref (Some a)) =
     (case fmlookup (cells h) a of
        Some (Pointee x) \<Rightarrow> map_option (map_prod Target (insert a)) (read h t x)
      | _ \<Rightarrow> None)"
| "read h (TSlice t) (Ref (Some a)) =
     (case fmlookup (cells h) a of
        Some (Elems xs) \<Rightarrow> map_option (map_prod Items (insert a)) (readAll (read h t) xs)
      | _ \<Rightarrow> None)"
| "read h (TMap t) (Ref (Some a)) =
     (case fmlookup (cells h) a of
        Some (Entries kvs) \<Rightarrow>
          map_option (map_prod (\<lambda>cs. Assocs (zip (map fst kvs) cs)) (insert a)) (readAll (\<lambda>kv. read h t (snd kv)) kvs)
      | _ \<Rightarrow> None)"
| "read h _ _ = None"
| "readFields h [] [] = Some ([], {})"
| "readFields h ((f, t) # fts) ((g, v) # fvs) =
     (if f = g
      then (case read h t v of None \<Rightarrow> None
            | Some (c, A) \<Rightarrow> map_option (map_prod (Cons (f, c)) ((\<union>) A)) (readFields h fts fvs))
      else None)"
| "readFields h _ _ = None"

lemma readAll_elems:
  assumes "readAll f xs = Some (cs, A)" and "\<And>x c B. x \<in> set xs \<Longrightarrow> f x = Some (c, B) \<Longrightarrow> rep h t (g x) c B"
  shows "repl h (map (\<lambda>x. (k x, t)) xs) (map (\<lambda>x. (k x, g x)) xs) (zip (map k xs) cs) A \<and> length cs = length xs"
  using assms
proof (induction xs arbitrary: cs A)
  case Nil
  then show ?case by (auto intro: rep_repl.intros)
next
  case (Cons x xs)
  from Cons.prems(1) obtain c B ds C where
    "f x = Some (c, B)" "readAll f xs = Some (ds, C)" "cs = c # ds" "A = B \<union> C"
    by (auto split: option.splits prod.splits)
  with Cons show ?case by (auto intro: rep_repl.some)
qed

lemma read_rep:
  "read h t v = Some (c, A) \<Longrightarrow> rep h t v c A"
  "readFields h fts fvs = Some (cs, A) \<Longrightarrow> repl h fts fvs cs A"
proof (induction h t v and h fts fvs arbitrary: c A and cs A rule: read_readFields.induct)
  case (7 h t a)
  from 7(2) obtain xs cs B where x: "fmlookup (cells h) a = Some (Elems xs)"
    "readAll (read h t) xs = Some (cs, B)" "c = Items cs" "A = insert a B"
    by (auto split: option.splits cell.splits)
  from readAll_elems [OF x(2), of h t id "\<lambda>_. []"] 7(1) [OF x(1) refl]
  show ?case unfolding x
    by (intro rep_repl.slice [OF x(1)]) (auto simp: map_replicate_const zip_replicate1)
next
  case (8 h t a)
  from 8(2) obtain kvs cs B where x: "fmlookup (cells h) a = Some (Entries kvs)"
    "readAll (\<lambda>kv. read h t (snd kv)) kvs = Some (cs, B)" "c = Assocs (zip (map fst kvs) cs)" "A = insert a B"
    by (auto split: option.splits cell.splits)
  from readAll_elems [OF x(2), of h t snd fst] 8(1) [OF x(1) refl]
  show ?case unfolding x by (intro rep_repl.mapping [OF x(1)]) (simp add: o_def)
qed (auto split: option.splits cell.splits if_splits intro: rep_repl.intros, blast intro: rep_repl.some)

subsection \<open>Copiers\<close>

type_synonym copier = "gval \<Rightarrow> heap \<Rightarrow> gval \<times> heap"

text \<open>The old cells are untouched.\<close>

definition extends :: "heap \<Rightarrow> heap \<Rightarrow> bool" where
  "extends h h' \<longleftrightarrow> wfHeap h' \<and> brk h \<le> brk h' \<and> (\<forall>a < brk h. fmlookup (cells h') a = fmlookup (cells h) a)"

text \<open>The result has the same type and contents and reaches new cells only.\<close>

definition copies :: "gtype \<Rightarrow> copier \<Rightarrow> bool" where
  "copies t f \<longleftrightarrow> (\<forall>h v c A v' h'. wfHeap h \<longrightarrow> rep h t v c A \<longrightarrow> f v h = (v', h') \<longrightarrow>
     extends h h' \<and> (\<exists>A'. rep h' t v' c A' \<and> A' \<subseteq> {brk h ..< brk h'}))"

lemma copiesI:
  assumes "\<And>h v c A v' h'. wfHeap h \<Longrightarrow> rep h t v c A \<Longrightarrow> f v h = (v', h') \<Longrightarrow>
    extends h h' \<and> (\<exists>A'. rep h' t v' c A' \<and> A' \<subseteq> {brk h ..< brk h'})"
  shows "copies t f"
  using assms unfolding copies_def by blast

lemma copiesD:
  assumes "copies t f" and "wfHeap h" and "rep h t v c A" and "f v h = (v', h')"
  obtains A' where "extends h h'" and "rep h' t v' c A'" and "A' \<subseteq> {brk h ..< brk h'}"
  using assms unfolding copies_def by blast

lemma extends_refl [simp]: "wfHeap h \<Longrightarrow> extends h h"
  by (simp add: extends_def)

lemma extends_trans: "extends h h1 \<Longrightarrow> extends h1 h2 \<Longrightarrow> extends h h2"
  by (auto simp: extends_def)

lemma rep_extends:
  "rep h t v c A \<Longrightarrow> wfHeap h \<Longrightarrow> extends h h' \<Longrightarrow> rep h' t v c A"
  "repl h fts fvs cs A \<Longrightarrow> wfHeap h \<Longrightarrow> extends h h' \<Longrightarrow> repl h' fts fvs cs A"
  by (meson extends_def rep_frame rep_used)+

lemma alloc_extends:
  assumes "wfHeap h" and "alloc c h = (v, h')"
  shows "extends h h'" "v = Ref (Some (brk h))" "fmlookup (cells h') (brk h) = Some c" "brk h' = Suc (brk h)"
  using assms by (auto simp: alloc_def extends_def wfHeap_def)

subsection \<open>The statements of the generated code\<close>

text \<open>\<^verbatim>\<open>*out = *in\<close> alone.\<close>

definition shallow :: copier where
  "shallow v h = (v, h)"

text \<open>
  \<^verbatim>\<open>if in.F != nil { *out = new(T); (*in).DeepCopyInto(*out) }\<close>. A value of a pointer type always refers
  to a cell of the right kind; the other cases are there for totality. The new cell gets its address
  after the pointee has been copied, which is not observable.
\<close>

definition copyPtr :: "copier \<Rightarrow> copier" where
  "copyPtr f v h =
     (case v of
        Ref (Some a) \<Rightarrow>
          (case fmlookup (cells h) a of
             Some (Pointee x) \<Rightarrow> (case f x h of (x', h') \<Rightarrow> alloc (Pointee x') h')
           | _ \<Rightarrow> (v, h))
      | _ \<Rightarrow> (v, h))"

text \<open>The loops over elements and entries, and the fields of a struct, each with its copier.\<close>

fun copyAll :: "(string \<Rightarrow> copier) \<Rightarrow> (string \<times> gval) list \<Rightarrow> heap \<Rightarrow> (string \<times> gval) list \<times> heap" where
  "copyAll f [] h = ([], h)"
| "copyAll f ((k, v) # kvs) h =
     (case f k v h of (v', h1) \<Rightarrow> case copyAll f kvs h1 of (kvs', h2) \<Rightarrow> ((k, v') # kvs', h2))"

text \<open>\<^verbatim>\<open>*out = make([]T, len(*in)); for i := range *in { (*in)[i].DeepCopyInto(&(*out)[i]) }\<close>\<close>

definition copySlice :: "copier \<Rightarrow> copier" where
  "copySlice f v h =
     (case v of
        Ref (Some a) \<Rightarrow>
          (case fmlookup (cells h) a of
             Some (Elems xs) \<Rightarrow>
               (case copyAll (\<lambda>_. f) (map (Pair []) xs) h of (xs', h') \<Rightarrow> alloc (Elems (map snd xs')) h')
           | _ \<Rightarrow> (v, h))
      | _ \<Rightarrow> (v, h))"

text \<open>\<^verbatim>\<open>*out = make(map[string]T, len(*in)); for key, val := range *in { (*out)[key] = ... }\<close>\<close>

definition copyMap :: "copier \<Rightarrow> copier" where
  "copyMap f v h =
     (case v of
        Ref (Some a) \<Rightarrow>
          (case fmlookup (cells h) a of
             Some (Entries kvs) \<Rightarrow>
               (case copyAll (\<lambda>_. f) kvs h of (kvs', h') \<Rightarrow> alloc (Entries kvs') h')
           | _ \<Rightarrow> (v, h))
      | _ \<Rightarrow> (v, h))"

text \<open>
  A \<^verbatim>\<open>DeepCopyInto\<close>: \<^verbatim>\<open>*out = *in\<close> and then one statement for some of the fields, in the order of their
  declaration.
\<close>

definition action :: "(string \<times> copier) list \<Rightarrow> string \<Rightarrow> copier" where
  "action acts f = (case map_of acts f of None \<Rightarrow> shallow | Some c \<Rightarrow> c)"

definition copyStruct :: "(string \<times> copier) list \<Rightarrow> copier" where
  "copyStruct acts v h =
     (case v of Struct fvs \<Rightarrow> (case copyAll (action acts) fvs h of (fvs', h') \<Rightarrow> (Struct fvs', h')) | _ \<Rightarrow> (v, h))"

subsection \<open>One rule for each statement\<close>

fun flat :: "gtype \<Rightarrow> bool" where
  "flat TPlain = True"
| "flat (TStruct fts) = (\<forall>ft \<in> set fts. flat (snd ft))"
| "flat _ = False"

lemma rep_flat:
  "rep h t v c A \<Longrightarrow> flat t \<Longrightarrow> A = {}"
  "repl h fts fvs cs A \<Longrightarrow> \<forall>ft \<in> set fts. flat (snd ft) \<Longrightarrow> A = {}"
  by (induction rule: rep_repl.inducts) auto

lemma copies_shallow [copies_rules]: "flat t \<Longrightarrow> copies t shallow"
  by (rule copiesI) (auto simp: shallow_def dest: rep_flat(1))

text \<open>A fresh cell for contents that are fresh themselves.\<close>

lemma alloc_fresh:
  assumes "extends h h1" and "A1 \<subseteq> {brk h ..< brk h1}" and al: "alloc x h1 = (v', h')"
    and "\<And>h'. extends h1 h' \<Longrightarrow> fmlookup (cells h') (brk h1) = Some x \<Longrightarrow>
      rep h' t (Ref (Some (brk h1))) c (insert (brk h1) A1)"
  shows "extends h h' \<and> (\<exists>A'. rep h' t v' c A' \<and> A' \<subseteq> {brk h ..< brk h'})"
proof -
  have wf1: "wfHeap h1" using assms(1) by (simp add: extends_def)
  note a = alloc_extends [OF wf1 al]
  have "insert (brk h1) A1 \<subseteq> {brk h ..< brk h'}" using assms(1,2) a by (auto simp: extends_def)
  moreover have "extends h h'" by (rule extends_trans [OF assms(1) a(1)])
  ultimately show ?thesis using assms(4) [OF a(1,3)] unfolding a(2) by blast
qed

lemma copies_ptr [copies_rules]:
  assumes "copies t f"
  shows "copies (TPtr t) (copyPtr f)"
proof (rule copiesI)
  fix h v c A v' h'
  assume wf: "wfHeap h" and rp: "rep h (TPtr t) v c A" and run: "copyPtr f v h = (v', h')"
  from rp consider "v = Ref None" "c = NilRef"
    | a x d B where "v = Ref (Some a)" "c = Target d" "fmlookup (cells h) a = Some (Pointee x)" "rep h t x d B"
    by (auto elim: rep_ptrE)
  then show "extends h h' \<and> (\<exists>A'. rep h' (TPtr t) v' c A' \<and> A' \<subseteq> {brk h ..< brk h'})"
  proof cases
    case 1
    with run wf show ?thesis by (auto simp: copyPtr_def intro: rep_repl.intros)
  next
    case (2 a x d B)
    obtain x' h1 where x: "f x h = (x', h1)" by (cases "f x h")
    obtain A1 where A1: "extends h h1" "rep h1 t x' d A1" "A1 \<subseteq> {brk h ..< brk h1}"
      using copiesD [OF assms wf 2(4) x] .
    have wf1: "wfHeap h1" using A1(1) by (simp add: extends_def)
    from run 2 x have al: "alloc (Pointee x') h1 = (v', h')" by (simp add: copyPtr_def)
    show ?thesis unfolding 2(2)
      by (rule alloc_fresh [OF A1(1,3) al]) (blast intro: rep_repl.ptr rep_extends(1) [OF A1(2) wf1])
  qed
qed

text \<open>The loops.\<close>

lemma copyAll_names: "copyAll f fvs h = (fvs', h') \<Longrightarrow> map fst fvs' = map fst fvs"
  by (induction fvs arbitrary: h fvs' h') (auto split: prod.splits)

lemma copyAll_rep:
  assumes "repl h fts fvs cs A" and "wfHeap h" and "copyAll f fvs h = (fvs', h')"
    and "\<And>k t. (k, t) \<in> set fts \<Longrightarrow> copies t (f k)"
  shows "extends h h' \<and> (\<exists>A'. repl h' fts fvs' cs A' \<and> A' \<subseteq> {brk h ..< brk h'})"
  using assms
proof (induction fts arbitrary: fvs cs A h fvs' h')
  case Nil
  then show ?case by (auto elim!: repl_NilE intro: rep_repl.intros)
next
  case (Cons ft fts)
  obtain k t where ft: "ft = (k, t)" by (cases ft)
  from Cons.prems(1) obtain v vs c ds B D where s: "fvs = (k, v) # vs" "cs = (k, c) # ds"
    "rep h t v c B" "repl h fts vs ds D"
    unfolding ft by (auto elim!: repl_ConsE)
  obtain v' h1 where v: "f k v h = (v', h1)" by (cases "f k v h")
  obtain vs' h2 where vs: "copyAll f vs h1 = (vs', h2)" by (cases "copyAll f vs h1")
  have res: "fvs' = (k, v') # vs'" "h' = h2" using Cons.prems(3) v vs by (simp_all add: s)
  have "copies t (f k)" by (rule Cons.prems(4)) (simp add: ft)
  from copiesD [OF this Cons.prems(2) s(3) v]
  obtain A1 where 1: "extends h h1" "rep h1 t v' c A1" "A1 \<subseteq> {brk h ..< brk h1}" .
  have wf1: "wfHeap h1" using 1(1) by (simp add: extends_def)
  have "repl h1 fts vs ds D" by (rule rep_extends(2) [OF s(4) Cons.prems(2) 1(1)])
  from Cons.IH [OF this wf1 vs] Cons.prems(4) obtain A2 where
    2: "extends h1 h2" "repl h2 fts vs' ds A2" "A2 \<subseteq> {brk h1 ..< brk h2}" by auto
  have "rep h2 t v' c A1" by (rule rep_extends(1) [OF 1(2) wf1 2(1)])
  from rep_repl.some [OF this 2(2)]
  have "repl h2 ((k, t) # fts) ((k, v') # vs') ((k, c) # ds) (A1 \<union> A2)" .
  moreover have "A1 \<union> A2 \<subseteq> {brk h ..< brk h2}" using 1 2 by (auto simp: extends_def)
  moreover have "extends h h2" by (rule extends_trans [OF 1(1) 2(1)])
  ultimately show ?case unfolding ft s res by blast
qed

lemma unnamed:
  "map fst ys = map (\<lambda>_. []) xs \<Longrightarrow> map (Pair []) (map snd ys) = ys"
  "map fst ys = map (\<lambda>_. []) xs \<Longrightarrow> map (\<lambda>_. z) (map snd ys) = map (\<lambda>_. z) xs"
  by (induction ys arbitrary: xs) (auto simp: Cons_eq_map_conv)

lemma copies_slice [copies_rules]:
  assumes "copies t f"
  shows "copies (TSlice t) (copySlice f)"
proof (rule copiesI)
  fix h v c A v' h'
  assume wf: "wfHeap h" and rp: "rep h (TSlice t) v c A" and run: "copySlice f v h = (v', h')"
  from rp consider "v = Ref None" "c = NilRef"
    | a xs ds B where "v = Ref (Some a)" "c = Items ds" "fmlookup (cells h) a = Some (Elems xs)"
        "repl h (map (\<lambda>_. ([], t)) xs) (map (Pair []) xs) (map (Pair []) ds) B"
    by (auto elim: rep_sliceE)
  then show "extends h h' \<and> (\<exists>A'. rep h' (TSlice t) v' c A' \<and> A' \<subseteq> {brk h ..< brk h'})"
  proof cases
    case 1
    with run wf show ?thesis by (auto simp: copySlice_def intro: rep_repl.intros)
  next
    case (2 a xs ds B)
    obtain ys h1 where x: "copyAll (\<lambda>_. f) (map (Pair []) xs) h = (ys, h1)"
      by (cases "copyAll (\<lambda>_. f) (map (Pair []) xs) h")
    obtain A1 where A1: "extends h h1" "repl h1 (map (\<lambda>_. ([], t)) xs) ys (map (Pair []) ds) A1"
      "A1 \<subseteq> {brk h ..< brk h1}"
      using copyAll_rep [OF 2(4) wf x] assms by auto
    have wf1: "wfHeap h1" using A1(1) by (simp add: extends_def)
    have names: "map fst ys = map (\<lambda>_. []) xs" using copyAll_names [OF x] by (simp add: o_def)
    with A1(2) have A2: "repl h1 (map (\<lambda>_. ([], t)) (map snd ys)) (map (Pair []) (map snd ys)) (map (Pair []) ds) A1"
      by (simp only: unnamed)
    from run 2 x have al: "alloc (Elems (map snd ys)) h1 = (v', h')" by (simp add: copySlice_def)
    show ?thesis unfolding 2(2)
      by (rule alloc_fresh [OF A1(1,3) al]) (blast intro: rep_repl.slice rep_extends(2) [OF A2 wf1])
  qed
qed

lemma copies_map [copies_rules]:
  assumes "copies t f"
  shows "copies (TMap t) (copyMap f)"
proof (rule copiesI)
  fix h v c A v' h'
  assume wf: "wfHeap h" and rp: "rep h (TMap t) v c A" and run: "copyMap f v h = (v', h')"
  from rp consider "v = Ref None" "c = NilRef"
    | a kvs ds B where "v = Ref (Some a)" "c = Assocs ds" "fmlookup (cells h) a = Some (Entries kvs)"
        "repl h (map (\<lambda>k. (k, t)) (map fst kvs)) kvs ds B"
    by (auto elim: rep_mapE)
  then show "extends h h' \<and> (\<exists>A'. rep h' (TMap t) v' c A' \<and> A' \<subseteq> {brk h ..< brk h'})"
  proof cases
    case 1
    with run wf show ?thesis by (auto simp: copyMap_def intro: rep_repl.intros)
  next
    case (2 a kvs ds B)
    obtain ys h1 where x: "copyAll (\<lambda>_. f) kvs h = (ys, h1)" by (cases "copyAll (\<lambda>_. f) kvs h")
    obtain A1 where A1: "extends h h1" "repl h1 (map (\<lambda>k. (k, t)) (map fst kvs)) ys ds A1" "A1 \<subseteq> {brk h ..< brk h1}"
      using copyAll_rep [OF 2(4) wf x] assms by auto
    have wf1: "wfHeap h1" using A1(1) by (simp add: extends_def)
    from A1(2) have A2: "repl h1 (map (\<lambda>k. (k, t)) (map fst ys)) ys ds A1" by (simp only: copyAll_names [OF x])
    from run 2 x have al: "alloc (Entries ys) h1 = (v', h')" by (simp add: copyMap_def)
    show ?thesis unfolding 2(2)
      by (rule alloc_fresh [OF A1(1,3) al]) (blast intro: rep_repl.mapping rep_extends(2) [OF A2 wf1])
  qed
qed

lemma copies_struct [copies_rules]:
  assumes "\<forall>ft \<in> set fts. copies (snd ft) (action acts (fst ft))"
  shows "copies (TStruct fts) (copyStruct acts)"
proof (rule copiesI)
  fix h v c A v' h'
  assume wf: "wfHeap h" and rp: "rep h (TStruct fts) v c A" and run: "copyStruct acts v h = (v', h')"
  from rp obtain fvs cs where v: "v = Struct fvs" "c = Fields cs" "repl h fts fvs cs A" by (auto elim: rep_structE)
  obtain fvs' h1 where x: "copyAll (action acts) fvs h = (fvs', h1)" by (cases "copyAll (action acts) fvs h")
  from run have r: "v' = Struct fvs'" "h' = h1" by (simp_all add: copyStruct_def v x)
  have "extends h h1 \<and> (\<exists>A'. repl h1 fts fvs' cs A' \<and> A' \<subseteq> {brk h ..< brk h1})"
    by (rule copyAll_rep [OF v(3) wf x]) (use assms in fastforce)
  then show "extends h h' \<and> (\<exists>A'. rep h' (TStruct fts) v' c A' \<and> A' \<subseteq> {brk h ..< brk h'})"
    by (auto simp: v r intro: rep_repl.struct)
qed

subsection \<open>What a deep copy is good for\<close>

text \<open>A value has one contents and one footprint.\<close>

lemma rep_det:
  "rep h t v c A \<Longrightarrow> rep h t v d B \<Longrightarrow> c = d \<and> A = B"
  "repl h fts fvs cs A \<Longrightarrow> repl h fts fvs ds B \<Longrightarrow> cs = ds \<and> A = B"
proof (induction arbitrary: d B and ds B rule: rep_repl.inducts)
  case (slice a xs t cs A)
  from slice(1,4) obtain es C where d: "d = Items es" "B = insert a C"
    "repl h (map (\<lambda>_. ([], t)) xs) (map (Pair []) xs) (map (Pair []) es) C" by (auto elim: rep_sliceE)
  from slice(3) [OF d(3)] have "cs = es" "A = C" by (auto simp: inj_map_eq_map inj_on_def)
  with d show ?case by simp
next
  case (mapping a kvs t cs A)
  from mapping(1,3,4) show ?case by (auto elim!: rep_mapE)
next
  case (ptr a x t c A)
  from ptr(1,3,4) show ?case by (auto elim!: rep_ptrE)
next
  case (some t v c A fts fvs cs B f)
  from some(2,4,5) show ?case by (auto elim!: repl_ConsE)
next
  case (struct fts fvs cs A)
  from struct(2,3) show ?case by (auto elim!: rep_structE)
qed (auto elim: rep_plainE rep_structE rep_ptrE rep_sliceE rep_mapE repl_NilE)

text \<open>The original is as it was, the copy shares nothing with it, and so a write to the one is not seen by the other.\<close>

lemma copy_independent:
  assumes "copies t f" and "wfHeap h" and "rep h t v c A" and "f v h = (v', h')"
  obtains A' where "rep h' t v c A" and "rep h' t v' c A'" and "A \<inter> A' = {}"
    and "\<And>a x. a \<in> A' \<Longrightarrow> rep (store a x h') t v c A"
    and "\<And>a x. a \<in> A \<Longrightarrow> rep (store a x h') t v' c A'"
proof -
  from copiesD [OF assms] obtain A' where A': "extends h h'" "rep h' t v' c A'" "A' \<subseteq> {brk h ..< brk h'}" .
  have old: "rep h' t v c A" by (rule rep_extends(1) [OF assms(3,2) A'(1)])
  have disj: "A \<inter> A' = {}" using A'(3) rep_used(1) [OF assms(3,2)] by force
  have "rep (store a x h') t v c A" if "a \<in> A'" for a x
    by (rule rep_frame(1) [OF old]) (use that disj in \<open>auto simp: store_def\<close>)
  moreover have "rep (store a x h') t v' c A'" if "a \<in> A" for a x
    by (rule rep_frame(1) [OF A'(2)]) (use that disj in \<open>auto simp: store_def\<close>)
  ultimately show thesis using old A'(2) disj that by blast
qed

end
