(* ===== verification/Deepcopy.thy ===== *)
theory Deepcopy imports Go_Heap begin

section \<open>The generated deep copies\<close>

text \<open>
  \<^verbatim>\<open>api/v1beta1/zz_generated.deepcopy.go\<close>: one \<^verbatim>\<open>DeepCopyInto\<close> and one \<^verbatim>\<open>DeepCopy\<close> for each type of the API,
  and \<^verbatim>\<open>DeepCopyObject\<close> for the four objects the API server stores. The clients and caches of
  controller-runtime hand out objects by reference and rely on these functions to keep one holder's
  changes from the others, which is what allows the other theories to treat objects as values.

  The types are those of \<^verbatim>\<open>redkey_types.go\<close> and \<^verbatim>\<open>redkeyconfig_types.go\<close>, a field with its name and the
  references in it. Types of the Kubernetes libraries are a parameter \<open>X\<close>, and their
  \<^verbatim>\<open>DeepCopyInto\<close> functions a parameter \<open>dc\<close>, both by the name the source uses.
\<close>

subsection \<open>The types\<close>

definition t_RedisAuth :: "(string \<Rightarrow> gtype) \<Rightarrow> gtype" where
  "t_RedisAuth X = TStruct
     [(''SecretName'', TPlain)]"

definition t_Pdb :: "(string \<Rightarrow> gtype) \<Rightarrow> gtype" where
  "t_Pdb X = TStruct
     [(''Enabled'', TPlain), (''PdbSizeUnavailable'', X ''intstr.IntOrString''),
      (''PdbSizeAvailable'', X ''intstr.IntOrString'')]"

definition t_RedkeySubstatus :: "(string \<Rightarrow> gtype) \<Rightarrow> gtype" where
  "t_RedkeySubstatus X = TStruct
     [(''Status'', TPlain), (''UpgradingPartition'', TPlain)]"

definition t_RedisNode :: "(string \<Rightarrow> gtype) \<Rightarrow> gtype" where
  "t_RedisNode X = TStruct
     [(''Role'', TPlain), (''IP'', TPlain), (''ReplicationStatus'', TPlain)]"

definition t_RobinConfigReconciler :: "(string \<Rightarrow> gtype) \<Rightarrow> gtype" where
  "t_RobinConfigReconciler X = TStruct
     [(''IntervalSeconds'', TPtr TPlain), (''IntervalOnErrorSeconds'', TPtr TPlain),
      (''IntervalOnWaitSeconds'', TPtr TPlain)]"

definition t_RobinConfigCluster :: "(string \<Rightarrow> gtype) \<Rightarrow> gtype" where
  "t_RobinConfigCluster X = TStruct
     [(''ConnectionMaxRetries'', TPtr TPlain), (''ConnectionBackOffSeconds'', TPtr TPlain),
      (''ClusterCommandTimeoutSeconds'', TPtr TPlain), (''ClusterMeetWaitSeconds'', TPtr TPlain),
      (''RebalanceTimeoutSeconds'', TPtr TPlain)]"

definition t_RobinConfigMetrics :: "(string \<Rightarrow> gtype) \<Rightarrow> gtype" where
  "t_RobinConfigMetrics X = TStruct
     [(''CollectionIntervalSeconds'', TPtr TPlain), (''RedisInfoKeys'', TSlice TPlain),
      (''MetricsLabels'', TMap TPlain)]"

definition t_RobinConfigProfiling :: "(string \<Rightarrow> gtype) \<Rightarrow> gtype" where
  "t_RobinConfigProfiling X = TStruct
     [(''Enabled'', TPtr TPlain)]"

definition t_RobinConfig :: "(string \<Rightarrow> gtype) \<Rightarrow> gtype" where
  "t_RobinConfig X = TStruct
     [(''Reconciler'', TPtr (t_RobinConfigReconciler X)), (''Cluster'', TPtr (t_RobinConfigCluster X)),
      (''Metrics'', TPtr (t_RobinConfigMetrics X)), (''Profiling'', TPtr (t_RobinConfigProfiling X))]"

definition t_PartialPodSpec :: "(string \<Rightarrow> gtype) \<Rightarrow> gtype" where
  "t_PartialPodSpec X = TStruct
     [(''Containers'', TSlice (X ''v1.Container'')), (''InitContainers'', TSlice (X ''v1.Container'')),
      (''EphemeralContainers'', TSlice (X ''v1.EphemeralContainer'')),
      (''RestartPolicy'', X ''v1.RestartPolicy''), (''TerminationGracePeriodSeconds'', TPtr TPlain),
      (''DNSPolicy'', X ''v1.DNSPolicy''), (''NodeSelector'', TMap TPlain),
      (''ServiceAccountName'', TPlain), (''SecurityContext'', TPtr (X ''v1.PodSecurityContext'')),
      (''ImagePullSecrets'', TSlice (X ''v1.LocalObjectReference'')),
      (''Affinity'', TPtr (X ''v1.Affinity'')), (''Tolerations'', TSlice (X ''v1.Toleration'')),
      (''PriorityClassName'', TPlain),
      (''TopologySpreadConstraints'', TSlice (X ''v1.TopologySpreadConstraint'')),
      (''Volumes'', TSlice (X ''v1.Volume''))]"

definition t_PartialPodTemplateSpec :: "(string \<Rightarrow> gtype) \<Rightarrow> gtype" where
  "t_PartialPodTemplateSpec X = TStruct
     [(''Metadata'', X ''metav1.ObjectMeta''), (''Spec'', t_PartialPodSpec X)]"

definition t_RobinSpec :: "(string \<Rightarrow> gtype) \<Rightarrow> gtype" where
  "t_RobinSpec X = TStruct
     [(''Image'', TPlain), (''Resources'', TPtr (X ''v1.ResourceRequirements'')),
      (''Template'', TPtr (t_PartialPodTemplateSpec X)), (''Config'', TPtr (t_RobinConfig X))]"

definition t_PartialStatefulSetSpec :: "(string \<Rightarrow> gtype) \<Rightarrow> gtype" where
  "t_PartialStatefulSetSpec X = TStruct
     [(''MinReadySeconds'', TPtr TPlain), (''Replicas'', TPtr TPlain),
      (''Selector'', TPtr (X ''metav1.LabelSelector'')), (''ServiceName'', TPlain),
      (''Template'', TPtr (t_PartialPodTemplateSpec X)),
      (''UpdateStrategy'', TPtr (X ''appsv1.StatefulSetUpdateStrategy'')),
      (''RevisionHistoryLimit'', TPtr TPlain), (''PodManagementPolicy'', TPlain),
      (''VolumeClaimTemplates'', TSlice (X ''v1.PersistentVolumeClaim'')),
      (''PersistentVolumeClaimRetentionPolicy'', TPtr (X ''appsv1.StatefulSetPersistentVolumeClaimRetentionPolicy'')),
      (''Ordinals'', TPtr (X ''appsv1.StatefulSetOrdinals''))]"

definition t_PartialStatefulSet :: "(string \<Rightarrow> gtype) \<Rightarrow> gtype" where
  "t_PartialStatefulSet X = TStruct
     [(''APIVersion'', TPlain), (''Kind'', TPlain), (''Metadata'', X ''metav1.ObjectMeta''),
      (''Spec'', TPtr (t_PartialStatefulSetSpec X))]"

definition t_PartialServiceSpec :: "(string \<Rightarrow> gtype) \<Rightarrow> gtype" where
  "t_PartialServiceSpec X = TStruct
     [(''Ports'', TSlice (X ''v1.ServicePort'')), (''Selector'', TMap TPlain), (''ClusterIP'', TPlain),
      (''Type'', X ''v1.ServiceType''), (''PublishNotReadyAddresses'', TPlain)]"

definition t_PartialService :: "(string \<Rightarrow> gtype) \<Rightarrow> gtype" where
  "t_PartialService X = TStruct
     [(''APIVersion'', TPlain), (''Kind'', TPlain), (''Metadata'', X ''metav1.ObjectMeta''),
      (''Spec'', TPtr (t_PartialServiceSpec X))]"

definition t_RedkeyOverrideSpec :: "(string \<Rightarrow> gtype) \<Rightarrow> gtype" where
  "t_RedkeyOverrideSpec X = TStruct
     [(''StatefulSet'', TPtr (t_PartialStatefulSet X)), (''Service'', TPtr (t_PartialService X))]"

definition t_RedkeySpec :: "(string \<Rightarrow> gtype) \<Rightarrow> gtype" where
  "t_RedkeySpec X = TStruct
     [(''Auth'', t_RedisAuth X), (''Version'', TPlain), (''Mode'', TPlain), (''Primaries'', TPlain),
      (''ReplicasPerPrimary'', TPlain), (''Image'', TPlain), (''DeletePVC'', TPtr TPlain),
      (''Backup'', TPlain), (''Robin'', t_RobinSpec X), (''SkipIfSuperseded'', TPlain),
      (''PurgeKeysOnRebalance'', TPtr TPlain), (''Config'', TPlain),
      (''Resources'', TPtr (X ''v1.ResourceRequirements'')), (''Labels'', TPtr (TMap TPlain)),
      (''Annotations'', TPtr (TMap TPlain)), (''Pdb'', t_Pdb X),
      (''Override'', TPtr (t_RedkeyOverrideSpec X)), (''Ephemeral'', TPlain), (''Storage'', TPlain),
      (''StorageClassName'', TPlain), (''AccessModes'', TSlice (X ''v1.PersistentVolumeAccessMode''))]"

definition t_RedkeyStatus :: "(string \<Rightarrow> gtype) \<Rightarrow> gtype" where
  "t_RedkeyStatus X = TStruct
     [(''Replicas'', TPlain), (''Phase'', TPlain), (''Status'', TPlain),
      (''Substatus'', t_RedkeySubstatus X), (''Nodes'', TMap (TPtr (t_RedisNode X))),
      (''Conditions'', TSlice (X ''metav1.Condition'')), (''LastUpdatedAt'', TPtr (X ''metav1.Time'')),
      (''ObservedGeneration'', TPlain), (''LastAppliedPrimaries'', TPlain),
      (''LastAppliedReplicasPerPrimary'', TPlain)]"

definition t_Redkey :: "(string \<Rightarrow> gtype) \<Rightarrow> gtype" where
  "t_Redkey X = TStruct
     [(''TypeMeta'', X ''metav1.TypeMeta''), (''ObjectMeta'', X ''metav1.ObjectMeta''),
      (''Spec'', t_RedkeySpec X), (''Status'', t_RedkeyStatus X)]"

definition t_RedkeyList :: "(string \<Rightarrow> gtype) \<Rightarrow> gtype" where
  "t_RedkeyList X = TStruct
     [(''TypeMeta'', X ''metav1.TypeMeta''), (''ListMeta'', X ''metav1.ListMeta''),
      (''Items'', TSlice (t_Redkey X))]"

definition t_RedkeyConfigSpec :: "(string \<Rightarrow> gtype) \<Rightarrow> gtype" where
  "t_RedkeyConfigSpec X = TStruct
     [(''Sequence'', TPlain), (''SkipIfSuperseded'', TPlain), (''Mode'', TPlain),
      (''Primaries'', TPlain), (''ReplicasPerPrimary'', TPlain), (''Ephemeral'', TPlain),
      (''Storage'', TPlain), (''StorageClassName'', TPlain), (''Image'', TPlain), (''Version'', TPlain),
      (''RedisConfig'', TPlain), (''Resources'', TPtr (X ''v1.ResourceRequirements'')),
      (''Auth'', t_RedisAuth X), (''Labels'', TPtr (TMap TPlain)), (''Annotations'', TPtr (TMap TPlain)),
      (''DeletePVC'', TPtr TPlain), (''PurgeKeysOnRebalance'', TPtr TPlain),
      (''Override'', TPtr (t_RedkeyOverrideSpec X)), (''Pdb'', t_Pdb X),
      (''RobinConfig'', TPtr (t_RobinConfig X))]"

definition t_RedkeyConfigStatus :: "(string \<Rightarrow> gtype) \<Rightarrow> gtype" where
  "t_RedkeyConfigStatus X = TStruct
     [(''ConfigPhase'', TPlain), (''Status'', TPlain), (''Substatus'', t_RedkeySubstatus X),
      (''Nodes'', TMap (TPtr (t_RedisNode X))), (''Conditions'', TSlice (X ''metav1.Condition'')),
      (''LastUpdatedAt'', TPtr (X ''metav1.Time'')), (''ObservedGeneration'', TPlain)]"

definition t_RedkeyConfig :: "(string \<Rightarrow> gtype) \<Rightarrow> gtype" where
  "t_RedkeyConfig X = TStruct
     [(''TypeMeta'', X ''metav1.TypeMeta''), (''ObjectMeta'', X ''metav1.ObjectMeta''),
      (''Spec'', t_RedkeyConfigSpec X), (''Status'', t_RedkeyConfigStatus X)]"

definition t_RedkeyConfigList :: "(string \<Rightarrow> gtype) \<Rightarrow> gtype" where
  "t_RedkeyConfigList X = TStruct
     [(''TypeMeta'', X ''metav1.TypeMeta''), (''ListMeta'', X ''metav1.ListMeta''),
      (''Items'', TSlice (t_RedkeyConfig X))]"

subsection \<open>The functions\<close>

text \<open>
  Each function below lists the statements of its source after \<^verbatim>\<open>*out = *in\<close>. \<^verbatim>\<open>DeepCopy\<close> of the library's
  \<^verbatim>\<open>metav1.Time\<close> is the nil check, \<^verbatim>\<open>new\<close> and \<^verbatim>\<open>DeepCopyInto\<close>, as everywhere. A \<^verbatim>\<open>runtime.Object\<close> is an
  interface value: the name of a dynamic type and a value, or nil.
\<close>

type_synonym Object = "string \<times> gval"

definition RedisAuth_DeepCopyInto :: "(string \<Rightarrow> copier) \<Rightarrow> copier" where
  "RedisAuth_DeepCopyInto dc = copyStruct []"

definition RedisAuth_DeepCopy :: "(string \<Rightarrow> copier) \<Rightarrow> copier" where
  "RedisAuth_DeepCopy dc = copyPtr (RedisAuth_DeepCopyInto dc)"

definition Pdb_DeepCopyInto :: "(string \<Rightarrow> copier) \<Rightarrow> copier" where
  "Pdb_DeepCopyInto dc = copyStruct
     [(''PdbSizeUnavailable'', shallow), (''PdbSizeAvailable'', shallow)]"

definition Pdb_DeepCopy :: "(string \<Rightarrow> copier) \<Rightarrow> copier" where
  "Pdb_DeepCopy dc = copyPtr (Pdb_DeepCopyInto dc)"

definition RedkeySubstatus_DeepCopyInto :: "(string \<Rightarrow> copier) \<Rightarrow> copier" where
  "RedkeySubstatus_DeepCopyInto dc = copyStruct []"

definition RedkeySubstatus_DeepCopy :: "(string \<Rightarrow> copier) \<Rightarrow> copier" where
  "RedkeySubstatus_DeepCopy dc = copyPtr (RedkeySubstatus_DeepCopyInto dc)"

definition RedisNode_DeepCopyInto :: "(string \<Rightarrow> copier) \<Rightarrow> copier" where
  "RedisNode_DeepCopyInto dc = copyStruct []"

definition RedisNode_DeepCopy :: "(string \<Rightarrow> copier) \<Rightarrow> copier" where
  "RedisNode_DeepCopy dc = copyPtr (RedisNode_DeepCopyInto dc)"

definition RobinConfigReconciler_DeepCopyInto :: "(string \<Rightarrow> copier) \<Rightarrow> copier" where
  "RobinConfigReconciler_DeepCopyInto dc = copyStruct
     [(''IntervalSeconds'', copyPtr shallow), (''IntervalOnErrorSeconds'', copyPtr shallow),
      (''IntervalOnWaitSeconds'', copyPtr shallow)]"

definition RobinConfigReconciler_DeepCopy :: "(string \<Rightarrow> copier) \<Rightarrow> copier" where
  "RobinConfigReconciler_DeepCopy dc = copyPtr (RobinConfigReconciler_DeepCopyInto dc)"

definition RobinConfigCluster_DeepCopyInto :: "(string \<Rightarrow> copier) \<Rightarrow> copier" where
  "RobinConfigCluster_DeepCopyInto dc = copyStruct
     [(''ConnectionMaxRetries'', copyPtr shallow), (''ConnectionBackOffSeconds'', copyPtr shallow),
      (''ClusterCommandTimeoutSeconds'', copyPtr shallow), (''ClusterMeetWaitSeconds'', copyPtr shallow),
      (''RebalanceTimeoutSeconds'', copyPtr shallow)]"

definition RobinConfigCluster_DeepCopy :: "(string \<Rightarrow> copier) \<Rightarrow> copier" where
  "RobinConfigCluster_DeepCopy dc = copyPtr (RobinConfigCluster_DeepCopyInto dc)"

definition RobinConfigMetrics_DeepCopyInto :: "(string \<Rightarrow> copier) \<Rightarrow> copier" where
  "RobinConfigMetrics_DeepCopyInto dc = copyStruct
     [(''CollectionIntervalSeconds'', copyPtr shallow), (''RedisInfoKeys'', copySlice shallow),
      (''MetricsLabels'', copyMap shallow)]"

definition RobinConfigMetrics_DeepCopy :: "(string \<Rightarrow> copier) \<Rightarrow> copier" where
  "RobinConfigMetrics_DeepCopy dc = copyPtr (RobinConfigMetrics_DeepCopyInto dc)"

definition RobinConfigProfiling_DeepCopyInto :: "(string \<Rightarrow> copier) \<Rightarrow> copier" where
  "RobinConfigProfiling_DeepCopyInto dc = copyStruct
     [(''Enabled'', copyPtr shallow)]"

definition RobinConfigProfiling_DeepCopy :: "(string \<Rightarrow> copier) \<Rightarrow> copier" where
  "RobinConfigProfiling_DeepCopy dc = copyPtr (RobinConfigProfiling_DeepCopyInto dc)"

definition RobinConfig_DeepCopyInto :: "(string \<Rightarrow> copier) \<Rightarrow> copier" where
  "RobinConfig_DeepCopyInto dc = copyStruct
     [(''Reconciler'', copyPtr (RobinConfigReconciler_DeepCopyInto dc)),
      (''Cluster'', copyPtr (RobinConfigCluster_DeepCopyInto dc)),
      (''Metrics'', copyPtr (RobinConfigMetrics_DeepCopyInto dc)),
      (''Profiling'', copyPtr (RobinConfigProfiling_DeepCopyInto dc))]"

definition RobinConfig_DeepCopy :: "(string \<Rightarrow> copier) \<Rightarrow> copier" where
  "RobinConfig_DeepCopy dc = copyPtr (RobinConfig_DeepCopyInto dc)"

definition PartialPodSpec_DeepCopyInto :: "(string \<Rightarrow> copier) \<Rightarrow> copier" where
  "PartialPodSpec_DeepCopyInto dc = copyStruct
     [(''Containers'', copySlice (dc ''v1.Container'')),
      (''InitContainers'', copySlice (dc ''v1.Container'')),
      (''EphemeralContainers'', copySlice (dc ''v1.EphemeralContainer'')),
      (''TerminationGracePeriodSeconds'', copyPtr shallow), (''NodeSelector'', copyMap shallow),
      (''SecurityContext'', copyPtr (dc ''v1.PodSecurityContext'')),
      (''ImagePullSecrets'', copySlice shallow), (''Affinity'', copyPtr (dc ''v1.Affinity'')),
      (''Tolerations'', copySlice (dc ''v1.Toleration'')),
      (''TopologySpreadConstraints'', copySlice (dc ''v1.TopologySpreadConstraint'')),
      (''Volumes'', copySlice (dc ''v1.Volume''))]"

definition PartialPodSpec_DeepCopy :: "(string \<Rightarrow> copier) \<Rightarrow> copier" where
  "PartialPodSpec_DeepCopy dc = copyPtr (PartialPodSpec_DeepCopyInto dc)"

definition PartialPodTemplateSpec_DeepCopyInto :: "(string \<Rightarrow> copier) \<Rightarrow> copier" where
  "PartialPodTemplateSpec_DeepCopyInto dc = copyStruct
     [(''Metadata'', dc ''metav1.ObjectMeta''), (''Spec'', PartialPodSpec_DeepCopyInto dc)]"

definition PartialPodTemplateSpec_DeepCopy :: "(string \<Rightarrow> copier) \<Rightarrow> copier" where
  "PartialPodTemplateSpec_DeepCopy dc = copyPtr (PartialPodTemplateSpec_DeepCopyInto dc)"

definition RobinSpec_DeepCopyInto :: "(string \<Rightarrow> copier) \<Rightarrow> copier" where
  "RobinSpec_DeepCopyInto dc = copyStruct
     [(''Resources'', copyPtr (dc ''v1.ResourceRequirements'')),
      (''Template'', copyPtr (PartialPodTemplateSpec_DeepCopyInto dc)),
      (''Config'', copyPtr (RobinConfig_DeepCopyInto dc))]"

definition RobinSpec_DeepCopy :: "(string \<Rightarrow> copier) \<Rightarrow> copier" where
  "RobinSpec_DeepCopy dc = copyPtr (RobinSpec_DeepCopyInto dc)"

definition PartialStatefulSetSpec_DeepCopyInto :: "(string \<Rightarrow> copier) \<Rightarrow> copier" where
  "PartialStatefulSetSpec_DeepCopyInto dc = copyStruct
     [(''MinReadySeconds'', copyPtr shallow), (''Replicas'', copyPtr shallow),
      (''Selector'', copyPtr (dc ''metav1.LabelSelector'')),
      (''Template'', copyPtr (PartialPodTemplateSpec_DeepCopyInto dc)),
      (''UpdateStrategy'', copyPtr (dc ''appsv1.StatefulSetUpdateStrategy'')),
      (''RevisionHistoryLimit'', copyPtr shallow),
      (''VolumeClaimTemplates'', copySlice (dc ''v1.PersistentVolumeClaim'')),
      (''PersistentVolumeClaimRetentionPolicy'', copyPtr shallow), (''Ordinals'', copyPtr shallow)]"

definition PartialStatefulSetSpec_DeepCopy :: "(string \<Rightarrow> copier) \<Rightarrow> copier" where
  "PartialStatefulSetSpec_DeepCopy dc = copyPtr (PartialStatefulSetSpec_DeepCopyInto dc)"

definition PartialStatefulSet_DeepCopyInto :: "(string \<Rightarrow> copier) \<Rightarrow> copier" where
  "PartialStatefulSet_DeepCopyInto dc = copyStruct
     [(''Metadata'', dc ''metav1.ObjectMeta''),
      (''Spec'', copyPtr (PartialStatefulSetSpec_DeepCopyInto dc))]"

definition PartialStatefulSet_DeepCopy :: "(string \<Rightarrow> copier) \<Rightarrow> copier" where
  "PartialStatefulSet_DeepCopy dc = copyPtr (PartialStatefulSet_DeepCopyInto dc)"

definition PartialServiceSpec_DeepCopyInto :: "(string \<Rightarrow> copier) \<Rightarrow> copier" where
  "PartialServiceSpec_DeepCopyInto dc = copyStruct
     [(''Ports'', copySlice (dc ''v1.ServicePort'')), (''Selector'', copyMap shallow)]"

definition PartialServiceSpec_DeepCopy :: "(string \<Rightarrow> copier) \<Rightarrow> copier" where
  "PartialServiceSpec_DeepCopy dc = copyPtr (PartialServiceSpec_DeepCopyInto dc)"

definition PartialService_DeepCopyInto :: "(string \<Rightarrow> copier) \<Rightarrow> copier" where
  "PartialService_DeepCopyInto dc = copyStruct
     [(''Metadata'', dc ''metav1.ObjectMeta''), (''Spec'', copyPtr (PartialServiceSpec_DeepCopyInto dc))]"

definition PartialService_DeepCopy :: "(string \<Rightarrow> copier) \<Rightarrow> copier" where
  "PartialService_DeepCopy dc = copyPtr (PartialService_DeepCopyInto dc)"

definition RedkeyOverrideSpec_DeepCopyInto :: "(string \<Rightarrow> copier) \<Rightarrow> copier" where
  "RedkeyOverrideSpec_DeepCopyInto dc = copyStruct
     [(''StatefulSet'', copyPtr (PartialStatefulSet_DeepCopyInto dc)),
      (''Service'', copyPtr (PartialService_DeepCopyInto dc))]"

definition RedkeyOverrideSpec_DeepCopy :: "(string \<Rightarrow> copier) \<Rightarrow> copier" where
  "RedkeyOverrideSpec_DeepCopy dc = copyPtr (RedkeyOverrideSpec_DeepCopyInto dc)"

definition RedkeySpec_DeepCopyInto :: "(string \<Rightarrow> copier) \<Rightarrow> copier" where
  "RedkeySpec_DeepCopyInto dc = copyStruct
     [(''Auth'', shallow), (''DeletePVC'', copyPtr shallow), (''Robin'', RobinSpec_DeepCopyInto dc),
      (''PurgeKeysOnRebalance'', copyPtr shallow),
      (''Resources'', copyPtr (dc ''v1.ResourceRequirements'')), (''Labels'', copyPtr (copyMap shallow)),
      (''Annotations'', copyPtr (copyMap shallow)), (''Pdb'', shallow),
      (''Override'', copyPtr (RedkeyOverrideSpec_DeepCopyInto dc)), (''AccessModes'', copySlice shallow)]"

definition RedkeySpec_DeepCopy :: "(string \<Rightarrow> copier) \<Rightarrow> copier" where
  "RedkeySpec_DeepCopy dc = copyPtr (RedkeySpec_DeepCopyInto dc)"

definition RedkeyStatus_DeepCopyInto :: "(string \<Rightarrow> copier) \<Rightarrow> copier" where
  "RedkeyStatus_DeepCopyInto dc = copyStruct
     [(''Substatus'', shallow), (''Nodes'', copyMap (copyPtr shallow)),
      (''Conditions'', copySlice (dc ''metav1.Condition'')),
      (''LastUpdatedAt'', copyPtr (dc ''metav1.Time''))]"

definition RedkeyStatus_DeepCopy :: "(string \<Rightarrow> copier) \<Rightarrow> copier" where
  "RedkeyStatus_DeepCopy dc = copyPtr (RedkeyStatus_DeepCopyInto dc)"

definition Redkey_DeepCopyInto :: "(string \<Rightarrow> copier) \<Rightarrow> copier" where
  "Redkey_DeepCopyInto dc = copyStruct
     [(''TypeMeta'', shallow), (''ObjectMeta'', dc ''metav1.ObjectMeta''),
      (''Spec'', RedkeySpec_DeepCopyInto dc), (''Status'', RedkeyStatus_DeepCopyInto dc)]"

definition Redkey_DeepCopy :: "(string \<Rightarrow> copier) \<Rightarrow> copier" where
  "Redkey_DeepCopy dc = copyPtr (Redkey_DeepCopyInto dc)"

definition Redkey_DeepCopyObject :: "(string \<Rightarrow> copier) \<Rightarrow> gval \<Rightarrow> heap \<Rightarrow> Object option \<times> heap" where
  "Redkey_DeepCopyObject dc v h =
     (case Redkey_DeepCopy dc v h of (c, h') \<Rightarrow> (if c \<noteq> Ref None then Some (''*Redkey'', c) else None, h'))"

definition RedkeyList_DeepCopyInto :: "(string \<Rightarrow> copier) \<Rightarrow> copier" where
  "RedkeyList_DeepCopyInto dc = copyStruct
     [(''TypeMeta'', shallow), (''ListMeta'', dc ''metav1.ListMeta''),
      (''Items'', copySlice (Redkey_DeepCopyInto dc))]"

definition RedkeyList_DeepCopy :: "(string \<Rightarrow> copier) \<Rightarrow> copier" where
  "RedkeyList_DeepCopy dc = copyPtr (RedkeyList_DeepCopyInto dc)"

definition RedkeyList_DeepCopyObject :: "(string \<Rightarrow> copier) \<Rightarrow> gval \<Rightarrow> heap \<Rightarrow> Object option \<times> heap" where
  "RedkeyList_DeepCopyObject dc v h =
     (case RedkeyList_DeepCopy dc v h of (c, h') \<Rightarrow> (if c \<noteq> Ref None then Some (''*RedkeyList'', c) else None, h'))"

definition RedkeyConfigSpec_DeepCopyInto :: "(string \<Rightarrow> copier) \<Rightarrow> copier" where
  "RedkeyConfigSpec_DeepCopyInto dc = copyStruct
     [(''Resources'', copyPtr (dc ''v1.ResourceRequirements'')), (''Auth'', shallow),
      (''Labels'', copyPtr (copyMap shallow)), (''Annotations'', copyPtr (copyMap shallow)),
      (''DeletePVC'', copyPtr shallow), (''PurgeKeysOnRebalance'', copyPtr shallow),
      (''Override'', copyPtr (RedkeyOverrideSpec_DeepCopyInto dc)), (''Pdb'', shallow),
      (''RobinConfig'', copyPtr (RobinConfig_DeepCopyInto dc))]"

definition RedkeyConfigSpec_DeepCopy :: "(string \<Rightarrow> copier) \<Rightarrow> copier" where
  "RedkeyConfigSpec_DeepCopy dc = copyPtr (RedkeyConfigSpec_DeepCopyInto dc)"

definition RedkeyConfigStatus_DeepCopyInto :: "(string \<Rightarrow> copier) \<Rightarrow> copier" where
  "RedkeyConfigStatus_DeepCopyInto dc = copyStruct
     [(''Substatus'', shallow), (''Nodes'', copyMap (copyPtr shallow)),
      (''Conditions'', copySlice (dc ''metav1.Condition'')),
      (''LastUpdatedAt'', copyPtr (dc ''metav1.Time''))]"

definition RedkeyConfigStatus_DeepCopy :: "(string \<Rightarrow> copier) \<Rightarrow> copier" where
  "RedkeyConfigStatus_DeepCopy dc = copyPtr (RedkeyConfigStatus_DeepCopyInto dc)"

definition RedkeyConfig_DeepCopyInto :: "(string \<Rightarrow> copier) \<Rightarrow> copier" where
  "RedkeyConfig_DeepCopyInto dc = copyStruct
     [(''TypeMeta'', shallow), (''ObjectMeta'', dc ''metav1.ObjectMeta''),
      (''Spec'', RedkeyConfigSpec_DeepCopyInto dc), (''Status'', RedkeyConfigStatus_DeepCopyInto dc)]"

definition RedkeyConfig_DeepCopy :: "(string \<Rightarrow> copier) \<Rightarrow> copier" where
  "RedkeyConfig_DeepCopy dc = copyPtr (RedkeyConfig_DeepCopyInto dc)"

definition RedkeyConfig_DeepCopyObject :: "(string \<Rightarrow> copier) \<Rightarrow> gval \<Rightarrow> heap \<Rightarrow> Object option \<times> heap" where
  "RedkeyConfig_DeepCopyObject dc v h =
     (case RedkeyConfig_DeepCopy dc v h of (c, h') \<Rightarrow> (if c \<noteq> Ref None then Some (''*RedkeyConfig'', c) else None, h'))"

definition RedkeyConfigList_DeepCopyInto :: "(string \<Rightarrow> copier) \<Rightarrow> copier" where
  "RedkeyConfigList_DeepCopyInto dc = copyStruct
     [(''TypeMeta'', shallow), (''ListMeta'', dc ''metav1.ListMeta''),
      (''Items'', copySlice (RedkeyConfig_DeepCopyInto dc))]"

definition RedkeyConfigList_DeepCopy :: "(string \<Rightarrow> copier) \<Rightarrow> copier" where
  "RedkeyConfigList_DeepCopy dc = copyPtr (RedkeyConfigList_DeepCopyInto dc)"

definition RedkeyConfigList_DeepCopyObject :: "(string \<Rightarrow> copier) \<Rightarrow> gval \<Rightarrow> heap \<Rightarrow> Object option \<times> heap" where
  "RedkeyConfigList_DeepCopyObject dc v h =
     (case RedkeyConfigList_DeepCopy dc v h of (c, h') \<Rightarrow> (if c \<noteq> Ref None then Some (''*RedkeyConfigList'', c) else None, h'))"

subsection \<open>What the libraries promise\<close>

text \<open>
  The library types that the generated code copies by assignment have no references: strings under
  another name, and structs of strings and numbers.
\<close>

definition plainTypes :: "string list" where
  "plainTypes =
     [''metav1.TypeMeta'', ''intstr.IntOrString'', ''v1.LocalObjectReference'', ''v1.RestartPolicy'', ''v1.DNSPolicy'',
      ''v1.ServiceType'', ''v1.PersistentVolumeAccessMode'', ''appsv1.StatefulSetOrdinals'',
      ''appsv1.StatefulSetPersistentVolumeClaimRetentionPolicy'']"

locale copy_lib =
  fixes X :: "string \<Rightarrow> gtype" and dc :: "string \<Rightarrow> copier"
  assumes lib_copies: "copies (X n) (dc n)"
    and lib_plain: "n \<in> set plainTypes \<Longrightarrow> flat (X n)"
begin

lemma lib_flat [copies_rules]:
  "flat (X ''metav1.TypeMeta'')" "flat (X ''intstr.IntOrString'')" "flat (X ''v1.LocalObjectReference'')"
  "flat (X ''v1.RestartPolicy'')" "flat (X ''v1.DNSPolicy'')" "flat (X ''v1.ServiceType'')"
  "flat (X ''v1.PersistentVolumeAccessMode'')" "flat (X ''appsv1.StatefulSetOrdinals'')"
  "flat (X ''appsv1.StatefulSetPersistentVolumeClaimRetentionPolicy'')"
  by (rule lib_plain; simp add: plainTypes_def)+

lemmas [copies_rules] = lib_copies

lemma own_flat [copies_rules]:
  "flat (t_RedisAuth X)" "flat (t_Pdb X)" "flat (t_RedkeySubstatus X)" "flat (t_RedisNode X)"
  by (simp_all add: t_RedisAuth_def t_Pdb_def t_RedkeySubstatus_def t_RedisNode_def copies_rules)

lemma RedisAuth_copies [copies_rules]: "copies (t_RedisAuth X) (RedisAuth_DeepCopyInto dc)"
  by (simp add: t_RedisAuth_def RedisAuth_DeepCopyInto_def action_def copies_rules)

lemma Pdb_copies [copies_rules]: "copies (t_Pdb X) (Pdb_DeepCopyInto dc)"
  by (simp add: t_Pdb_def Pdb_DeepCopyInto_def action_def copies_rules)

lemma RedkeySubstatus_copies [copies_rules]: "copies (t_RedkeySubstatus X) (RedkeySubstatus_DeepCopyInto dc)"
  by (simp add: t_RedkeySubstatus_def RedkeySubstatus_DeepCopyInto_def action_def copies_rules)

lemma RedisNode_copies [copies_rules]: "copies (t_RedisNode X) (RedisNode_DeepCopyInto dc)"
  by (simp add: t_RedisNode_def RedisNode_DeepCopyInto_def action_def copies_rules)

lemma RobinConfigReconciler_copies [copies_rules]: "copies (t_RobinConfigReconciler X) (RobinConfigReconciler_DeepCopyInto dc)"
  by (simp add: t_RobinConfigReconciler_def RobinConfigReconciler_DeepCopyInto_def action_def copies_rules)

lemma RobinConfigCluster_copies [copies_rules]: "copies (t_RobinConfigCluster X) (RobinConfigCluster_DeepCopyInto dc)"
  by (simp add: t_RobinConfigCluster_def RobinConfigCluster_DeepCopyInto_def action_def copies_rules)

lemma RobinConfigMetrics_copies [copies_rules]: "copies (t_RobinConfigMetrics X) (RobinConfigMetrics_DeepCopyInto dc)"
  by (simp add: t_RobinConfigMetrics_def RobinConfigMetrics_DeepCopyInto_def action_def copies_rules)

lemma RobinConfigProfiling_copies [copies_rules]: "copies (t_RobinConfigProfiling X) (RobinConfigProfiling_DeepCopyInto dc)"
  by (simp add: t_RobinConfigProfiling_def RobinConfigProfiling_DeepCopyInto_def action_def copies_rules)

lemma RobinConfig_copies [copies_rules]: "copies (t_RobinConfig X) (RobinConfig_DeepCopyInto dc)"
  by (simp add: t_RobinConfig_def RobinConfig_DeepCopyInto_def action_def copies_rules)

lemma PartialPodSpec_copies [copies_rules]: "copies (t_PartialPodSpec X) (PartialPodSpec_DeepCopyInto dc)"
  by (simp add: t_PartialPodSpec_def PartialPodSpec_DeepCopyInto_def action_def copies_rules)

lemma PartialPodTemplateSpec_copies [copies_rules]: "copies (t_PartialPodTemplateSpec X) (PartialPodTemplateSpec_DeepCopyInto dc)"
  by (simp add: t_PartialPodTemplateSpec_def PartialPodTemplateSpec_DeepCopyInto_def action_def copies_rules)

lemma RobinSpec_copies [copies_rules]: "copies (t_RobinSpec X) (RobinSpec_DeepCopyInto dc)"
  by (simp add: t_RobinSpec_def RobinSpec_DeepCopyInto_def action_def copies_rules)

lemma PartialStatefulSetSpec_copies [copies_rules]: "copies (t_PartialStatefulSetSpec X) (PartialStatefulSetSpec_DeepCopyInto dc)"
  by (simp add: t_PartialStatefulSetSpec_def PartialStatefulSetSpec_DeepCopyInto_def action_def copies_rules)

lemma PartialStatefulSet_copies [copies_rules]: "copies (t_PartialStatefulSet X) (PartialStatefulSet_DeepCopyInto dc)"
  by (simp add: t_PartialStatefulSet_def PartialStatefulSet_DeepCopyInto_def action_def copies_rules)

lemma PartialServiceSpec_copies [copies_rules]: "copies (t_PartialServiceSpec X) (PartialServiceSpec_DeepCopyInto dc)"
  by (simp add: t_PartialServiceSpec_def PartialServiceSpec_DeepCopyInto_def action_def copies_rules)

lemma PartialService_copies [copies_rules]: "copies (t_PartialService X) (PartialService_DeepCopyInto dc)"
  by (simp add: t_PartialService_def PartialService_DeepCopyInto_def action_def copies_rules)

lemma RedkeyOverrideSpec_copies [copies_rules]: "copies (t_RedkeyOverrideSpec X) (RedkeyOverrideSpec_DeepCopyInto dc)"
  by (simp add: t_RedkeyOverrideSpec_def RedkeyOverrideSpec_DeepCopyInto_def action_def copies_rules)

lemma RedkeySpec_copies [copies_rules]: "copies (t_RedkeySpec X) (RedkeySpec_DeepCopyInto dc)"
  by (simp add: t_RedkeySpec_def RedkeySpec_DeepCopyInto_def action_def copies_rules)

lemma RedkeyStatus_copies [copies_rules]: "copies (t_RedkeyStatus X) (RedkeyStatus_DeepCopyInto dc)"
  by (simp add: t_RedkeyStatus_def RedkeyStatus_DeepCopyInto_def action_def copies_rules)

lemma Redkey_copies [copies_rules]: "copies (t_Redkey X) (Redkey_DeepCopyInto dc)"
  by (simp add: t_Redkey_def Redkey_DeepCopyInto_def action_def copies_rules)

lemma RedkeyList_copies [copies_rules]: "copies (t_RedkeyList X) (RedkeyList_DeepCopyInto dc)"
  by (simp add: t_RedkeyList_def RedkeyList_DeepCopyInto_def action_def copies_rules)

lemma RedkeyConfigSpec_copies [copies_rules]: "copies (t_RedkeyConfigSpec X) (RedkeyConfigSpec_DeepCopyInto dc)"
  by (simp add: t_RedkeyConfigSpec_def RedkeyConfigSpec_DeepCopyInto_def action_def copies_rules)

lemma RedkeyConfigStatus_copies [copies_rules]: "copies (t_RedkeyConfigStatus X) (RedkeyConfigStatus_DeepCopyInto dc)"
  by (simp add: t_RedkeyConfigStatus_def RedkeyConfigStatus_DeepCopyInto_def action_def copies_rules)

lemma RedkeyConfig_copies [copies_rules]: "copies (t_RedkeyConfig X) (RedkeyConfig_DeepCopyInto dc)"
  by (simp add: t_RedkeyConfig_def RedkeyConfig_DeepCopyInto_def action_def copies_rules)

lemma RedkeyConfigList_copies [copies_rules]: "copies (t_RedkeyConfigList X) (RedkeyConfigList_DeepCopyInto dc)"
  by (simp add: t_RedkeyConfigList_def RedkeyConfigList_DeepCopyInto_def action_def copies_rules)

end

lemma copyPtr_nonnil:
  assumes "copyPtr f v h = (v', h')" and "v \<noteq> Ref None" and "rep h (TPtr t) v c A"
  shows "v' \<noteq> Ref None"
  using assms by (auto simp: copyPtr_def alloc_def elim!: rep_ptrE split: prod.splits)

subsection \<open>A small library\<close>

text \<open>
  The interface can be had: a library in which resource requirements and object metadata have maps and
  every other type has no references.
\<close>

definition coreType :: "string \<Rightarrow> gtype" where
  "coreType n =
     (if n = ''v1.ResourceRequirements'' then TStruct [(''Limits'', TMap TPlain), (''Requests'', TMap TPlain)]
      else if n = ''metav1.ObjectMeta''
      then TStruct [(''Name'', TPlain), (''Labels'', TMap TPlain), (''Annotations'', TMap TPlain)]
      else TPlain)"

definition coreCopy :: "string \<Rightarrow> copier" where
  "coreCopy n =
     (if n = ''v1.ResourceRequirements'' then copyStruct [(''Limits'', copyMap shallow), (''Requests'', copyMap shallow)]
      else if n = ''metav1.ObjectMeta''
      then copyStruct [(''Labels'', copyMap shallow), (''Annotations'', copyMap shallow)]
      else shallow)"

interpretation core: copy_lib coreType coreCopy
  by unfold_locales (auto simp: coreType_def coreCopy_def plainTypes_def action_def copies_rules)

subsection \<open>Deep copies of the API objects\<close>

text \<open>
  C19. The four objects the API server stores are copied deeply: whatever the object and the heap, the
  copy has the contents of the original down to the difference between a nil and an empty map, it
  reaches only cells that were not in use before, and no cell that was is changed. This is so if the
  libraries' own functions copy deeply and the types copied by assignment have no references.
\<close>

theorem objects_deep_copied:
  assumes "copy_lib X dc"
  shows "copies (t_Redkey X) (Redkey_DeepCopyInto dc) \<and>
    copies (t_RedkeyList X) (RedkeyList_DeepCopyInto dc) \<and>
    copies (t_RedkeyConfig X) (RedkeyConfig_DeepCopyInto dc) \<and>
    copies (t_RedkeyConfigList X) (RedkeyConfigList_DeepCopyInto dc)"
  by (intro conjI copy_lib.Redkey_copies copy_lib.RedkeyList_copies copy_lib.RedkeyConfig_copies
      copy_lib.RedkeyConfigList_copies assms)

theorem objects_deep_copied_witness:
  "copies (t_Redkey coreType) (Redkey_DeepCopyInto coreCopy) \<and>
   copies (t_RedkeyConfigList coreType) (RedkeyConfigList_DeepCopyInto coreCopy)"
  using objects_deep_copied [OF core.copy_lib_axioms] by blast

text \<open>
  C20. \<^verbatim>\<open>DeepCopyObject\<close> of a cached object gives its holder an object of its own. For a nil pointer the
  result is the nil interface and not an interface that holds a nil pointer. Otherwise the original is as
  it was, the copy is equal to it and shares no cell with it, and whatever is then written through the
  copy is not seen in the original, nor the other way round.
\<close>

theorem redkey_object_independent:
  assumes "copy_lib X dc" and "wfHeap h" and "rep h (TPtr (t_Redkey X)) v c A"
    and "Redkey_DeepCopyObject dc v h = (obj, h')"
  shows "if v = Ref None then obj = None \<and> h' = h
    else (\<exists>v' A'. obj = Some (''*Redkey'', v') \<and> rep h' (TPtr (t_Redkey X)) v c A \<and>
      rep h' (TPtr (t_Redkey X)) v' c A' \<and> A \<inter> A' = {} \<and>
      (\<forall>a \<in> A'. \<forall>x. rep (store a x h') (TPtr (t_Redkey X)) v c A) \<and>
      (\<forall>a \<in> A. \<forall>x. rep (store a x h') (TPtr (t_Redkey X)) v' c A'))"
proof (cases "v = Ref None")
  case True
  with assms(4) show ?thesis by (simp add: Redkey_DeepCopyObject_def Redkey_DeepCopy_def copyPtr_def)
next
  case False
  obtain v' h1 where run: "Redkey_DeepCopy dc v h = (v', h1)" by (cases "Redkey_DeepCopy dc v h")
  have cp: "copies (TPtr (t_Redkey X)) (Redkey_DeepCopy dc)"
    unfolding Redkey_DeepCopy_def by (rule copies_ptr [OF copy_lib.Redkey_copies [OF assms(1)]])
  have "v' \<noteq> Ref None" using run False assms(3) unfolding Redkey_DeepCopy_def by (rule copyPtr_nonnil)
  with assms(4) run have "obj = Some (''*Redkey'', v')" "h' = h1" by (simp_all add: Redkey_DeepCopyObject_def)
  with copy_independent [OF cp assms(2,3) run] False show ?thesis by metis
qed

text \<open>A \<^verbatim>\<open>Redkey\<close> with one label in its spec and one in its metadata, and everything else unset.\<close>

fun zeroValue :: "gtype \<Rightarrow> gval" and zeroFields :: "(string \<times> gtype) list \<Rightarrow> (string \<times> gval) list" where
  "zeroValue TPlain = Plain []"
| "zeroValue (TStruct fts) = Struct (zeroFields fts)"
| "zeroValue _ = Ref None"
| "zeroFields [] = []"
| "zeroFields ((f, t) # fts) = (f, zeroValue t) # zeroFields fts"

definition setField :: "string \<Rightarrow> gval \<Rightarrow> gval \<Rightarrow> gval" where
  "setField f x v = (case v of Struct fvs \<Rightarrow> Struct (map (\<lambda>(g, y). (g, if g = f then x else y)) fvs) | _ \<Rightarrow> v)"

definition sampleHeap :: heap where
  "sampleHeap =
     \<lparr>cells = fmap_of_list
        [(0, Pointee
            (setField ''ObjectMeta'' (setField ''Labels'' (Ref (Some 3)) (zeroValue (coreType ''metav1.ObjectMeta'')))
              (setField ''Spec'' (setField ''Labels'' (Ref (Some 1)) (zeroValue (t_RedkeySpec coreType)))
                (zeroValue (t_Redkey coreType))))),
         (1, Pointee (Ref (Some 2))),
         (2, Entries [(''team'', Plain ''cache'')]),
         (3, Entries [(''app'', Plain ''redkey'')])],
      brk = 4\<rparr>"

lemmas type_defs =
  coreType_def t_RedisAuth_def t_Pdb_def t_RedkeySubstatus_def t_RedisNode_def t_RobinSpec_def
  t_RedkeySpec_def t_RedkeyStatus_def t_Redkey_def

lemma sample_read: "\<exists>c. read sampleHeap (TPtr (t_Redkey coreType)) (Ref (Some 0)) = Some (c, {0, 1, 2, 3})"
  by (simp add: sampleHeap_def setField_def type_defs fmlookup_of_list insert_commute)

theorem redkey_object_independent_witness:
  "\<exists>c v' A'. fst (Redkey_DeepCopyObject coreCopy (Ref (Some 0)) sampleHeap) = Some (''*Redkey'', v') \<and>
     rep (snd (Redkey_DeepCopyObject coreCopy (Ref (Some 0)) sampleHeap)) (TPtr (t_Redkey coreType)) v' c A' \<and>
     rep sampleHeap (TPtr (t_Redkey coreType)) (Ref (Some 0)) c {0, 1, 2, 3} \<and> {0, 1, 2, 3} \<inter> A' = {}"
proof -
  obtain c where c: "rep sampleHeap (TPtr (t_Redkey coreType)) (Ref (Some 0)) c {0, 1, 2, 3}"
    using sample_read read_rep(1) by blast
  have "wfHeap sampleHeap" by (simp add: wfHeap_def sampleHeap_def fmlookup_of_list)
  from redkey_object_independent [OF core.copy_lib_axioms this c surjective_pairing]
  show ?thesis using c by (simp only: if_False gval.inject option.distinct) blast
qed

end
