(* ===== verification/Flag_Parsing.thy ===== *)
theory Flag_Parsing
  imports Startup
begin

section \<open>The command line (\<^verbatim>\<open>cmd/main.go\<close>)\<close>

text \<open>
  The flags \<^verbatim>\<open>main\<close> registers and how the arguments of the process set them. Package \<^verbatim>\<open>flag\<close> and the
  conversions of \<^verbatim>\<open>strconv\<close> and \<^verbatim>\<open>time\<close> are modelled as the standard library has them, on strings of bytes.
  The flags that other packages register on the same command line (the logger's and the one for the kubeconfig)
  are a parameter.
\<close>

subsection \<open>Conversions\<close>

definition ParseBool :: "string \<Rightarrow> bool option" where
  "ParseBool s =
     (if s \<in> set [''1'', ''t'', ''T'', ''TRUE'', ''true'', ''True''] then Some True
      else if s \<in> set [''0'', ''f'', ''F'', ''FALSE'', ''false'', ''False''] then Some False
      else None)"

text \<open>A byte with the bit of lower-case letters set, as \<^verbatim>\<open>strconv\<close> compares letters.\<close>

definition lower :: "char \<Rightarrow> nat" where
  "lower c = (let n = of_char c in if even (n div 32) then n + 32 else n)"

definition digit36 :: "char \<Rightarrow> nat option" where
  "digit36 c =
     (case digitVal c of
        Some d \<Rightarrow> Some d
      | None \<Rightarrow> if 97 \<le> lower c \<and> lower c \<le> 122 then Some (lower c - 97 + 10) else None)"

text \<open>The digits of a numeral in some base, with underscores between them.\<close>

fun parseBase :: "nat \<Rightarrow> nat \<Rightarrow> string \<Rightarrow> nat option" where
  "parseBase b n [] = Some n"
| "parseBase b n (c # cs) =
     (if c = CHR ''_'' then parseBase b n cs
      else case digit36 c of
        None \<Rightarrow> None
      | Some d \<Rightarrow> if d < b then parseBase b (b * n + d) cs else None)"

text \<open>The base a prefix stands for, and what follows the prefix.\<close>

definition basePrefix :: "string \<Rightarrow> nat \<times> string" where
  "basePrefix s =
     (if hd s \<noteq> CHR ''0'' then (10, s)
      else if 3 \<le> length s \<and> lower (s ! 1) = 98 then (2, drop 2 s)
      else if 3 \<le> length s \<and> lower (s ! 1) = 111 then (8, drop 2 s)
      else if 3 \<le> length s \<and> lower (s ! 1) = 120 then (16, drop 2 s)
      else (8, tl s))"

text \<open>
  \<^verbatim>\<open>underscoreOK\<close>: an underscore stands between two digits or between the prefix and a digit. The last character
  seen is \<^verbatim>\<open>'0'\<close> for a digit or a prefix, \<^verbatim>\<open>'_'\<close>, \<^verbatim>\<open>'!'\<close> for anything else and \<^verbatim>\<open>'^'\<close> at the start.
\<close>

fun underscores :: "bool \<Rightarrow> char \<Rightarrow> string \<Rightarrow> bool" where
  "underscores hex i [] = (i \<noteq> CHR ''_'')"
| "underscores hex i (c # cs) =
     (if digitVal c \<noteq> None \<or> hex \<and> 97 \<le> lower c \<and> lower c \<le> 102 then underscores hex CHR ''0'' cs
      else if c = CHR ''_'' then i = CHR ''0'' \<and> underscores hex CHR ''_'' cs
      else i \<noteq> CHR ''_'' \<and> underscores hex CHR ''!'' cs)"

definition underscoreOK :: "string \<Rightarrow> bool" where
  "underscoreOK s =
     (if 2 \<le> length s \<and> hd s = CHR ''0'' \<and> lower (s ! 1) \<in> {98, 111, 120}
      then underscores (lower (s ! 1) = 120) CHR ''0'' (drop 2 s)
      else underscores False CHR ''^'' s)"

text \<open>\<^verbatim>\<open>strconv.ParseUint\<close> and \<^verbatim>\<open>strconv.ParseInt\<close> with base 0.\<close>

definition ParseUint0 :: "string \<Rightarrow> nat option" where
  "ParseUint0 s =
     (if s = [] then None
      else let (b, t) = basePrefix s in
        case parseBase b 0 t of
          None \<Rightarrow> None
        | Some n \<Rightarrow> if n < 2 ^ 64 \<and> (CHR ''_'' \<in> set t \<longrightarrow> underscoreOK s) then Some n else None)"

definition ParseInt0 :: "string \<Rightarrow> int64 option" where
  "ParseInt0 = parseSigned ParseUint0"

subsection \<open>Durations\<close>

text \<open>
  \<^verbatim>\<open>time.ParseDuration\<close> computes fractions with \<^verbatim>\<open>float64\<close>. A positive one is rounded to 53 bits, to the nearest
  and to the even one of two; the range of exponents is not an issue, since where the scale leaves it the
  fraction is below one nanosecond either way.
\<close>

fun bitLength :: "nat \<Rightarrow> nat" where
  "bitLength n = (if n = 0 then 0 else Suc (bitLength (n div 2)))"

declare bitLength.simps [simp del]

definition roundDiv :: "nat \<Rightarrow> nat \<Rightarrow> nat" where
  "roundDiv a b =
     (let q = a div b; r = a mod b in if 2 * r < b \<or> 2 * r = b \<and> even q then q else q + 1)"

text \<open>An integer as a \<^verbatim>\<open>float64\<close>.\<close>

definition roundFloat :: "nat \<Rightarrow> nat" where
  "roundFloat n = (let k = 2 ^ (bitLength n - 53) in roundDiv n k * k)"

text \<open>The quotient \<open>a / b\<close> as a \<^verbatim>\<open>float64\<close> \<open>m / 2 ^ k\<close>.\<close>

definition divFloat :: "nat \<Rightarrow> nat \<Rightarrow> nat \<times> nat" where
  "divFloat a b =
     (let k = 53 + bitLength b - bitLength a;
          k' = (if a * 2 ^ k < 2 ^ 53 * b then k else k - 1)
      in (roundDiv (a * 2 ^ k') b, k'))"

text \<open>\<^verbatim>\<open>uint64(float64(f) * (float64(unit) / scale))\<close>\<close>

definition fraction :: "nat \<Rightarrow> nat \<Rightarrow> nat \<Rightarrow> nat" where
  "fraction f unit scale =
     (let (m, k) = divFloat unit scale in roundFloat (roundFloat f * m) div 2 ^ k)"

text \<open>\<^verbatim>\<open>leadingInt\<close> and \<^verbatim>\<open>leadingFraction\<close>: the digits at the front, and the rest.\<close>

fun leadingInt :: "nat \<Rightarrow> string \<Rightarrow> (nat \<times> string) option" where
  "leadingInt x [] = Some (x, [])"
| "leadingInt x (c # cs) =
     (case digitVal c of
        None \<Rightarrow> Some (x, c # cs)
      | Some d \<Rightarrow>
          if x > 2 ^ 63 div 10 \<or> 10 * x + d > 2 ^ 63 then None else leadingInt (10 * x + d) cs)"

fun leadingFraction :: "bool \<Rightarrow> nat \<Rightarrow> nat \<Rightarrow> string \<Rightarrow> nat \<times> nat \<times> string" where
  "leadingFraction overflow x scale [] = (x, scale, [])"
| "leadingFraction overflow x scale (c # cs) =
     (case digitVal c of
        None \<Rightarrow> (x, scale, c # cs)
      | Some d \<Rightarrow>
          if overflow \<or> x > (2 ^ 63 - 1) div 10 \<or> 10 * x + d > 2 ^ 63 then leadingFraction True x scale cs
          else leadingFraction False (10 * x + d) (roundFloat (10 * scale)) cs)"

text \<open>The units; the two micro signs are in UTF-8.\<close>

definition unitMap :: "(string \<times> nat) list" where
  "unitMap =
     [(''ns'', 1), (''us'', 1000), ([CHR 0xC2, CHR 0xB5, CHR ''s''], 1000), ([CHR 0xCE, CHR 0xBC, CHR ''s''], 1000),
      (''ms'', 1000000), (''s'', 1000000000), (''m'', 60 * 1000000000), (''h'', 3600 * 1000000000)]"

definition isUnitByte :: "char \<Rightarrow> bool" where
  "isUnitByte c \<longleftrightarrow> c \<noteq> CHR ''.'' \<and> digitVal c = None"

text \<open>A number in its unit in nanoseconds, where the number is \<open>v\<close> and the fraction \<open>f / scale\<close>.\<close>

definition inNanoseconds :: "nat \<Rightarrow> nat \<Rightarrow> nat \<Rightarrow> string \<Rightarrow> nat option" where
  "inNanoseconds v f scale u =
     (case map_of unitMap u of
        None \<Rightarrow> None
      | Some unit \<Rightarrow>
          if v > 2 ^ 63 div unit then None
          else (let v' = v * unit + (if f > 0 then fraction f unit scale else 0)
                in if v' > 2 ^ 63 then None else Some v'))"

text \<open>The digits after the point, if there is one, and whether there are any.\<close>

definition pointPart :: "string \<Rightarrow> nat \<times> nat \<times> bool \<times> string" where
  "pointPart s =
     (if s \<noteq> [] \<and> hd s = CHR ''.'' then
        (let (f, scale, t) = leadingFraction False 0 1 (tl s) in (f, scale, length t < length (tl s), t))
      else (0, 1, False, s))"

text \<open>One number with its unit, and the rest: the body of the loop.\<close>

definition durationPart :: "string \<Rightarrow> (nat \<times> string) option" where
  "durationPart s =
     (if isUnitByte (hd s) then None
      else case leadingInt 0 s of
        None \<Rightarrow> None
      | Some (v, s1) \<Rightarrow>
          (let (f, scale, post, s2) = pointPart s1; u = takeWhile isUnitByte s2 in
           if length s1 = length s \<and> \<not> post \<or> u = [] then None
           else map_option (\<lambda>v'. (v', dropWhile isUnitByte s2)) (inNanoseconds v f scale u)))"

lemma leadingInt_length: "leadingInt x s = Some (v, t) \<Longrightarrow> length t \<le> length s"
  by (induction x s arbitrary: v t rule: leadingInt.induct) (auto split: option.splits if_splits intro: le_SucI)

lemma leadingFraction_length: "leadingFraction ov x scale s = (f, scale', t) \<Longrightarrow> length t \<le> length s"
  by (induction ov x scale s arbitrary: f scale' t rule: leadingFraction.induct)
    (auto split: option.splits if_splits intro: le_SucI)

lemma pointPart_length: "pointPart s = (f, scale, post, t) \<Longrightarrow> length t \<le> length s"
  by (auto simp: pointPart_def split: if_splits prod.splits dest!: leadingFraction_length)

lemma dropWhile_shorter: "takeWhile P s \<noteq> [] \<Longrightarrow> length (dropWhile P s) < length s"
  by (metis length_append length_greater_0_conv less_add_same_cancel2 takeWhile_dropWhile_id)

lemma durationPart_shorter: "durationPart s = Some (v, t) \<Longrightarrow> length t < length s"
  by (auto simp: durationPart_def Let_def split: if_splits option.splits prod.splits
      dest!: leadingInt_length pointPart_length dropWhile_shorter)

text \<open>The sum is a \<^verbatim>\<open>uint64\<close>.\<close>

function durationLoop :: "nat \<Rightarrow> string \<Rightarrow> nat option" where
  "durationLoop d s =
     (if s = [] then Some d
      else case durationPart s of
        None \<Rightarrow> None
      | Some (v, rest) \<Rightarrow>
          if 2 ^ 63 < (d + v) mod 2 ^ 64 then None else durationLoop ((d + v) mod 2 ^ 64) rest)"
  by pat_completeness auto

termination
  by (relation "measure (\<lambda>(d, s). length s)") (auto simp: durationPart_shorter)

declare durationLoop.simps [simp del]

definition durationUint :: "string \<Rightarrow> nat option" where
  "durationUint s = (if s = ''0'' then Some 0 else if s = [] then None else durationLoop 0 s)"

definition ParseDuration :: "string \<Rightarrow> int64 option" where
  "ParseDuration = parseSigned durationUint"

subsection \<open>The flags of \<^verbatim>\<open>main\<close>\<close>

text \<open>
  A registered flag: whether it is a boolean one, which takes no argument of its own, and its \<^verbatim>\<open>Set\<close> method;
  \<open>None\<close> is an error.
\<close>

type_synonym FlagValue = "bool \<times> (string \<Rightarrow> Flags \<Rightarrow> Flags option)"

definition StringVar :: "((string \<Rightarrow> string) \<Rightarrow> Flags \<Rightarrow> Flags) \<Rightarrow> FlagValue" where
  "StringVar upd = (False, \<lambda>v f. Some (upd (\<lambda>_. v) f))"

definition BoolVar :: "((bool \<Rightarrow> bool) \<Rightarrow> Flags \<Rightarrow> Flags) \<Rightarrow> FlagValue" where
  "BoolVar upd = (True, \<lambda>v f. map_option (\<lambda>b. upd (\<lambda>_. b) f) (ParseBool v))"

definition DurationVar :: "((int64 \<Rightarrow> int64) \<Rightarrow> Flags \<Rightarrow> Flags) \<Rightarrow> FlagValue" where
  "DurationVar upd = (False, \<lambda>v f. map_option (\<lambda>d. upd (\<lambda>_. d) f) (ParseDuration v))"

definition IntVar :: "((go_int \<Rightarrow> go_int) \<Rightarrow> Flags \<Rightarrow> Flags) \<Rightarrow> FlagValue" where
  "IntVar upd = (False, \<lambda>v f. map_option (\<lambda>i. upd (\<lambda>_. i) f) (ParseInt0 v))"

definition flagVars :: "(string \<times> FlagValue) list" where
  "flagVars =
     [(''metrics-bind-address'', StringVar metricsAddr_update),
      (''health-probe-bind-address'', StringVar probeAddr_update),
      (''leader-elect'', BoolVar enableLeaderElection_update),
      (''metrics-secure'', BoolVar secureMetrics_update),
      (''watch-namespaces'', StringVar watchNamespaces_update),
      (''webhook-cert-path'', StringVar webhookCertPath_update),
      (''webhook-cert-name'', StringVar webhookCertName_update),
      (''webhook-cert-key'', StringVar webhookCertKey_update),
      (''metrics-cert-path'', StringVar metricsCertPath_update),
      (''metrics-cert-name'', StringVar metricsCertName_update),
      (''metrics-cert-key'', StringVar metricsCertKey_update),
      (''enable-http2'', BoolVar enableHTTP2_update),
      (''enable-pprof'', BoolVar enablePprof_update),
      (''pprof-bind-address'', StringVar pprofAddr_update),
      (''resync-interval'', DurationVar resyncInterval_update),
      (''max-concurrent-reconciles'', IntVar maxConcurrentReconciles_update)]"

text \<open>
  The flags of other packages: whether they are boolean and which values they accept. They set nothing that \<^verbatim>\<open>main\<close>
  reads from its own flags.
\<close>

type_synonym LibFlags = "string \<Rightarrow> (bool \<times> (string \<Rightarrow> bool)) option"

definition formal :: "LibFlags \<Rightarrow> string \<Rightarrow> FlagValue option" where
  "formal lib name =
     (case map_of flagVars name of
        Some v \<Rightarrow> Some v
      | None \<Rightarrow> map_option (\<lambda>(isBool, ok). (isBool, \<lambda>v f. if ok v then Some f else None)) (lib name))"

subsection \<open>Parsing the arguments\<close>

datatype ParseOne = Seen "string list" Flags | Finished "string list" | ErrHelp | Failed

text \<open>A name and the value after the first equals sign behind its first character.\<close>

definition splitValue :: "string \<Rightarrow> string \<times> string option" where
  "splitValue s =
     (hd s # takeWhile (\<lambda>c. c \<noteq> CHR ''='') (tl s),
      if CHR ''='' \<in> set (tl s) then Some (tl (dropWhile (\<lambda>c. c \<noteq> CHR ''='') (tl s))) else None)"

definition setFlag :: "(string \<Rightarrow> Flags \<Rightarrow> Flags option) \<Rightarrow> string \<Rightarrow> Flags \<Rightarrow> string list \<Rightarrow> ParseOne" where
  "setFlag setter v f rest = (case setter v f of None \<Rightarrow> Failed | Some f' \<Rightarrow> Seen rest f')"

definition parseNamed :: "LibFlags \<Rightarrow> string \<Rightarrow> string list \<Rightarrow> Flags \<Rightarrow> ParseOne" where
  "parseNamed lib s rest f =
     (let (name, value) = splitValue s in
      case formal lib name of
        None \<Rightarrow> if name = ''help'' \<or> name = ''h'' then ErrHelp else Failed
      | Some (True, setter) \<Rightarrow> setFlag setter (case value of None \<Rightarrow> ''true'' | Some v \<Rightarrow> v) f rest
      | Some (False, setter) \<Rightarrow>
          (case value of
             Some v \<Rightarrow> setFlag setter v f rest
           | None \<Rightarrow> (case rest of [] \<Rightarrow> Failed | v # rest' \<Rightarrow> setFlag setter v f rest')))"

definition parseOne :: "LibFlags \<Rightarrow> string list \<Rightarrow> Flags \<Rightarrow> ParseOne" where
  "parseOne lib args f =
     (case args of
        [] \<Rightarrow> Finished []
      | s # rest \<Rightarrow>
          if length s < 2 \<or> hd s \<noteq> CHR ''-'' then Finished args
          else if s = ''--'' then Finished rest
          else (let t = (if s ! 1 = CHR ''-'' then drop 2 s else tl s) in
                if hd t = CHR ''-'' \<or> hd t = CHR ''='' then Failed else parseNamed lib t rest f))"

lemma parseOne_shorter: "parseOne lib args f = Seen rest f' \<Longrightarrow> length rest < length args"
  by (auto simp: parseOne_def parseNamed_def setFlag_def Let_def
      split: list.splits if_splits prod.splits option.splits bool.splits)

text \<open>\<^verbatim>\<open>flag.Parse\<close>: an error ends the process with exit code 2, a request for help with 0.\<close>

datatype Parsed = Run Flags "string list" | Exit nat

function parseFlags :: "LibFlags \<Rightarrow> string list \<Rightarrow> Flags \<Rightarrow> Parsed" where
  "parseFlags lib args f =
     (case parseOne lib args f of
        Seen rest f' \<Rightarrow> parseFlags lib rest f'
      | Finished rest \<Rightarrow> Run f rest
      | ErrHelp \<Rightarrow> Exit 0
      | Failed \<Rightarrow> Exit 2)"
  by pat_completeness auto

termination
  by (relation "measure (\<lambda>(lib, args, f). length args)") (auto dest: parseOne_shorter)

declare parseFlags.simps [simp del]

text \<open>The process: its exit code, and what its calls have done.\<close>

definition runMain :: "LibFlags \<Rightarrow> (Call \<Rightarrow> ('w, unit) io) \<Rightarrow> string list \<Rightarrow> 'w \<Rightarrow> nat \<times> 'w" where
  "runMain lib call args w =
     (case parseFlags lib args defaultFlags of
        Exit n \<Rightarrow> (n, w)
      | Run f _ \<Rightarrow> (case main call f w of (res, w') \<Rightarrow> (exitCode res, w')))"

subsection \<open>What is written is read\<close>

lemma ParseBool_text [simp]: "ParseBool (if b then ''true'' else ''false'') = Some b"
  by (simp add: ParseBool_def)

text \<open>Decimal digits are digits in base ten, and a positive number does not begin with a zero.\<close>

lemma digitVal_underscore [simp]: "digitVal CHR ''_'' = None"
  by (simp add: digitVal_def)

lemma digitVal_less: "digitVal c = Some d \<Longrightarrow> d < 10"
  by (auto simp: digitVal_def Let_def split: if_splits)

lemma parseBase_digits:
  assumes "\<forall>c \<in> set s. digitVal c \<noteq> None"
  shows "parseBase 10 n s = parseDigits n s"
  using assms by (induction n s rule: parseDigits.induct) (auto simp: digit36_def digitVal_less)

lemma showNat_digits: "c \<in> set (showNat n) \<Longrightarrow> digitVal c \<noteq> None"
proof (induction n rule: showNat.induct)
  case (1 n)
  then show ?case by (cases "n < 10") (auto simp: showNat.simps [of n])
qed

lemma hd_showNat_zero: "hd (showNat n) = CHR ''0'' \<longleftrightarrow> n = 0"
proof (induction n rule: showNat.induct)
  case (1 n)
  have "digitChar d = CHR ''0'' \<longleftrightarrow> d = 0" if "d < 10" for d
  proof -
    have "CHR ''0'' = digitChar 0" by code_simp
    with that show ?thesis by (metis digitVal_digitChar option.inject zero_less_numeral)
  qed
  with 1 show ?case by (cases "n < 10") (simp_all add: showNat.simps [of n])
qed

lemma ParseUint0_showNat:
  assumes "n \<le> 2 ^ 63"
  shows "ParseUint0 (showNat n) = Some n"
proof (cases "n = 0")
  case True
  have "showNat 0 = ''0''" by code_simp
  with True show ?thesis by (simp add: ParseUint0_def basePrefix_def)
next
  case False
  then have "basePrefix (showNat n) = (10, showNat n)" by (simp add: basePrefix_def hd_showNat_zero)
  moreover have "parseBase 10 0 (showNat n) = Some n"
    using parseBase_digits showNat_digits by (simp add: parseDigits_showNat)
  moreover have "CHR ''_'' \<notin> set (showNat n)" using showNat_digits [of "CHR ''_''" n] by auto
  ultimately show ?thesis using assms by (simp add: ParseUint0_def)
qed

lemma ParseInt0_FormatInt [simp]: "ParseInt0 (FormatInt w) = Some w"
  using parseSigned_FormatInt [of ParseUint0 "[]"] ParseUint0_showNat by (simp add: ParseInt0_def)

text \<open>A duration in nanoseconds.\<close>

lemma parseDigits_ge: "parseDigits a s = Some n \<Longrightarrow> a \<le> n"
  by (induction a s rule: parseDigits.induct) (auto split: option.splits)

lemma leadingInt_digits:
  assumes "parseDigits x s = Some n" and "n \<le> 2 ^ 63" and "digitVal (hd t) = None"
  shows "leadingInt x (s @ t) = Some (n, t)"
  using assms
proof (induction x s rule: parseDigits.induct)
  case (1 acc)
  then show ?case by (cases t) auto
next
  case (2 acc c cs)
  then obtain d where d: "digitVal c = Some d" "parseDigits (10 * acc + d) cs = Some n"
    by (auto split: option.splits)
  with 2 parseDigits_ge [OF d(2)] show ?case by simp
qed

lemma durationPart_ns:
  assumes "n \<le> 2 ^ 63"
  shows "durationPart (showNat n @ ''ns'') = Some (n, [])"
proof -
  have "\<not> isUnitByte (hd (showNat n))" using showNat_digits [of "hd (showNat n)" n] by (simp add: isUnitByte_def)
  moreover have "isUnitByte CHR ''n''" "isUnitByte CHR ''s''" by (simp_all add: isUnitByte_def digitVal_def)
  moreover have "leadingInt 0 (showNat n @ ''ns'') = Some (n, ''ns'')"
    by (rule leadingInt_digits [OF parseDigits_showNat assms]) (simp add: digitVal_def)
  ultimately show ?thesis using assms by (simp add: durationPart_def pointPart_def inNanoseconds_def unitMap_def)
qed

lemma ParseDuration_ns [simp]: "ParseDuration (FormatInt w @ ''ns'') = Some w"
  unfolding ParseDuration_def
proof (rule parseSigned_FormatInt)
  fix n :: nat assume n: "n \<le> 2 ^ 63"
  then have "durationLoop 0 (showNat n @ ''ns'') = Some n"
    by (simp add: durationLoop.simps [of 0] durationLoop.simps [of _ "[]"] durationPart_ns)
  then show "durationUint (showNat n @ ''ns'') = Some n" by (simp add: durationUint_def append_eq_Cons_conv)
qed

text \<open>An argument that sets a flag of \<^verbatim>\<open>main\<close> with an equals sign.\<close>

definition flagArg :: "string \<Rightarrow> string \<Rightarrow> string" where
  "flagArg name v = ''--'' @ name @ ''='' @ v"

lemma splitValue_arg:
  assumes "name \<noteq> []" and "CHR ''='' \<notin> set name"
  shows "splitValue (name @ CHR ''='' # v) = (name, Some v)"
proof -
  obtain c cs where name: "name = c # cs" using assms(1) by (cases name) auto
  have "takeWhile (\<lambda>c. c \<noteq> CHR ''='') (cs @ CHR ''='' # v) = cs \<and>
      dropWhile (\<lambda>c. c \<noteq> CHR ''='') (cs @ CHR ''='' # v) = CHR ''='' # v"
    using assms(2) unfolding name by (induction cs) auto
  with name show ?thesis by (simp add: splitValue_def)
qed

lemma flagVars_names:
  assumes "map_of flagVars name = Some v"
  shows "name \<noteq> []" "CHR ''='' \<notin> set name" "hd name \<noteq> CHR ''-''" "hd name \<noteq> CHR ''=''"
  using assms by (auto simp: flagVars_def split: if_splits)

lemma parseFlags_arg:
  assumes "map_of flagVars name = Some (isBool, setter)" and "setter v f = Some f'"
  shows "parseFlags lib (flagArg name v # rest) f = parseFlags lib rest f'"
proof -
  note n = flagVars_names [OF assms(1)]
  from assms n have "parseOne lib (flagArg name v # rest) f = Seen rest f'"
    by (cases isBool) (simp_all add: parseOne_def flagArg_def parseNamed_def splitValue_arg formal_def setFlag_def)
  then show ?thesis by (simp add: parseFlags.simps [of lib "flagArg name v # rest"])
qed

text \<open>All flags, written out.\<close>

definition boolText :: "bool \<Rightarrow> string" where
  "boolText b = (if b then ''true'' else ''false'')"

definition flagArgs :: "Flags \<Rightarrow> string list" where
  "flagArgs f =
     [flagArg ''metrics-bind-address'' (metricsAddr f), flagArg ''health-probe-bind-address'' (probeAddr f),
      flagArg ''leader-elect'' (boolText (enableLeaderElection f)), flagArg ''metrics-secure'' (boolText (secureMetrics f)),
      flagArg ''watch-namespaces'' (watchNamespaces f),
      flagArg ''webhook-cert-path'' (webhookCertPath f), flagArg ''webhook-cert-name'' (webhookCertName f),
      flagArg ''webhook-cert-key'' (webhookCertKey f), flagArg ''metrics-cert-path'' (metricsCertPath f),
      flagArg ''metrics-cert-name'' (metricsCertName f), flagArg ''metrics-cert-key'' (metricsCertKey f),
      flagArg ''enable-http2'' (boolText (enableHTTP2 f)), flagArg ''enable-pprof'' (boolText (enablePprof f)),
      flagArg ''pprof-bind-address'' (pprofAddr f), flagArg ''resync-interval'' (FormatInt (resyncInterval f) @ ''ns''),
      flagArg ''max-concurrent-reconciles'' (FormatInt (maxConcurrentReconciles f))]"

lemma string_flags:
  "map_of flagVars ''metrics-bind-address'' = Some (StringVar metricsAddr_update)"
  "map_of flagVars ''health-probe-bind-address'' = Some (StringVar probeAddr_update)"
  "map_of flagVars ''watch-namespaces'' = Some (StringVar watchNamespaces_update)"
  "map_of flagVars ''webhook-cert-path'' = Some (StringVar webhookCertPath_update)"
  "map_of flagVars ''webhook-cert-name'' = Some (StringVar webhookCertName_update)"
  "map_of flagVars ''webhook-cert-key'' = Some (StringVar webhookCertKey_update)"
  "map_of flagVars ''metrics-cert-path'' = Some (StringVar metricsCertPath_update)"
  "map_of flagVars ''metrics-cert-name'' = Some (StringVar metricsCertName_update)"
  "map_of flagVars ''metrics-cert-key'' = Some (StringVar metricsCertKey_update)"
  "map_of flagVars ''pprof-bind-address'' = Some (StringVar pprofAddr_update)"
  by (simp_all add: flagVars_def)

lemma bool_flags:
  "map_of flagVars ''leader-elect'' = Some (BoolVar enableLeaderElection_update)"
  "map_of flagVars ''metrics-secure'' = Some (BoolVar secureMetrics_update)"
  "map_of flagVars ''enable-http2'' = Some (BoolVar enableHTTP2_update)"
  "map_of flagVars ''enable-pprof'' = Some (BoolVar enablePprof_update)"
  by (simp_all add: flagVars_def)

lemma duration_flags:
  "map_of flagVars ''resync-interval'' = Some (DurationVar resyncInterval_update)"
  by (simp_all add: flagVars_def)

lemma int_flags:
  "map_of flagVars ''max-concurrent-reconciles'' = Some (IntVar maxConcurrentReconciles_update)"
  by (simp_all add: flagVars_def)

lemma ParseBool_boolText [simp]: "ParseBool (boolText b) = Some b"
  by (simp add: ParseBool_def boolText_def)

lemma parseFlags_vars:
  "map_of flagVars name = Some (StringVar su) \<Longrightarrow> parseFlags lib (flagArg name v # rest) f = parseFlags lib rest (su (\<lambda>_. v) f)"
  "map_of flagVars name = Some (BoolVar bu) \<Longrightarrow>
     parseFlags lib (flagArg name (boolText b) # rest) f = parseFlags lib rest (bu (\<lambda>_. b) f)"
  "map_of flagVars name = Some (DurationVar du) \<Longrightarrow>
     parseFlags lib (flagArg name (FormatInt d @ ''ns'') # rest) f = parseFlags lib rest (du (\<lambda>_. d) f)"
  "map_of flagVars name = Some (IntVar iu) \<Longrightarrow>
     parseFlags lib (flagArg name (FormatInt i) # rest) f = parseFlags lib rest (iu (\<lambda>_. i) f)"
  unfolding StringVar_def BoolVar_def DurationVar_def IntVar_def by (erule parseFlags_arg, simp)+

lemma parseFlags_Nil [simp]: "parseFlags lib [] f = Run f []"
  by (simp add: parseFlags.simps [of lib "[]"] parseOne_def)

text \<open>
  C35. Every setting of the flags can be given on the command line: the arguments that write out all flags are
  parsed to exactly these flags, whatever the defaults and whatever flags other packages have registered.
\<close>

theorem flags_roundtrip: "parseFlags lib (flagArgs f) g = Run f []"
  by (simp add: flagArgs_def string_flags [THEN parseFlags_vars(1)] bool_flags [THEN parseFlags_vars(2)]
      duration_flags [THEN parseFlags_vars(3)] int_flags [THEN parseFlags_vars(4)])

text \<open>
  A boolean flag does not take the next argument as its value. Parsing ends at the first argument that is not a
  flag, so what follows \<^verbatim>\<open>--leader-elect false\<close> has no effect, and leader election is on.
\<close>

lemma bool_flag_word:
  assumes "map_of flagVars name = Some (BoolVar upd)" and "length v < 2 \<or> hd v \<noteq> CHR ''-''"
  shows "parseFlags lib ((''--'' @ name) # v # rest) f = Run (upd (\<lambda>_. True) f) (v # rest)"
proof -
  note n = flagVars_names [OF assms(1)]
  obtain c cs where name: "name = c # cs" using n(1) by (cases name) auto
  have "takeWhile (\<lambda>c. c \<noteq> CHR ''='') cs = cs" using n(2) unfolding name by (induction cs) auto
  with n(2) have "splitValue name = (name, None)" by (simp add: splitValue_def name)
  with assms n have "parseOne lib ((''--'' @ name) # v # rest) f = Seen (v # rest) (upd (\<lambda>_. True) f)"
    by (simp add: parseOne_def parseNamed_def formal_def BoolVar_def setFlag_def ParseBool_def)
  moreover have "parseOne lib (v # rest) f' = Finished (v # rest)" for f'
    using assms(2) by (auto simp: parseOne_def)
  ultimately show ?thesis
    by (subst parseFlags.simps) (simp add: parseFlags.simps [of lib "v # rest"])
qed

subsection \<open>From the arguments to the manager\<close>

lemma parseFlags_exit: "parseFlags lib args f = Exit n \<Longrightarrow> n \<in> {0, 2}"
proof (induction lib args f rule: parseFlags.induct)
  case (1 lib args f)
  then show ?case
    unfolding parseFlags.simps [of lib args] by (auto split: ParseOne.splits)
qed


end
