(* ===== verification/Spec2Isabelle.thy ===== *)
theory Spec2Isabelle
  imports Scale_Down Stalled Registration Deepcopy Flag_Parsing
begin

text \<open>
  \<^bold>\<open>The Redkey operator.\<close> A Kubernetes operator that turns a \<^verbatim>\<open>Redkey\<close> (a Redis cluster) into a sequence
  of \<^verbatim>\<open>RedkeyConfig\<close> objects. A user edits the Redkey; the operator publishes one config per generation
  of its spec, keeps the Deployment and the RBAC objects of Robin, mirrors the status of the active
  config into the Redkey and deletes configs that are no longer needed. Robin, a separate program,
  processes the configs in sequence and reports in their status. With no primaries the operator asks
  Robin to take the cluster down and then removes what it owns.

  \<^bold>\<open>Theories.\<close>
  \<^item> \<^verbatim>\<open>Redkey_Prelude\<close>: Go maps, 64-bit integers and their decimal form, the \<open>io\<close> monad of calls that
    change a world and may return an error, and the weakest precondition calculus \<open>wp m Q E\<close>
    (\<open>Q\<close> after success, \<open>E\<close> after an error) whose equations form \<open>wp_simps\<close>; \<open>keeps P m\<close> for what a call keeps.
  \<^item> \<^verbatim>\<open>Api_Types\<close>: the records of \<^verbatim>\<open>api/v1beta1/redkey_types.go\<close> and \<^verbatim>\<open>redkeyconfig_types.go\<close>, their
    constants and methods, and the Kubernetes types they use.
  \<^item> \<^verbatim>\<open>Kube\<close>: the reconciler record of \<^verbatim>\<open>internal/controller/redkey_controller.go\<close>. The client calls, the
    helpers of apimachinery and the Prometheus vectors are fields of it, over any type of worlds; what
    they are documented to do is stated as locales over an observation \<open>api\<close> of the stored objects
    and, for metrics, of the series.
  \<^item> \<^verbatim>\<open>Mem_World\<close>: a world in memory that satisfies all of these laws, on which every locale is
    interpreted and every witness runs.
  \<^item> \<^verbatim>\<open>Metrics\<close> (\<^verbatim>\<open>metrics.go\<close>), \<^verbatim>\<open>Robin\<close> (\<^verbatim>\<open>redkey_robin.go\<close>), \<^verbatim>\<open>Config\<close> (\<^verbatim>\<open>redkey_config.go\<close>),
    \<^verbatim>\<open>Scale_Zero\<close> (\<^verbatim>\<open>redkey_scale_zero.go\<close>) and \<^verbatim>\<open>Controller\<close> (\<^verbatim>\<open>Reconcile\<close>): one definition per function
    of the source, named as there where that is possible, with its early returns and error paths.
  \<^item> \<^verbatim>\<open>Handler_Frames\<close>: what the handlers leave alone, one locale for each group of requests they make.
  \<^item> \<^verbatim>\<open>Admission\<close>: the validation rules in the markers of \<^verbatim>\<open>redkey_types.go\<close>.
  \<^item> \<^verbatim>\<open>Convergence\<close>: the abstract log of configs and the refinement of \<^verbatim>\<open>Reconcile\<close> to it.
  \<^item> \<^verbatim>\<open>Lifecycle\<close>: the interleaving of users, Robin and the operator as a step relation.
  \<^item> \<^verbatim>\<open>Stale_Views\<close>, \<^verbatim>\<open>Stale_Reads\<close> and \<^verbatim>\<open>Stalled\<close>: the same reconciler on caches that lag behind the API server,
    with edits and reports between its requests. The first has the versions of the objects and how they
    change, the second the client and the reconciler, the third a generation that is lost.
  \<^item> \<^verbatim>\<open>Scale_Down\<close>: the turns of the operator and Robin that take a cluster down, with the measure
    \<open>configWork\<close> that decreases.
  \<^item> \<^verbatim>\<open>Startup\<close>: the options and calls of \<^verbatim>\<open>cmd/main.go\<close> and the routes of the pprof server. \<^verbatim>\<open>Flag_Parsing\<close>: its
    command line, with what \<^verbatim>\<open>flag\<close>, \<^verbatim>\<open>strconv\<close> and \<^verbatim>\<open>time\<close> of the standard library do with it. Flags that other
    packages add are a parameter.
  \<^item> \<^verbatim>\<open>Same_Requests\<close>: two reconcilers that agree on the requests a reconcile can make and on the metrics it
    can touch do the same. \<^verbatim>\<open>Permissions\<close> uses it for the rbac markers of \<^verbatim>\<open>redkey_controller.go\<close> against a
    client that checks them, and \<^verbatim>\<open>Registration\<close> for the registered metrics against a client that panics;
    the latter also has the \<^verbatim>\<open>init\<close> functions, \<^verbatim>\<open>groupversion_info.go\<close> and \<^verbatim>\<open>SetupWithManager\<close>.
  \<^item> \<^verbatim>\<open>Go_Heap\<close> and \<^verbatim>\<open>Deepcopy\<close>: Go values with pointers, slices and maps on a heap of cells, the tree a value
    represents, and every function of \<^verbatim>\<open>zz_generated.deepcopy.go\<close> over it.

  \<^bold>\<open>State.\<close> A world \<open>'w\<close> is opaque. \<open>api w\<close> is the store: maps for the Redkeys, the Deployments and the
  RBAC objects, and a list for the configs. An \<open>rstate\<close> is a world together with the two trackers of
  \<^verbatim>\<open>metrics.go\<close>. Integers have the width of the source, so sequence numbers and \<^verbatim>\<open>NodesNeeded\<close> wrap.
  Objects are values: a function of the source that writes through a pointer returns the new value. That
  this loses nothing rests on the deep copies, which alone are modelled with their pointers.

  \<^bold>\<open>What is shown.\<close>
  \<^item> One reconcile: it refines publishing and pruning on the abstract log, settles a live Redkey for any
    number of further reconciles, counts each of its errors once and forgets deleted Redkeys.
  \<^item> All reachable states, with reconciles that any failed request may have cut short: configs are numbered
    in the order of their generations, one for each, and the first reconcile after the API server has
    recovered succeeds.
  \<^item> Stale caches: for a Redkey that keeps its primaries the configs stay in order however far the caches lag,
    but a generation can end up observed and never published, in a history that is run.
  \<^item> Scale to zero: what each of its four cases creates, deletes and writes, and that from every reachable
    state two turns of the operator and Robin are enough.
  \<^item> Permissions: the declared rules allow every request of every reconcile, including the Role written for
    Robin, and Robin's rules keep it from what the operator owns.
  \<^item> Registration: the initialisers and the controller's set-up succeed, and no use of a metric panics.
  \<^item> Deep copies: equal contents, no shared cell, the original unchanged, and later writes on one side
    not seen on the other.
  \<^item> Configs and status: creation settles a generation, cleanup deletes exactly what precedes the last
    applied config, the phase and the health conditions are functions of the active config.
  \<^item> Robin: the handlers converge and are idempotent; the merges of metadata and environment; the
    selector and the reserved variables cannot be overridden; two defects of drift detection.
  \<^item> Metrics: accounting of operations, state sets, time to ready, removal of series.
  \<^item> Admission and start-up: fields that cannot change, the width of \<^verbatim>\<open>NodesNeeded\<close>, the watched
    namespaces, TLS, the order of the calls and the command line for every setting of the flags; and where the topology lock and the bounds of the
    replicas fall short.

  \<^bold>\<open>Hypotheses.\<close> The flag \<open>outage\<close> of the API laws says whether requests may fail for reasons other than
  the stored objects. Theorems with a free \<open>outage\<close> cover both: they state what an error leaves
  behind, and that there is none without an outage. A failed request has no effect in these laws: a write
  that is applied although its answer is lost is not covered. A reconcile is one step of the life cycle, on
  reads that are up to date; writes of others between its calls and reads that lag behind are the subject of
  \<^verbatim>\<open>Stale_Reads\<close>, for the configs and without scaling to zero.
  Scaling down is stated for a Robin that applies the latest config in its turn. Convergence needs that the user's annotations do not
  contain the Deployment controller's revision annotation; a theorem in \<^verbatim>\<open>Robin\<close> shows why. New
  sequence numbers must stay below the largest 64-bit integer; in the life cycle this follows
  from the bound on generations. The retry of \<^verbatim>\<open>retry.RetryOnConflict\<close> is any finite number of
  attempts. No definition uses fuel: every loop of the source runs over a list, and those of the flag parser
  consume their input.

  \<^bold>\<open>Not modelled.\<close>
  \<^item> Of \<^verbatim>\<open>cmd/main.go\<close>: setting up the logger, and the flags that other packages add beyond their names and
    which values they accept.
  \<^item> The libraries behind parameters: the deep copies of the types of Kubernetes, the Prometheus registry,
    the scheme, the controller builder and the API server's authorizer beyond resources, verbs and the
    escalation check on Roles.
  \<^item> The CRD manifests and charts, which are generated from the markers or static, and the test frameworks.
  \<^item> Log calls, and the informational sub-status names, which no code of the operator reads.
  \<^item> Robin itself, which is another repository: the life cycle lets it report anything.
\<close>

end
